(* ===== verification/Prelude.thy ===== *)
theory Prelude
  imports Main "HOL-Library.Word"
begin

text \<open>
  Shared vocabulary of the development: the machine integers of the C++ sources, the errors the
  program can end in and the result type that carries them, the \<open>switch\<close> statement, and the
  generic lemmas on words and lists that the component theories use.

  \<^item> \<open>u8\<close>, \<open>u16\<close>, \<open>u32\<close>, \<open>u64\<close> are the unsigned types of \<^verbatim>\<open><cstdint>\<close>. A signed type has the
    bits of the unsigned type of its width (C++20 fixes two's complement), so \<open>i32\<close> and \<open>i64\<close>
    are words too; \<open>sint\<close> reads the signed value.
  \<^item> \<open>error\<close> has one constructor per kind of exception that the sources throw, and a constructor
    for undefined behaviour: where the C++ standard gives an operation no meaning, the model
    returns \<open>UndefinedBehaviour\<close> instead of inventing a value.
\<close>

section \<open>Machine integers\<close>

type_synonym u8 = "8 word"
type_synonym u16 = "16 word"
type_synonym u32 = "32 word"
type_synonym u64 = "64 word"
type_synonym i32 = "32 word"
type_synonym i64 = "64 word"

text \<open>
  Names for the bitwise operators. The infix syntax of the library is not used, because AND, OR
  and XOR are constructors of the instruction type.
\<close>

abbreviation bitand :: "'a::semiring_bit_operations \<Rightarrow> 'a \<Rightarrow> 'a" where
  "bitand \<equiv> semiring_bit_operations_class.and"

abbreviation bitor :: "'a::semiring_bit_operations \<Rightarrow> 'a \<Rightarrow> 'a" where
  "bitor \<equiv> semiring_bit_operations_class.or"

abbreviation bitnot :: "'a::ring_bit_operations \<Rightarrow> 'a" where
  "bitnot \<equiv> ring_bit_operations_class.not"

named_theorems bitfield \<open>bit-level readings of the routines of utils/bits.hpp\<close>
named_theorems result_simps \<open>the result monad: binds, guards and their inversions\<close>

section \<open>Errors and results\<close>

text \<open>
  \<open>UnknownInstructionException c e\<close> is the exception object of that class (its instruction class
  and its encoding); \<open>UnknownInstructionPointer c e\<close> is a pointer to one, which is what
  \<^verbatim>\<open>throw new\<close> throws. A handler for \<^verbatim>\<open>std::exception const&\<close> catches the first and not the second.
\<close>

datatype error =
    RuntimeError string
  | InvalidArgument string
  | UnknownInstructionException string u32
  | UnknownInstructionPointer string u32
  | BadAlloc
  | LengthError
  | UndefinedBehaviour string

type_synonym 'a result = "error + 'a"

definition bind_result :: "'a result \<Rightarrow> ('a \<Rightarrow> 'b result) \<Rightarrow> 'b result" where
  "bind_result m f = (case m of Inl e \<Rightarrow> Inl e | Inr x \<Rightarrow> f x)"

lemma bind_result_simps [simp, result_simps]:
  "bind_result (Inl e) f = Inl e"
  "bind_result (Inr x) f = f x"
  by (simp_all add: bind_result_def)

lemma bind_result_Inr_iff [result_simps]:
  "bind_result m f = Inr y \<longleftrightarrow> (\<exists>x. m = Inr x \<and> f x = Inr y)"
  by (cases m) simp_all

lemma bind_result_Inl_iff [result_simps]:
  "bind_result m f = Inl e \<longleftrightarrow> m = Inl e \<or> (\<exists>x. m = Inr x \<and> f x = Inl e)"
  by (cases m) simp_all

lemma bind_result_assoc:
  "bind_result (bind_result m f) g = bind_result m (\<lambda>x. bind_result (f x) g)"
  by (cases m) simp_all

lemma bind_result_right_unit [simp]: "bind_result m Inr = m"
  by (cases m) simp_all

text \<open>\<open>throw_if b e\<close> is the statement \<^verbatim>\<open>if (b) throw e;\<close>.\<close>

definition throw_if :: "bool \<Rightarrow> error \<Rightarrow> unit result" where
  "throw_if b e = (if b then Inl e else Inr ())"

lemma throw_if_simps [simp, result_simps]:
  "throw_if True e = Inl e"
  "throw_if False e = Inr ()"
  by (simp_all add: throw_if_def)

lemma throw_if_Inr_iff [simp, result_simps]: "throw_if b e = Inr u \<longleftrightarrow> \<not> b"
  by (simp add: throw_if_def)

lemma throw_if_Inl_iff [simp, result_simps]: "throw_if b e = Inl e' \<longleftrightarrow> b \<and> e' = e"
  by (auto simp: throw_if_def)

text \<open>A loop over a sequence that stops at the first error, in source order.\<close>

fun map_result :: "('a \<Rightarrow> 'b result) \<Rightarrow> 'a list \<Rightarrow> 'b list result" where
  "map_result f [] = Inr []"
| "map_result f (x # xs) =
     bind_result (f x) (\<lambda>y. bind_result (map_result f xs) (\<lambda>ys. Inr (y # ys)))"

lemma map_result_Inr_iff:
  "map_result f xs = Inr ys \<longleftrightarrow> list_all2 (\<lambda>x y. f x = Inr y) xs ys"
  by (induction xs arbitrary: ys) (auto simp: result_simps list_all2_Cons1)

lemma map_result_Inl_iff:
  "map_result f xs = Inl e \<longleftrightarrow>
    (\<exists>i < length xs. f (xs ! i) = Inl e \<and> (\<forall>j < i. \<exists>y. f (xs ! j) = Inr y))"
proof (induction xs)
  case Nil
  then show ?case by simp
next
  case (Cons x xs)
  then show ?case
    by (cases "f x") (auto simp: result_simps Ex_less_Suc2 All_less_Suc2)
qed

lemma map_result_append:
  "map_result f (xs @ ys) =
    bind_result (map_result f xs) (\<lambda>us. bind_result (map_result f ys) (\<lambda>vs. Inr (us @ vs)))"
  by (induction xs) (simp_all add: bind_result_assoc)

section \<open>The switch statement\<close>

text \<open>
  \<open>switch k cases d\<close> is a C++ \<^verbatim>\<open>switch\<close> on \<open>k\<close> in which every case ends in \<^verbatim>\<open>break\<close> or a throw:
  the labels in source order with what each case does, and the default.
\<close>

fun switch :: "'k \<Rightarrow> ('k \<times> 'v) list \<Rightarrow> 'v \<Rightarrow> 'v" where
  "switch k [] d = d"
| "switch k ((l, v) # cs) d = (if k = l then v else switch k cs d)"

lemma switch_cases:
  "switch k cs d = d \<or> (\<exists>l v. (l, v) \<in> set cs \<and> k = l \<and> switch k cs d = v)"
  by (induction k cs d rule: switch.induct) auto

lemma switch_map_of: "switch k cs d = (case map_of cs k of None \<Rightarrow> d | Some v \<Rightarrow> v)"
  by (induction k cs d rule: switch.induct) auto

text \<open>A property of every branch is a property of the switch.\<close>

lemma switchI:
  assumes "\<And>v. v \<in> snd ` set cs \<Longrightarrow> P v" and "P d"
  shows "P (switch k cs d)"
  using switch_cases [of k cs d] assms by force

text \<open>The same with the label that was taken.\<close>

lemma switch_casesI:
  assumes "\<And>l v. (l, v) \<in> set cs \<Longrightarrow> k = l \<Longrightarrow> P v" and "P d"
  shows "P (switch k cs d)"
  using switch_cases [of k cs d] assms by force

section \<open>Decimal rendering\<close>

text \<open>\<open>to_string n\<close> is \<^verbatim>\<open>std::to_string\<close> of an unsigned integer.\<close>

fun to_string :: "nat \<Rightarrow> string" where
  "to_string n =
     (if n < 10 then [char_of (48 + n)] else to_string (n div 10) @ [char_of (48 + n mod 10)])"

declare to_string.simps [simp del]

section \<open>Words\<close>

lemma word_eq_bitsI:
  fixes v w :: "'a::len word"
  assumes "\<And>n. n < LENGTH('a) \<Longrightarrow> bit v n = bit w n"
  shows "v = w"
  using assms by (rule bit_word_eqI)

lemma bit_exp_word_iff [bitfield]:
  "bit (2 ^ m :: 'a::len word) n \<longleftrightarrow> m = n \<and> n < LENGTH('a)"
  by (auto simp: bit_exp_iff)

lemma bitand_exp_word:
  "bitand w (2 ^ m) = (if bit w m then 2 ^ m else 0)" for w :: "'a::len word"
  by (rule word_eq_bitsI) (auto simp: bit_and_iff bitfield)

lemma exp_word_neq_0:
  assumes "m < LENGTH('a)"
  shows "(2 ^ m :: 'a::len word) \<noteq> 0"
  using assms by (metis bit_0_eq bit_exp_word_iff bot_apply bot_bool_def)

lemma unat_less_exp: "n = LENGTH('a) \<Longrightarrow> unat (w :: 'a::len word) < 2 ^ n"
  by simp

section \<open>Lists\<close>

text \<open>
  \<open>overwrite off bs xs\<close> overwrites \<open>xs\<close> with the bytes \<open>bs\<close> from index \<open>off\<close> on: a write through a
  pointer into the array \<open>xs\<close>. It is only used where the range is inside the array.
\<close>

definition overwrite :: "nat \<Rightarrow> 'a list \<Rightarrow> 'a list \<Rightarrow> 'a list" where
  "overwrite off bs xs = take off xs @ bs @ drop (off + length bs) xs"

definition slice_of :: "nat \<Rightarrow> nat \<Rightarrow> 'a list \<Rightarrow> 'a list" where
  "slice_of off n xs = take n (drop off xs)"

lemma length_overwrite [simp]:
  "off + length bs \<le> length xs \<Longrightarrow> length (overwrite off bs xs) = length xs"
  by (simp add: overwrite_def)

lemma length_slice_of [simp]:
  "off + n \<le> length xs \<Longrightarrow> length (slice_of off n xs) = n"
  by (simp add: slice_of_def)

lemma nth_overwrite:
  assumes "off + length bs \<le> length xs" and "i < length xs"
  shows "overwrite off bs xs ! i =
    (if off \<le> i \<and> i < off + length bs then bs ! (i - off) else xs ! i)"
  using assms by (auto simp: overwrite_def nth_append min_def)

lemma nth_slice_of:
  "off + n \<le> length xs \<Longrightarrow> i < n \<Longrightarrow> slice_of off n xs ! i = xs ! (off + i)"
  by (simp add: slice_of_def)

lemma slice_of_eq_nth:
  assumes "slice_of p n xs = slice_of p n ys" and "p + n \<le> length xs" and "p + n \<le> length ys"
    and "p \<le> i" and "i < p + n"
  shows "xs ! i = ys ! i"
proof -
  have "i - p < n" and "p + (i - p) = i" using assms(4,5) by simp_all
  then show ?thesis using assms(1-3) nth_slice_of by metis
qed

lemma slice_of_overwrite_same:
  "off + length bs \<le> length xs \<Longrightarrow> slice_of off (length bs) (overwrite off bs xs) = bs"
  by (simp add: slice_of_def overwrite_def)

lemma slice_of_overwrite_disjoint:
  assumes "off + length bs \<le> length xs" and "p + n \<le> length xs"
    and "p + n \<le> off \<or> off + length bs \<le> p"
  shows "slice_of p n (overwrite off bs xs) = slice_of p n xs"
  using assms by (auto intro!: nth_equalityI simp: nth_slice_of nth_overwrite)

lemma overwrite_slice_of: "off + n \<le> length xs \<Longrightarrow> overwrite off (slice_of off n xs) xs = xs"
  by (simp add: overwrite_def slice_of_def)
    (metis append_take_drop_id drop_drop add.commute)

lemma overwrite_Nil [simp]: "overwrite off [] xs = xs"
  by (simp add: overwrite_def)

lemma slice_of_0_length [simp]: "slice_of 0 (length xs) xs = xs"
  by (simp add: slice_of_def)

end
