(* ===== verification/Bits.thy ===== *)
theory Bits
  imports Prelude
begin

text \<open>
  The bit manipulation routines of \<^verbatim>\<open>src/src/riscv/utils/bits.hpp\<close>. They are templates over an
  integer type \<open>T\<close>; the model is polymorphic in the word width. Bit indices are \<^verbatim>\<open>uint8_t\<close>, so
  they are \<open>u8\<close> here and arithmetic on them wraps at 256 as the conversions of the code do.

  C++ leaves a shift by the width of the (promoted) operand or more undefined. \<open>oneBits\<close> and \<open>getBits\<close>,
  which compute a shift amount, report it as \<open>UndefinedBehaviour\<close>. A \<open>T\<close> narrower than \<^verbatim>\<open>int\<close> is
  promoted, so that its shifts are defined up to 31, but \<open>2 ^ 31 - 1\<close> overflows in \<^verbatim>\<open>int\<close>. The program
  calls \<open>getBits\<close> with constant positions only; \<open>bitsAt\<close> is the value of such a call, and its lemmas
  have the condition under which the call is defined. The three flag routines and \<open>signExtend\<close> shift
  by an index that is a constant inside the width in every call, and are given on these indices.

  The locale \<open>bit_flags\<close> is the interface of a set of flags packed into a word; the
  floating-point exception flags of a hart are its client.
\<close>

section \<open>The routines\<close>

definition hasBit :: "'a::len word \<Rightarrow> u8 \<Rightarrow> bool" where
  "hasBit value bitIndex = (bitand value (push_bit (unat bitIndex) 1) \<noteq> 0)"

definition setBit :: "'a::len word \<Rightarrow> u8 \<Rightarrow> 'a word" where
  "setBit value bitIndex = bitor value (push_bit (unat bitIndex) 1)"

definition clearBit :: "'a::len word \<Rightarrow> u8 \<Rightarrow> 'a word" where
  "clearBit value bitIndex = bitand value (bitnot (push_bit (unat bitIndex) 1))"

definition oneBits :: "u8 \<Rightarrow> 'a::len word result" where
  "oneBits count =
     (if unat count < max 31 LENGTH('a) then Inr (push_bit (unat count) 1 - 1)
      else Inl (UndefinedBehaviour ''shift''))"

definition getBits :: "'a::len word \<Rightarrow> u8 \<Rightarrow> u8 \<Rightarrow> 'a word result" where
  "getBits value firstBit lastBit =
     (if unat firstBit < max 32 LENGTH('a) then
        bind_result (oneBits (lastBit - firstBit + 1)) (\<lambda>ones.
        Inr (bitand (drop_bit (unat firstBit) value) ones))
      else Inl (UndefinedBehaviour ''shift''))"

definition bitsAt :: "'a::len word \<Rightarrow> u8 \<Rightarrow> u8 \<Rightarrow> 'a word" where
  "bitsAt value firstBit lastBit = projr (getBits value firstBit lastBit)"

definition signExtend :: "'a::len word \<Rightarrow> u8 \<Rightarrow> 'a word" where
  "signExtend value signBit =
     (let beforeWidth = unat signBit + 1;
          afterWidth = LENGTH('a);
          shiftAmount = afterWidth - beforeWidth
      in signed_drop_bit shiftAmount (push_bit shiftAmount value))"

section \<open>Bit-level readings\<close>

lemma hasBit_iff [bitfield]: "hasBit v i \<longleftrightarrow> bit v (unat i)"
proof (cases "unat i < LENGTH('a)")
  case True
  then show ?thesis for v :: "'a::len word"
    by (simp add: hasBit_def bitand_exp_word exp_word_neq_0)
next
  case False
  then show ?thesis for v :: "'a::len word"
    by (auto simp: hasBit_def bitand_exp_word dest: bit_imp_le_length)
qed

lemma bit_setBit_iff [bitfield]:
  "bit (setBit v i) n \<longleftrightarrow> bit v n \<or> (n = unat i \<and> n < LENGTH('a))" for v :: "'a::len word"
  by (auto simp: setBit_def bit_or_iff bitfield)

lemma bit_clearBit_iff [bitfield]:
  "bit (clearBit v i) n \<longleftrightarrow> bit v n \<and> n \<noteq> unat i" for v :: "'a::len word"
  by (auto simp: clearBit_def bit_and_iff bit_not_iff bitfield dest: bit_imp_le_length)

text \<open>The positions for which a call is defined.\<close>

definition field_defined :: "'a::len word \<Rightarrow> u8 \<Rightarrow> u8 \<Rightarrow> bool" where
  "field_defined v f l \<longleftrightarrow> unat f < max 32 LENGTH('a) \<and> unat (l - f + 1) < max 31 LENGTH('a)"

lemma getBits_result:
  "getBits v f l = (if field_defined v f l then Inr (take_bit (unat (l - f + 1)) (drop_bit (unat f) v))
     else Inl (UndefinedBehaviour ''shift''))"
  by (simp add: getBits_def oneBits_def field_defined_def take_bit_eq_mask mask_eq_exp_minus_1)

lemma bitsAt_eq:
  "field_defined v f l \<Longrightarrow> bitsAt v f l = take_bit (unat (l - f + 1)) (drop_bit (unat f) v)"
  by (simp add: bitsAt_def getBits_result)

lemma getBits_bitsAt: "field_defined v f l \<Longrightarrow> getBits v f l = Inr (bitsAt v f l)"
  by (simp add: bitsAt_eq getBits_result)

text \<open>The positions of the sources are numerals, for which the condition evaluates.\<close>

lemma field_defined_32 [simp]:
  "unat f < 32 \<Longrightarrow> unat (l - f + 1) < 32 \<Longrightarrow> field_defined (v :: u32) f l"
  by (simp add: field_defined_def)

lemma field_defined_64 [simp]:
  "unat f < 64 \<Longrightarrow> unat (l - f + 1) < 64 \<Longrightarrow> field_defined (v :: u64) f l"
  by (simp add: field_defined_def)

lemma bit_bitsAt_iff [bitfield]:
  "field_defined v f l \<Longrightarrow> bit (bitsAt v f l) n \<longleftrightarrow> n < unat (l - f + 1) \<and> bit v (unat f + n)"
  by (simp add: bitsAt_eq bit_take_bit_iff bit_drop_bit_eq)

lemma signExtend_eq:
  fixes v :: "'a::len word"
  assumes "unat s < LENGTH('a)"
  shows "signExtend v s = signed_take_bit (unat s) v"
proof (rule word_eq_bitsI)
  fix n assume n: "n < LENGTH('a)"
  have "bit (signExtend v s) n \<longleftrightarrow> bit v (min n (unat s))"
    using assms n
    by (auto simp: signExtend_def Let_def bit_signed_drop_bit_iff bit_push_bit_iff min_def
        intro: arg_cong [where f = "bit v"])
  then show "bit (signExtend v s) n = bit (signed_take_bit (unat s) v) n"
    using n by (simp add: bit_signed_take_bit_iff min.commute)
qed

text \<open>The same routines as arithmetic on the values.\<close>

lemma uint_bitsAt:
  "field_defined v f l \<Longrightarrow> uint (bitsAt v f l) = (uint v div 2 ^ unat f) mod 2 ^ unat (l - f + 1)"
  by (simp only: bitsAt_eq unsigned_take_bit_eq unsigned_drop_bit_eq)
    (simp add: take_bit_eq_mod drop_bit_eq_div)

section \<open>Flags packed into a word\<close>

locale bit_flags =
  fixes width :: nat
    and has :: "'v \<Rightarrow> u8 \<Rightarrow> bool"
    and raise :: "'v \<Rightarrow> u8 \<Rightarrow> 'v"
    and lower :: "'v \<Rightarrow> u8 \<Rightarrow> 'v"
  assumes has_raise: "unat i < width \<Longrightarrow> has (raise v i) j \<longleftrightarrow> has v j \<or> j = i"
    and has_lower: "unat i < width \<Longrightarrow> has (lower v i) j \<longleftrightarrow> has v j \<and> j \<noteq> i"
    and flags_eqI: "(\<And>i. unat i < width \<Longrightarrow> has v i = has w i) \<Longrightarrow> v = w"
begin

lemma raise_idem: "unat i < width \<Longrightarrow> raise (raise v i) i = raise v i"
  by (rule flags_eqI) (simp add: has_raise)

lemma lower_raise: "unat i < width \<Longrightarrow> lower (raise v i) i = lower v i"
  by (rule flags_eqI) (auto simp: has_raise has_lower)

lemma raise_lower: "unat i < width \<Longrightarrow> raise (lower v i) i = raise v i"
  by (rule flags_eqI) (auto simp: has_raise has_lower)

lemma raise_already: "unat i < width \<Longrightarrow> has v i \<Longrightarrow> raise v i = v"
  by (rule flags_eqI) (auto simp: has_raise)

lemma lower_already: "unat i < width \<Longrightarrow> \<not> has v i \<Longrightarrow> lower v i = v"
  by (rule flags_eqI) (auto simp: has_lower)

lemma raise_commute:
  "unat i < width \<Longrightarrow> unat j < width \<Longrightarrow> raise (raise v i) j = raise (raise v j) i"
  by (rule flags_eqI) (auto simp: has_raise)

lemma lower_raise_commute:
  "unat i < width \<Longrightarrow> unat j < width \<Longrightarrow> i \<noteq> j \<Longrightarrow> lower (raise v i) j = raise (lower v j) i"
  by (rule flags_eqI) (auto simp: has_raise has_lower)

end

lemma word_flags_eqI:
  fixes v w :: "'a::len word"
  assumes "LENGTH('a) \<le> 256" and "\<And>i. unat i < LENGTH('a) \<Longrightarrow> hasBit v i = hasBit w i"
  shows "v = w"
proof (rule word_eq_bitsI)
  fix n assume n: "n < LENGTH('a)"
  with assms(1) have "unat (of_nat n :: u8) = n"
    by (simp add: unat_of_nat)
  with assms(2) [of "of_nat n"] n show "bit v n = bit w n"
    by (simp add: hasBit_iff)
qed

interpretation byte_flags: bit_flags 8 "hasBit :: u8 \<Rightarrow> u8 \<Rightarrow> bool" setBit clearBit
proof unfold_locales
  fix i j v :: u8
  assume "unat i < 8"
  then show "hasBit (setBit v i) j \<longleftrightarrow> hasBit v j \<or> j = i"
    by (auto simp: bitfield word_unat_eq_iff)
next
  fix i j v :: u8
  assume "unat i < 8"
  then show "hasBit (clearBit v i) j \<longleftrightarrow> hasBit v j \<and> j \<noteq> i"
    by (auto simp: bitfield word_unat_eq_iff)
next
  fix v w :: u8
  assume "\<And>i. unat i < 8 \<Longrightarrow> hasBit v i = hasBit w i"
  then show "v = w" by (intro word_flags_eqI) auto
qed

end
