(* ===== verification/Base.thy ===== *)
theory Base
  imports Bits
begin

text \<open>
  The state of a hart, \<^verbatim>\<open>src/src/riscv/base.hpp\<close> and \<^verbatim>\<open>base.cpp\<close>: the integer register file with its
  hard-wired \<open>x0\<close>, the floating-point control and status register, the program counter and the
  counters.

  An enum class with a fixed underlying type can hold every value of that type, and the code casts
  raw bit fields to \<open>FloatRoundingMode\<close>; so that type is its underlying \<open>u8\<close>, with the enumerators
  as constants. \<open>FloatExceptionFlags\<close> is only ever written as an enumerator and is a datatype. A
  floating-point register holds the bits of a double; no modelled instruction touches it.

  The locale \<open>register_bank\<close> is the interface of the register file that the emulator relies on.
\<close>

section \<open>Types and constants\<close>

type_synonym Pointer = u64
type_synonym Register = u64
type_synonym RegisterIndex = u8
type_synonym FloatRegister = u64
type_synonym FloatRoundingMode = u8

definition registerCount :: nat where "registerCount = 32"
definition floatRegisterCount :: nat where "floatRegisterCount = 32"

text \<open>The register aliases of the software ABI, with their indices.\<close>

datatype ABIRegisterIndex = ReturnAddress | StackPointer | GlobalPointer | ThreadPointer
  | Argument0 | Argument1 | Argument2 | Argument3 | Argument4 | Argument5 | Argument6 | Argument7

primrec abiIndex :: "ABIRegisterIndex \<Rightarrow> RegisterIndex" where
  "abiIndex ReturnAddress = 1"
| "abiIndex StackPointer = 2"
| "abiIndex GlobalPointer = 3"
| "abiIndex ThreadPointer = 4"
| "abiIndex Argument0 = 10"
| "abiIndex Argument1 = 11"
| "abiIndex Argument2 = 12"
| "abiIndex Argument3 = 13"
| "abiIndex Argument4 = 14"
| "abiIndex Argument5 = 15"
| "abiIndex Argument6 = 16"
| "abiIndex Argument7 = 17"

datatype ABIFloatRegisterIndex = FloatArgument0 | FloatArgument1 | FloatArgument2 | FloatArgument3
  | FloatArgument4 | FloatArgument5 | FloatArgument6 | FloatArgument7

primrec abiFloatIndex :: "ABIFloatRegisterIndex \<Rightarrow> RegisterIndex" where
  "abiFloatIndex FloatArgument0 = 10"
| "abiFloatIndex FloatArgument1 = 11"
| "abiFloatIndex FloatArgument2 = 12"
| "abiFloatIndex FloatArgument3 = 13"
| "abiFloatIndex FloatArgument4 = 14"
| "abiFloatIndex FloatArgument5 = 15"
| "abiFloatIndex FloatArgument6 = 16"
| "abiFloatIndex FloatArgument7 = 17"

text \<open>The numbers of the control and status registers.\<close>

datatype ControlStatusRegister = CSR_FloatExceptionFlags | CSR_FloatRoundingMode
  | CSR_FloatControlStatusRegister | CSR_Cycle | CSR_Time | CSR_Instret

primrec csrNumber :: "ControlStatusRegister \<Rightarrow> u16" where
  "csrNumber CSR_FloatExceptionFlags = 0x001"
| "csrNumber CSR_FloatRoundingMode = 0x002"
| "csrNumber CSR_FloatControlStatusRegister = 0x003"
| "csrNumber CSR_Cycle = 0xC00"
| "csrNumber CSR_Time = 0xC01"
| "csrNumber CSR_Instret = 0xC02"

definition RoundToNearestEven :: FloatRoundingMode where "RoundToNearestEven = 0b000"
definition RoundToZero :: FloatRoundingMode where "RoundToZero = 0b001"
definition RoundDown :: FloatRoundingMode where "RoundDown = 0b010"
definition RoundUp :: FloatRoundingMode where "RoundUp = 0b011"
definition RoundToNearestMax :: FloatRoundingMode where "RoundToNearestMax = 0b100"
definition Dynamic :: FloatRoundingMode where "Dynamic = 0b111"

datatype FloatExceptionFlags = Inexact | Underflow | Overflow | DivideByZero | InvalidOperation

primrec flagIndex :: "FloatExceptionFlags \<Rightarrow> u8" where
  "flagIndex Inexact = 0"
| "flagIndex Underflow = 1"
| "flagIndex Overflow = 2"
| "flagIndex DivideByZero = 3"
| "flagIndex InvalidOperation = 4"

text \<open>The comparison operators of the enumeration compare the underlying values.\<close>

instantiation FloatExceptionFlags :: linorder
begin

definition less_eq_FloatExceptionFlags :: "FloatExceptionFlags \<Rightarrow> FloatExceptionFlags \<Rightarrow> bool" where
  "a \<le> b \<longleftrightarrow> flagIndex a \<le> flagIndex b"

definition less_FloatExceptionFlags :: "FloatExceptionFlags \<Rightarrow> FloatExceptionFlags \<Rightarrow> bool" where
  "a < b \<longleftrightarrow> flagIndex a < flagIndex b"

lemma flagIndex_eq_iff: "flagIndex a = flagIndex b \<longleftrightarrow> a = b"
  by (cases a; cases b) simp_all

instance
  by standard
    (auto simp: less_eq_FloatExceptionFlags_def less_FloatExceptionFlags_def flagIndex_eq_iff [symmetric])

end

lemma flagIndex_less [simp]: "unat (flagIndex f) < 5"
  by (cases f) simp_all

lemma flagIndex_less_8 [simp]: "unat (flagIndex f) < 8"
  by (rule less_trans [OF flagIndex_less]) simp

section \<open>The register file\<close>

record RegisterFile =
  registerArray :: "Register list"

definition RegisterFile_init :: RegisterFile where
  "RegisterFile_init = \<lparr>registerArray = replicate registerCount 0\<rparr>"

text \<open>\<open>getRegister\<close> is \<^verbatim>\<open>operator[]\<close>; indexing \<^verbatim>\<open>std::array\<close> out of range is undefined.\<close>

definition getRegister :: "RegisterFile \<Rightarrow> RegisterIndex \<Rightarrow> Register result" where
  "getRegister rf index =
     (if unat index < length (registerArray rf) then Inr (registerArray rf ! unat index)
      else Inl (UndefinedBehaviour ''register index out of range''))"

definition setRegister :: "RegisterFile \<Rightarrow> RegisterIndex \<Rightarrow> Register \<Rightarrow> RegisterFile result" where
  "setRegister rf index value =
     (if index = 0 then Inr rf
      else if unat index < length (registerArray rf)
      then Inr (rf\<lparr>registerArray := (registerArray rf)[unat index := value]\<rparr>)
      else Inl (UndefinedBehaviour ''register index out of range''))"

definition wf_registers :: "RegisterFile \<Rightarrow> bool" where
  "wf_registers rf \<longleftrightarrow> length (registerArray rf) = registerCount \<and> registerArray rf ! 0 = 0"

locale register_bank =
  fixes valid :: "'f \<Rightarrow> bool"
    and fetch :: "'f \<Rightarrow> RegisterIndex \<Rightarrow> Register result"
    and put :: "'f \<Rightarrow> RegisterIndex \<Rightarrow> Register \<Rightarrow> 'f result"
  assumes read_in: "valid f \<Longrightarrow> unat i < registerCount \<Longrightarrow> \<exists>v. fetch f i = Inr v"
    and write_in: "valid f \<Longrightarrow> unat i < registerCount \<Longrightarrow> \<exists>f'. put f i v = Inr f'"
    and write_valid: "valid f \<Longrightarrow> put f i v = Inr f' \<Longrightarrow> valid f'"
    and read_write: "valid f \<Longrightarrow> put f i v = Inr f' \<Longrightarrow>
      fetch f' j = (if j = i \<and> i \<noteq> 0 then Inr v else fetch f j)"
    and read_x0: "valid f \<Longrightarrow> fetch f 0 = Inr 0"
    and bank_eqI: "valid f \<Longrightarrow> valid f' \<Longrightarrow> (\<And>i. fetch f i = fetch f' i) \<Longrightarrow> f = f'"
begin

lemma write_x0: "valid f \<Longrightarrow> put f 0 v = Inr f' \<Longrightarrow> f' = f"
  by (rule bank_eqI) (auto dest: write_valid simp: read_write)

lemma write_x0_same: "valid f \<Longrightarrow> put f 0 v = Inr f"
proof -
  assume f: "valid f"
  moreover have "unat (0 :: RegisterIndex) < registerCount" by (simp add: registerCount_def)
  ultimately obtain f' where "put f 0 v = Inr f'" using write_in by blast
  with f show ?thesis using write_x0 by blast
qed

lemma read_own_write: "valid f \<Longrightarrow> put f i v = Inr f' \<Longrightarrow> i \<noteq> 0 \<Longrightarrow> fetch f' i = Inr v"
  by (simp add: read_write)

lemma read_other_write: "valid f \<Longrightarrow> put f i v = Inr f' \<Longrightarrow> j \<noteq> i \<Longrightarrow> fetch f' j = fetch f j"
  by (simp add: read_write)

lemma write_write:
  assumes "valid f" and "put f i v = Inr f1" and "put f1 i w = Inr f2"
    and "put f i w = Inr f3"
  shows "f2 = f3"
proof (rule bank_eqI)
  have f1: "valid f1" using assms(1,2) by (rule write_valid)
  show "valid f2" using f1 assms(3) by (rule write_valid)
  show "valid f3" using assms(1,4) by (rule write_valid)
  show "fetch f2 j = fetch f3 j" for j
    using read_write [OF f1 assms(3), of j] read_write [OF assms(1,2), of j]
      read_write [OF assms(1,4), of j] by auto
qed

end

interpretation registers: register_bank wf_registers getRegister setRegister
proof
  fix f f' :: RegisterFile and i j :: RegisterIndex and v :: Register
  show "wf_registers f \<Longrightarrow> unat i < registerCount \<Longrightarrow> \<exists>v. getRegister f i = Inr v"
    by (simp add: wf_registers_def getRegister_def)
  show "wf_registers f \<Longrightarrow> unat i < registerCount \<Longrightarrow> \<exists>f'. setRegister f i v = Inr f'"
    by (simp add: wf_registers_def setRegister_def)
  show "wf_registers f \<Longrightarrow> setRegister f i v = Inr f' \<Longrightarrow> wf_registers f'"
    by (auto simp: wf_registers_def setRegister_def nth_list_update unat_eq_zero split: if_splits)
  show "wf_registers f \<Longrightarrow> setRegister f i v = Inr f' \<Longrightarrow>
      getRegister f' j = (if j = i \<and> i \<noteq> 0 then Inr v else getRegister f j)"
    by (auto simp: getRegister_def setRegister_def nth_list_update word_unat_eq_iff split: if_splits)
  show "wf_registers f \<Longrightarrow> getRegister f 0 = Inr 0"
    by (simp add: wf_registers_def getRegister_def registerCount_def)
next
  fix f f' :: RegisterFile
  assume wf: "wf_registers f" "wf_registers f'" and eq: "\<And>i. getRegister f i = getRegister f' i"
  have "registerArray f = registerArray f'"
  proof (rule nth_equalityI)
    show "length (registerArray f) = length (registerArray f')"
      using wf by (simp add: wf_registers_def)
    fix n assume n: "n < length (registerArray f)"
    then have "unat (of_nat n :: RegisterIndex) = n"
      using wf by (simp add: wf_registers_def registerCount_def unat_of_nat)
    with n eq [of "of_nat n"] wf show "registerArray f ! n = registerArray f' ! n"
      by (simp add: getRegister_def wf_registers_def)
  qed
  then show "f = f'" by simp
qed

lemma wf_registers_init [simp]: "wf_registers RegisterFile_init"
  by (simp add: wf_registers_def RegisterFile_init_def registerCount_def)

section \<open>The hart\<close>

record Thread =
  registers :: RegisterFile
  floatRegisters :: "FloatRegister list"
  programCounter :: Register
  dynamicFloatRoundingMode :: FloatRoundingMode
  floatExceptionFlags :: u8
  cycleCounter :: Register

definition Thread_init :: Thread where
  "Thread_init = \<lparr>registers = RegisterFile_init, floatRegisters = replicate floatRegisterCount 0,
     programCounter = 0, dynamicFloatRoundingMode = 0, floatExceptionFlags = 0, cycleCounter = 0\<rparr>"

definition setFloatExceptionFlag :: "Thread \<Rightarrow> FloatExceptionFlags \<Rightarrow> bool \<Rightarrow> Thread" where
  "setFloatExceptionFlag t flag value =
     (if value then t\<lparr>floatExceptionFlags := setBit (floatExceptionFlags t) (flagIndex flag)\<rparr>
      else t\<lparr>floatExceptionFlags := clearBit (floatExceptionFlags t) (flagIndex flag)\<rparr>)"

definition getFloatExceptionFlag :: "Thread \<Rightarrow> FloatExceptionFlags \<Rightarrow> bool" where
  "getFloatExceptionFlag t flag = hasBit (floatExceptionFlags t) (flagIndex flag)"

definition getFloatControlStatusRegister :: "Thread \<Rightarrow> Register" where
  "getFloatControlStatusRegister t =
     bitor (push_bit 5 (ucast (dynamicFloatRoundingMode t))) (ucast (floatExceptionFlags t))"

definition setFloatControlStatusRegister :: "Thread \<Rightarrow> Register \<Rightarrow> Thread" where
  "setFloatControlStatusRegister t value =
     t\<lparr>dynamicFloatRoundingMode := ucast (bitsAt value 5 7),
       floatExceptionFlags := ucast (bitsAt value 0 4)\<rparr>"

text \<open>\<open>getTime\<close> reads the clock: \<open>now\<close> and \<open>startTime\<close> are readings in nanoseconds.\<close>

definition getTime :: "int \<Rightarrow> int \<Rightarrow> Register" where
  "getTime now startTime = word_of_int (now - startTime)"

definition getInstructionIndex :: "Thread \<Rightarrow> Pointer" where
  "getInstructionIndex t = programCounter t div 4"

definition getNextProgramCounter :: "Thread \<Rightarrow> Pointer" where
  "getNextProgramCounter t = programCounter t + 4"

section \<open>The floating-point control and status register\<close>

text \<open>
  The invariant of the two fields: the flags fit in five bits and the rounding mode in three. The
  initial hart has it and every operation of the class keeps it.
\<close>

definition wf_fcsr :: "Thread \<Rightarrow> bool" where
  "wf_fcsr t \<longleftrightarrow> take_bit 5 (floatExceptionFlags t) = floatExceptionFlags t
     \<and> take_bit 3 (dynamicFloatRoundingMode t) = dynamicFloatRoundingMode t"

lemma fcsr_bits:
  "bit (getFloatControlStatusRegister t) n \<longleftrightarrow>
     (5 \<le> n \<and> bit (dynamicFloatRoundingMode t) (n - 5)) \<or> bit (floatExceptionFlags t) n"
  by (auto simp: getFloatControlStatusRegister_def bit_or_iff bit_push_bit_iff bit_ucast_iff
      dest: bit_imp_le_length)

lemma wf_fcsr_init: "wf_fcsr Thread_init"
  by (simp add: wf_fcsr_def Thread_init_def)

lemma take_bit_eq_bitsI:
  "(\<And>n. k \<le> n \<Longrightarrow> \<not> bit w n) \<Longrightarrow> take_bit k w = w" for w :: "'a::len word"
  by (rule word_eq_bitsI) (auto simp: bit_take_bit_iff intro: ccontr)

lemma take_bit_eq_bitsD:
  "take_bit k w = w \<Longrightarrow> bit w n \<Longrightarrow> n < k" for w :: "'a::len word"
  by (metis bit_take_bit_iff)

lemma less_exp_of_take_bit:
  fixes w :: "'a::len word"
  assumes "take_bit k w = w" and "k < LENGTH('a)"
  shows "w < 2 ^ k"
proof -
  have "unat w = unat w mod 2 ^ k" using assms(1) by (metis unsigned_take_bit_eq take_bit_eq_mod)
  then have "unat w < 2 ^ k" by (metis mod_less_divisor zero_less_numeral zero_less_power)
  moreover have "unat ((2 :: 'a word) ^ k) = 2 ^ k"
    using assms(2) of_nat_inverse [of "2 ^ k", where 'a = 'a] by simp
  ultimately show ?thesis by (simp add: word_less_nat_alt)
qed

lemma wf_fcsr_iff:
  "wf_fcsr t \<longleftrightarrow> (\<forall>n. bit (floatExceptionFlags t) n \<longrightarrow> n < 5)
     \<and> (\<forall>n. bit (dynamicFloatRoundingMode t) n \<longrightarrow> n < 3)"
  unfolding wf_fcsr_def
  by (metis take_bit_eq_bitsD take_bit_eq_bitsI linorder_not_less)

lemma wf_fcsr_setFloatExceptionFlag: "wf_fcsr t \<Longrightarrow> wf_fcsr (setFloatExceptionFlag t f b)"
  by (auto simp: wf_fcsr_iff setFloatExceptionFlag_def bitfield)

lemma wf_fcsr_setFloatControlStatusRegister: "wf_fcsr (setFloatControlStatusRegister t v)"
  by (auto simp: wf_fcsr_iff setFloatControlStatusRegister_def bit_ucast_iff bitfield)

end
