(* ===== verification/Instruction.thy ===== *)
theory Instruction
  imports Base
begin

text \<open>
  The decoded instruction, \<^verbatim>\<open>src/src/riscv/instruction.hpp\<close>. The anonymous union of the struct is
  the datatype \<open>operand\<close>, whose constructor is the active member: reading a member that is not
  active is undefined behaviour, and so is using a third source register that was never written
  (\<open>None\<close>).
\<close>

section \<open>Instruction types\<close>

text \<open>
  \<^verbatim>\<open>Instruction::Type\<close>: one datatype for every group that the comments of the source name, with
  the enumerators of the group in source order, and the type itself as their sum.
\<close>

text \<open>RV32I Base Instruction Set\<close>

datatype RV32IType =
  LUI | AUIPC | JAL | JALR | BEQ | BNE | BLT | BGE | BLTU | BGEU | LB | LH | LW | LBU | LHU
  | SB | SH | SW | ADDI | SLTI | SLTIU | XORI | ORI | ANDI | SLLI | SRLI | SRAI | ADD | SUB
  | SLL | SLT | SLTU | XOR | SRL | SRA | OR | AND | FENCE | FENCETSO | PAUSE | ECALL
  | EBREAK

text \<open>RV64I Base Instruction Set\<close>

datatype RV64IType =
  LWU | LD | SD | ADDIW | SLLIW | SRLIW | SRAIW | ADDW | SUBW | SLLW | SRLW | SRAW

text \<open>Zifencei Standard Extension\<close>

datatype ZifenceiType =
  FENCEI

text \<open>Zicsr Standard Extension\<close>

datatype ZicsrType =
  CSRRW | CSRRS | CSRRC | CSRRWI | CSRRSI | CSRRCI

text \<open>RV32M Standard Extension\<close>

datatype RV32MType =
  MUL | MULH | MULHSU | MULHU | DIV | DIVU | REM | REMU

text \<open>RV64M Standard Extension\<close>

datatype RV64MType =
  MULW | DIVW | DIVUW | REMW | REMUW

text \<open>RV32A Standard Extension\<close>

datatype RV32AType =
  LRW | SCW | AMOSWAPW | AMOADDW | AMOXORW | AMOANDW | AMOORW | AMOMINW | AMOMAXW
  | AMOMINUW | AMOMAXUW

text \<open>RV64A Standard Extension\<close>

datatype RV64AType =
  LRD | SCD | AMOSWAPD | AMOADDD | AMOXORD | AMOANDD | AMOORD | AMOMIND | AMOMAXD
  | AMOMINUD | AMOMAXUD

text \<open>RV32F Standard Extension\<close>

datatype RV32FType =
  FLW | FSW | FMADDS | FMSUBS | FNMADDS | FNMSUBS | FADDS | FSUBS | FMULS | FDIVS | FSQRTS
  | FSGNJS | FSGNJNS | FSGNJXS | FMINS | FMAXS | FEQS | FLTS | FLES | FCLASSS | FCVTWS
  | FCVTSW | FCVTWUS | FCVTSWU | FMVXW | FMVWX

text \<open>RV64F Standard Extension\<close>

datatype RV64FType =
  FCVTLS | FCVTSL | FCVTLUS | FCVTSLU

text \<open>RV32D Standard Extension\<close>

datatype RV32DType =
  FLD | FSD | FMADDD | FMSUBD | FNMADDD | FNMSUBD | FADDD | FSUBD | FMULD | FDIVD | FSQRTD
  | FSGNJD | FSGNJND | FSGNJXD | FMIND | FMAXD | FEQD | FLTD | FLED | FCLASSD | FCVTSD
  | FCVTDS | FCVTWD | FCVTDW | FCVTWUD | FCVTDWU

text \<open>RV64D Standard Extension\<close>

datatype RV64DType =
  FCVTLD | FCVTDL | FCVTLUD | FCVTDLU | FMVXD | FMVDX

datatype InstructionType =
    RV32I RV32IType
  | RV64I RV64IType
  | Zifencei ZifenceiType
  | Zicsr ZicsrType
  | RV32M RV32MType
  | RV64M RV64MType
  | RV32A RV32AType
  | RV64A RV64AType
  | RV32F RV32FType
  | RV64F RV64FType
  | RV32D RV32DType
  | RV64D RV64DType

section \<open>Instructions\<close>

text \<open>
  \<open>FloatOp rm r3\<close> is \<^verbatim>\<open>FloatOperationParams\<close>: the rounding mode and the third source register, the
  latter indeterminate until the code assigns it.
\<close>

datatype operand =
    Immediate i32
  | FloatOp FloatRoundingMode "RegisterIndex option"

record Instruction =
  operand :: operand
  destinationRegister :: RegisterIndex
  sourceRegister1 :: RegisterIndex
  sourceRegister2 :: RegisterIndex
  itype :: InstructionType

text \<open>The default member initialisers; \<^verbatim>\<open>(Type) 0\<close> is the first enumerator.\<close>

definition Instruction_init :: Instruction where
  "Instruction_init = \<lparr>operand = Immediate 0, destinationRegister = 0, sourceRegister1 = 0,
     sourceRegister2 = 0, itype = RV32I LUI\<rparr>"

text \<open>Reading and writing the members of the union.\<close>

definition immediate :: "Instruction \<Rightarrow> i32 result" where
  "immediate instr = (case operand instr of Immediate v \<Rightarrow> Inr v
     | FloatOp _ _ \<Rightarrow> Inl (UndefinedBehaviour ''inactive union member''))"

definition setImmediate :: "Instruction \<Rightarrow> i32 \<Rightarrow> Instruction" where
  "setImmediate instr v = instr\<lparr>operand := Immediate v\<rparr>"

definition setRoundingMode :: "Instruction \<Rightarrow> FloatRoundingMode \<Rightarrow> Instruction" where
  "setRoundingMode instr rm = instr\<lparr>operand := FloatOp rm
     (case operand instr of Immediate _ \<Rightarrow> None | FloatOp _ r3 \<Rightarrow> r3)\<rparr>"

definition setSourceRegister3 :: "Instruction \<Rightarrow> RegisterIndex \<Rightarrow> Instruction" where
  "setSourceRegister3 instr r3 = instr\<lparr>operand := FloatOp
     (case operand instr of Immediate _ \<Rightarrow> 0 | FloatOp rm _ \<Rightarrow> rm) (Some r3)\<rparr>"

lemma immediate_simps [simp]:
  "immediate (setImmediate i v) = Inr v"
  "immediate (i\<lparr>destinationRegister := r\<rparr>) = immediate i"
  "immediate (i\<lparr>sourceRegister1 := r\<rparr>) = immediate i"
  "immediate (i\<lparr>sourceRegister2 := r\<rparr>) = immediate i"
  "immediate (i\<lparr>itype := t\<rparr>) = immediate i"
  "immediate (i\<lparr>operand := Immediate w\<rparr>) = Inr w"
  by (simp_all add: immediate_def setImmediate_def)

section \<open>Well-formed instructions\<close>

text \<open>
  The register indices a decoded instruction may hold: five bits each, so every one is inside the
  register file of the hart.
\<close>

definition wf_instruction :: "Instruction \<Rightarrow> bool" where
  "wf_instruction instr \<longleftrightarrow>
     unat (destinationRegister instr) < registerCount \<and>
     unat (sourceRegister1 instr) < registerCount \<and>
     unat (sourceRegister2 instr) < registerCount \<and>
     (case operand instr of FloatOp _ (Some r3) \<Rightarrow> unat r3 < floatRegisterCount | _ \<Rightarrow> True)"

lemma wf_instruction_init [simp]: "wf_instruction Instruction_init"
  by (simp add: wf_instruction_def Instruction_init_def registerCount_def)

lemma wf_instruction_itype [simp]: "wf_instruction (i\<lparr>itype := t\<rparr>) = wf_instruction i"
  by (simp add: wf_instruction_def)

lemma wf_instruction_setImmediate [simp]:
  "wf_instruction i \<Longrightarrow> wf_instruction (setImmediate i v)"
  by (simp add: wf_instruction_def setImmediate_def)

lemma wf_instruction_setRoundingMode [simp]:
  "wf_instruction i \<Longrightarrow> wf_instruction (setRoundingMode i rm)"
  by (auto simp: wf_instruction_def setRoundingMode_def split: operand.splits option.splits)

end
