(* ===== verification/Memory.thy ===== *)
theory Memory
  imports Prelude
begin

text \<open>
  The unaligned little-endian accesses of \<^verbatim>\<open>src/src/riscv/utils/memory.hpp\<close>. A pointer is an
  array of bytes with an offset into it. The code has two branches, chosen at compile time by
  \<^verbatim>\<open>std::endian::native\<close>: \<^verbatim>\<open>memcpy\<close> of the object on a little-endian host, explicit shifts
  otherwise. The flag \<open>nativeLittle\<close> is that choice, and the equivalence of the branches is proved.
  An access outside the array is undefined behaviour.

  The locale \<open>byte_codec\<close> is the interface that the loader and the decoder rely on.
\<close>

section \<open>Byte arrays and object representations\<close>

definition readBytes :: "u8 list \<Rightarrow> nat \<Rightarrow> nat \<Rightarrow> u8 list result" where
  "readBytes mem p n =
     (if p + n \<le> length mem then Inr (slice_of p n mem)
      else Inl (UndefinedBehaviour ''out-of-bounds read''))"

definition writeBytes :: "u8 list \<Rightarrow> nat \<Rightarrow> u8 list \<Rightarrow> u8 list result" where
  "writeBytes mem p bs =
     (if p + length bs \<le> length mem then Inr (overwrite p bs mem)
      else Inl (UndefinedBehaviour ''out-of-bounds write''))"

text \<open>The bytes of an unsigned object on a little-endian host, lowest address first.\<close>

fun objectOfBytes :: "u8 list \<Rightarrow> 'a::len word" where
  "objectOfBytes [] = 0"
| "objectOfBytes (b # bs) = bitor (ucast b) (push_bit 8 (objectOfBytes bs))"

fun bytesOfObject :: "nat \<Rightarrow> 'a::len word \<Rightarrow> u8 list" where
  "bytesOfObject 0 w = []"
| "bytesOfObject (Suc n) w = ucast w # bytesOfObject n (drop_bit 8 w)"

section \<open>Loads and stores\<close>

definition loadU16 :: "bool \<Rightarrow> u8 list \<Rightarrow> nat \<Rightarrow> u16 result" where
  "loadU16 nativeLittle mem p = bind_result (readBytes mem p 2) (\<lambda>ptr.
     Inr (if nativeLittle then objectOfBytes ptr
          else bitor (ucast (ptr ! 0)) (push_bit 8 (ucast (ptr ! 1)))))"

definition loadU32 :: "bool \<Rightarrow> u8 list \<Rightarrow> nat \<Rightarrow> u32 result" where
  "loadU32 nativeLittle mem p = bind_result (readBytes mem p 4) (\<lambda>ptr.
     Inr (if nativeLittle then objectOfBytes ptr
          else bitor (bitor (bitor (ucast (ptr ! 0)) (push_bit 8 (ucast (ptr ! 1))))
                 (push_bit 16 (ucast (ptr ! 2)))) (push_bit 24 (ucast (ptr ! 3)))))"

definition loadU64 :: "bool \<Rightarrow> u8 list \<Rightarrow> nat \<Rightarrow> u64 result" where
  "loadU64 nativeLittle mem p = bind_result (readBytes mem p 8) (\<lambda>ptr.
     Inr (if nativeLittle then objectOfBytes ptr
          else bitor (bitor (bitor (bitor (bitor (bitor (bitor
                 (ucast (ptr ! 0)) (push_bit 8 (ucast (ptr ! 1))))
                 (push_bit 16 (ucast (ptr ! 2)))) (push_bit 24 (ucast (ptr ! 3))))
                 (push_bit 32 (ucast (ptr ! 4)))) (push_bit 40 (ucast (ptr ! 5))))
                 (push_bit 48 (ucast (ptr ! 6)))) (push_bit 56 (ucast (ptr ! 7)))))"

definition storeU16 :: "bool \<Rightarrow> u8 list \<Rightarrow> nat \<Rightarrow> u16 \<Rightarrow> u8 list result" where
  "storeU16 nativeLittle mem p value = writeBytes mem p
     (if nativeLittle then bytesOfObject 2 value
      else [ucast value, ucast (drop_bit 8 value)])"

definition storeU32 :: "bool \<Rightarrow> u8 list \<Rightarrow> nat \<Rightarrow> u32 \<Rightarrow> u8 list result" where
  "storeU32 nativeLittle mem p value = writeBytes mem p
     (if nativeLittle then bytesOfObject 4 value
      else [ucast value, ucast (drop_bit 8 value), ucast (drop_bit 16 value),
            ucast (drop_bit 24 value)])"

definition storeU64 :: "bool \<Rightarrow> u8 list \<Rightarrow> nat \<Rightarrow> u64 \<Rightarrow> u8 list result" where
  "storeU64 nativeLittle mem p value = writeBytes mem p
     (if nativeLittle then bytesOfObject 8 value
      else [ucast value, ucast (drop_bit 8 value), ucast (drop_bit 16 value),
            ucast (drop_bit 24 value), ucast (drop_bit 32 value), ucast (drop_bit 40 value),
            ucast (drop_bit 48 value), ucast (drop_bit 56 value)])"

section \<open>Object representations round trip\<close>

lemma length_bytesOfObject [simp]: "length (bytesOfObject n w) = n"
  by (induction n w rule: bytesOfObject.induct) simp_all

lemma objectOfBytes_bytesOfObject:
  "objectOfBytes (bytesOfObject n w) = take_bit (8 * n) w" for w :: "'a::len word"
proof (induction n w rule: bytesOfObject.induct)
  case (1 w)
  then show ?case by simp
next
  case (2 n w)
  show ?case
    by (rule word_eq_bitsI)
      (auto simp: "2.IH" bit_or_iff bit_push_bit_iff bit_take_bit_iff bit_drop_bit_eq bit_ucast_iff)
qed

lemma objectOfBytes_high:
  "8 * length bs \<le> n \<Longrightarrow> \<not> bit (objectOfBytes bs :: 'a::len word) n"
proof (induction bs arbitrary: n)
  case Nil
  then show ?case by simp
next
  case (Cons b bs)
  then show ?case
    by (auto simp: bit_or_iff bit_push_bit_iff bit_ucast_iff dest: bit_imp_le_length)
qed

lemma bytesOfObject_objectOfBytes:
  "8 * length bs \<le> LENGTH('a) \<Longrightarrow> bytesOfObject (length bs) (objectOfBytes bs :: 'a::len word) = bs"
proof (induction bs)
  case Nil
  then show ?case by simp
next
  case (Cons b bs)
  let ?w = "objectOfBytes bs :: 'a word"
  have "(ucast (bitor (ucast b) (push_bit 8 ?w)) :: u8) = b"
    by (rule word_eq_bitsI) (use Cons.prems in \<open>auto simp: bit_or_iff bit_push_bit_iff bit_ucast_iff\<close>)
  moreover have "drop_bit 8 (bitor (ucast b) (push_bit 8 ?w)) = ?w"
    by (rule word_eq_bitsI)
      (use Cons.prems objectOfBytes_high [of bs, where 'a = 'a] in
        \<open>auto simp: bit_or_iff bit_push_bit_iff bit_ucast_iff bit_drop_bit_eq dest: bit_imp_le_length\<close>)
  ultimately show ?case using Cons by simp
qed

section \<open>The two branches agree\<close>

lemma length_2_conv: "length xs = 2 \<longleftrightarrow> (\<exists>a b. xs = [a, b])"
  by (auto simp: numeral_eq_Suc length_Suc_conv)

lemma length_4_conv: "length xs = 4 \<longleftrightarrow> (\<exists>a b c d. xs = [a, b, c, d])"
  by (auto simp: numeral_eq_Suc length_Suc_conv)

lemma length_8_conv: "length xs = 8 \<longleftrightarrow> (\<exists>a b c d e f g h. xs = [a, b, c, d, e, f, g, h])"
  by (auto simp: numeral_eq_Suc length_Suc_conv)

lemmas or_shift_simps =
  push_bit_or or.assoc push_bit_push_bit drop_bit_drop_bit

lemma loadU16_branches: "loadU16 False mem p = loadU16 True mem p"
proof -
  have "bitor (ucast (xs ! 0)) (push_bit 8 (ucast (xs ! 1))) = (objectOfBytes xs :: u16)"
    if "length xs = 2" for xs :: "u8 list"
    using that by (auto simp: length_2_conv or_shift_simps)
  then show ?thesis
    by (auto simp: loadU16_def readBytes_def)
qed

lemma loadU32_branches: "loadU32 False mem p = loadU32 True mem p"
proof -
  have "bitor (bitor (bitor (ucast (xs ! 0)) (push_bit 8 (ucast (xs ! 1))))
      (push_bit 16 (ucast (xs ! 2)))) (push_bit 24 (ucast (xs ! 3))) = (objectOfBytes xs :: u32)"
    if "length xs = 4" for xs :: "u8 list"
    using that by (auto simp: length_4_conv or_shift_simps)
  then show ?thesis
    by (auto simp: loadU32_def readBytes_def)
qed

lemma loadU64_branches: "loadU64 False mem p = loadU64 True mem p"
proof -
  have "bitor (bitor (bitor (bitor (bitor (bitor (bitor
      (ucast (xs ! 0)) (push_bit 8 (ucast (xs ! 1))))
      (push_bit 16 (ucast (xs ! 2)))) (push_bit 24 (ucast (xs ! 3))))
      (push_bit 32 (ucast (xs ! 4)))) (push_bit 40 (ucast (xs ! 5))))
      (push_bit 48 (ucast (xs ! 6)))) (push_bit 56 (ucast (xs ! 7))) = (objectOfBytes xs :: u64)"
    if "length xs = 8" for xs :: "u8 list"
    using that by (auto simp: length_8_conv or_shift_simps)
  then show ?thesis
    by (auto simp: loadU64_def readBytes_def)
qed

lemma store_branches:
  "storeU16 False mem p v16 = storeU16 True mem p v16"
  "storeU32 False mem p v32 = storeU32 True mem p v32"
  "storeU64 False mem p v64 = storeU64 True mem p v64"
  by (simp_all add: storeU16_def storeU32_def storeU64_def numeral_eq_Suc)

section \<open>The interface of an integer access\<close>

text \<open>
  What the clients of a load/store pair of a fixed size rely on: both are defined exactly inside
  the array, a load depends on its own bytes only, a store changes its own bytes only and keeps
  the length, and the two are inverse to each other.
\<close>

locale byte_codec =
  fixes size :: nat
    and load :: "u8 list \<Rightarrow> nat \<Rightarrow> 'v result"
    and store :: "u8 list \<Rightarrow> nat \<Rightarrow> 'v \<Rightarrow> u8 list result"
  assumes load_in: "p + size \<le> length m \<Longrightarrow> \<exists>v. load m p = Inr v"
    and load_out: "\<not> p + size \<le> length m \<Longrightarrow> load m p = Inl (UndefinedBehaviour ''out-of-bounds read'')"
    and load_local: "slice_of p size m = slice_of q size m' \<Longrightarrow> p + size \<le> length m \<Longrightarrow>
      q + size \<le> length m' \<Longrightarrow> load m p = load m' q"
    and store_in: "p + size \<le> length m \<Longrightarrow> \<exists>m'. store m p v = Inr m'"
    and store_out: "\<not> p + size \<le> length m \<Longrightarrow> store m p v = Inl (UndefinedBehaviour ''out-of-bounds write'')"
    and store_length: "store m p v = Inr m' \<Longrightarrow> length m' = length m"
    and store_frame: "store m p v = Inr m' \<Longrightarrow> i < length m \<Longrightarrow> \<not> (p \<le> i \<and> i < p + size) \<Longrightarrow>
      m' ! i = m ! i"
    and load_store: "store m p v = Inr m' \<Longrightarrow> load m' p = Inr v"
    and store_load: "load m p = Inr v \<Longrightarrow> store m p v = Inr m"
    and store_local: "store m p v = Inr m' \<Longrightarrow> store n q v = Inr n' \<Longrightarrow>
      slice_of p size m' = slice_of q size n'"
begin

lemma load_Inr_iff: "(\<exists>v. load m p = Inr v) \<longleftrightarrow> p + size \<le> length m"
  using load_in load_out by fastforce

lemma store_Inr_iff: "(\<exists>m'. store m p v = Inr m') \<longleftrightarrow> p + size \<le> length m"
  using store_in store_out by fastforce

lemma store_InrD: "store m p v = Inr m' \<Longrightarrow> p + size \<le> length m"
  using store_Inr_iff by blast

lemma store_InlD: "store m p v = Inl e \<Longrightarrow> e = UndefinedBehaviour ''out-of-bounds write''"
  using store_in [of p m v] store_out [of p m v] by (cases "p + size \<le> length m") auto

lemma load_InrD: "load m p = Inr v \<Longrightarrow> p + size \<le> length m"
  using load_Inr_iff by blast

lemma load_store_disjoint:
  assumes st: "store m p v = Inr m'" and disj: "q + size \<le> p \<or> p + size \<le> q"
  shows "load m' q = load m q"
proof (cases "q + size \<le> length m")
  case True
  have len: "length m' = length m" using st by (rule store_length)
  have "slice_of q size m' = slice_of q size m"
    using True len disj
    by (intro nth_equalityI) (auto simp: nth_slice_of intro!: store_frame [OF st])
  then show ?thesis using True len by (intro load_local) simp_all
next
  case False
  with store_length [OF st] load_out show ?thesis by simp
qed

lemma store_store:
  assumes "store m p v = Inr m1"
  shows "store m1 p w = store m p w"
proof -
  have p: "p + size \<le> length m" using assms by (rule store_InrD)
  have len1: "length m1 = length m" using assms by (rule store_length)
  obtain m2 where m2: "store m1 p w = Inr m2" using store_in p len1 by metis
  obtain m3 where m3: "store m p w = Inr m3" using store_in p by metis
  have len: "length m2 = length m" "length m3 = length m"
    using store_length [OF m2] store_length [OF m3] len1 by simp_all
  have "m2 ! i = m3 ! i" if i: "i < length m" for i
  proof (cases "p \<le> i \<and> i < p + size")
    case True
    then show ?thesis using slice_of_eq_nth [OF store_local [OF m2 m3]] p len by simp
  next
    case False
    then show ?thesis
      using store_frame [OF m2, of i] store_frame [OF m3, of i] store_frame [OF assms, of i] i len1
      by simp
  qed
  then have "m2 = m3" using len by (intro nth_equalityI) simp_all
  then show ?thesis using m2 m3 by simp
qed

lemma store_commute:
  assumes "store m p v = Inr m1" and "store m1 q w = Inr m2"
    and disj: "q + size \<le> p \<or> p + size \<le> q"
  shows "\<exists>m1'. store m q w = Inr m1' \<and> store m1' p v = Inr m2"
proof -
  have len1: "length m1 = length m" and len2: "length m2 = length m"
    using store_length assms(1,2) by metis+
  have p: "p + size \<le> length m" and q: "q + size \<le> length m"
    using store_InrD assms(1,2) len1 by metis+
  obtain m1' where m1': "store m q w = Inr m1'" using store_in q by metis
  have len1': "length m1' = length m" using m1' by (rule store_length)
  obtain m2' where m2': "store m1' p v = Inr m2'" using store_in p len1' by metis
  have len2': "length m2' = length m" using store_length [OF m2'] len1' by simp
  have in_p: "slice_of p size m2' = slice_of p size m1"
    using m2' assms(1) by (rule store_local)
  have in_q: "slice_of q size m2 = slice_of q size m1'"
    using assms(2) m1' by (rule store_local)
  have "m2 ! i = m2' ! i" if i: "i < length m" for i
  proof -
    have frames: "\<not> (q \<le> i \<and> i < q + size) \<Longrightarrow> m2 ! i = m1 ! i"
      "\<not> (p \<le> i \<and> i < p + size) \<Longrightarrow> m2' ! i = m1' ! i"
      "\<not> (q \<le> i \<and> i < q + size) \<Longrightarrow> m1' ! i = m ! i"
      "\<not> (p \<le> i \<and> i < p + size) \<Longrightarrow> m1 ! i = m ! i"
      using store_frame assms(1,2) m1' m2' i len1 len1' by metis+
    have p_part: "p \<le> i \<and> i < p + size \<Longrightarrow> m2' ! i = m1 ! i"
      using slice_of_eq_nth [OF in_p] p len1 len2' by simp
    have q_part: "q \<le> i \<and> i < q + size \<Longrightarrow> m2 ! i = m1' ! i"
      using slice_of_eq_nth [OF in_q] q len2 len1' by simp
    show ?thesis using frames p_part q_part disj by (metis le_antisym less_le_not_le order_le_less_trans)
  qed
  then have "m2' = m2" using len2 len2' by (intro nth_equalityI) simp_all
  then show ?thesis using m1' m2' by blast
qed

end

lemma object_codec:
  assumes n: "LENGTH('a::len) = 8 * n"
  shows "byte_codec n
    (\<lambda>m p. bind_result (readBytes m p n) (\<lambda>bs. Inr (objectOfBytes bs :: 'a word)))
    (\<lambda>m p v. writeBytes m p (bytesOfObject n (v :: 'a word)))"
proof
  fix m p q m' and v :: "'a word" and i and k :: "u8 list" and l
  show "p + n \<le> length m \<Longrightarrow>
      \<exists>v. bind_result (readBytes m p n) (\<lambda>bs. Inr (objectOfBytes bs :: 'a word)) = Inr v"
    by (simp add: readBytes_def)
  show "\<not> p + n \<le> length m \<Longrightarrow>
      bind_result (readBytes m p n) (\<lambda>bs. Inr (objectOfBytes bs :: 'a word)) =
      Inl (UndefinedBehaviour ''out-of-bounds read'')"
    by (simp add: readBytes_def)
  show "slice_of p n m = slice_of q n m' \<Longrightarrow> p + n \<le> length m \<Longrightarrow> q + n \<le> length m' \<Longrightarrow>
      bind_result (readBytes m p n) (\<lambda>bs. Inr (objectOfBytes bs :: 'a word)) =
      bind_result (readBytes m' q n) (\<lambda>bs. Inr (objectOfBytes bs))"
    by (simp add: readBytes_def)
  show "p + n \<le> length m \<Longrightarrow> \<exists>m'. writeBytes m p (bytesOfObject n v) = Inr m'"
    by (simp add: writeBytes_def)
  show "\<not> p + n \<le> length m \<Longrightarrow>
      writeBytes m p (bytesOfObject n v) = Inl (UndefinedBehaviour ''out-of-bounds write'')"
    by (simp add: writeBytes_def)
  show "writeBytes m p (bytesOfObject n v) = Inr m' \<Longrightarrow> length m' = length m"
    by (auto simp: writeBytes_def split: if_splits)
  show "writeBytes m p (bytesOfObject n v) = Inr m' \<Longrightarrow> i < length m \<Longrightarrow>
      \<not> (p \<le> i \<and> i < p + n) \<Longrightarrow> m' ! i = m ! i"
    by (auto simp: writeBytes_def nth_overwrite split: if_splits)
  show "writeBytes m p (bytesOfObject n v) = Inr m' \<Longrightarrow>
      bind_result (readBytes m' p n) (\<lambda>bs. Inr (objectOfBytes bs)) = Inr v"
    using slice_of_overwrite_same [of p "bytesOfObject n v" m]
    by (auto simp: writeBytes_def readBytes_def objectOfBytes_bytesOfObject
        simp flip: n split: if_splits)
  show "bind_result (readBytes m p n) (\<lambda>bs. Inr (objectOfBytes bs)) = Inr v \<Longrightarrow>
      writeBytes m p (bytesOfObject n v) = Inr m"
    using bytesOfObject_objectOfBytes [of "slice_of p n m", where 'a = 'a] n
    by (auto simp: writeBytes_def readBytes_def overwrite_slice_of split: if_splits)
  show "writeBytes m p (bytesOfObject n v) = Inr m' \<Longrightarrow>
      writeBytes k q (bytesOfObject n v) = Inr l \<Longrightarrow> slice_of p n m' = slice_of q n l"
    using slice_of_overwrite_same [of p "bytesOfObject n v" m]
      slice_of_overwrite_same [of q "bytesOfObject n v" k]
    by (auto simp: writeBytes_def split: if_splits)
qed

lemma codec_forms:
  "loadU16 nl = (\<lambda>m p. bind_result (readBytes m p 2) (\<lambda>bs. Inr (objectOfBytes bs)))"
  "loadU32 nl = (\<lambda>m p. bind_result (readBytes m p 4) (\<lambda>bs. Inr (objectOfBytes bs)))"
  "loadU64 nl = (\<lambda>m p. bind_result (readBytes m p 8) (\<lambda>bs. Inr (objectOfBytes bs)))"
  "storeU16 nl = (\<lambda>m p v. writeBytes m p (bytesOfObject 2 v))"
  "storeU32 nl = (\<lambda>m p v. writeBytes m p (bytesOfObject 4 v))"
  "storeU64 nl = (\<lambda>m p v. writeBytes m p (bytesOfObject 8 v))"
  by (cases nl; intro ext;
      simp add: loadU16_branches loadU32_branches loadU64_branches store_branches;
      simp add: loadU16_def loadU32_def loadU64_def storeU16_def storeU32_def storeU64_def)+

interpretation u16: byte_codec 2 "loadU16 nl" "storeU16 nl" for nl
  unfolding codec_forms by (rule object_codec) simp

interpretation u32: byte_codec 4 "loadU32 nl" "storeU32 nl" for nl
  unfolding codec_forms by (rule object_codec) simp

interpretation u64: byte_codec 8 "loadU64 nl" "storeU64 nl" for nl
  unfolding codec_forms by (rule object_codec) simp

end
