(* ===== verification/Decoder.thy ===== *)
theory Decoder
  imports Instruction Memory
begin

text \<open>
  The instruction decoder, \<^verbatim>\<open>src/src/riscv/instruction.cpp\<close>: the field and immediate extractors, one
  function per major opcode, the dispatch on the opcode and the loop over the bytes of a program.

  A function that fills the fields of an instruction through a reference returns the instruction
  (and the fields \<open>funct3\<close>, \<open>funct7\<close> it reads); a function that throws returns a result. The cases
  of every \<^verbatim>\<open>switch\<close> are in source order.
\<close>

section \<open>Opcodes\<close>

datatype Opcode =
    Opcode_Load | Opcode_LoadFP | Opcode_MiscMem | Opcode_OpImm | Opcode_AUIPC | Opcode_OpImm32
  | Opcode_Store | Opcode_StoreFP | Opcode_AMO | Opcode_Op | Opcode_LUI | Opcode_Op32
  | Opcode_MAdd | Opcode_MSub | Opcode_NMSub | Opcode_NMAdd | Opcode_OpFP | Opcode_OpV
  | Opcode_Branch | Opcode_JALR | Opcode_JAL | Opcode_System | Opcode_OpVE

primrec opcodeValue :: "Opcode \<Rightarrow> u8" where
  "opcodeValue Opcode_Load = 0b0000011"
| "opcodeValue Opcode_LoadFP = 0b0000111"
| "opcodeValue Opcode_MiscMem = 0b0001111"
| "opcodeValue Opcode_OpImm = 0b0010011"
| "opcodeValue Opcode_AUIPC = 0b0010111"
| "opcodeValue Opcode_OpImm32 = 0b0011011"
| "opcodeValue Opcode_Store = 0b0100011"
| "opcodeValue Opcode_StoreFP = 0b0100111"
| "opcodeValue Opcode_AMO = 0b0101111"
| "opcodeValue Opcode_Op = 0b0110011"
| "opcodeValue Opcode_LUI = 0b0110111"
| "opcodeValue Opcode_Op32 = 0b0111011"
| "opcodeValue Opcode_MAdd = 0b1000011"
| "opcodeValue Opcode_MSub = 0b1000111"
| "opcodeValue Opcode_NMSub = 0b1001011"
| "opcodeValue Opcode_NMAdd = 0b1001111"
| "opcodeValue Opcode_OpFP = 0b1010011"
| "opcodeValue Opcode_OpV = 0b1010111"
| "opcodeValue Opcode_Branch = 0b1100011"
| "opcodeValue Opcode_JALR = 0b1100111"
| "opcodeValue Opcode_JAL = 0b1101111"
| "opcodeValue Opcode_System = 0b1110011"
| "opcodeValue Opcode_OpVE = 0b1110111"

text \<open>
  An \<open>Opcode\<close> object holds any byte; the value of the enum is that byte, and a \<^verbatim>\<open>switch\<close> on it
  compares with the values of the enumerators.
\<close>

section \<open>Fields\<close>

definition isEncodingCompressed :: "u8 list \<Rightarrow> nat \<Rightarrow> bool result" where
  "isEncodingCompressed mem p = bind_result (readBytes mem p 1) (\<lambda>instructionBytes.
     let lowestByte = instructionBytes ! 0 in Inr (bitand lowestByte 0b11 \<noteq> 0b11))"

definition getOpcode :: "u32 \<Rightarrow> u8" where
  "getOpcode encoded = ucast (bitsAt encoded 0 6)"

definition getFunct3 :: "u32 \<Rightarrow> u8" where
  "getFunct3 encoded = ucast (bitsAt encoded 12 14)"

definition getFunct7 :: "u32 \<Rightarrow> u8" where
  "getFunct7 encoded = ucast (bitsAt encoded 25 31)"

definition getDestinationRegister :: "u32 \<Rightarrow> RegisterIndex" where
  "getDestinationRegister encoded = ucast (bitsAt encoded 7 11)"

definition getSourceRegister1 :: "u32 \<Rightarrow> RegisterIndex" where
  "getSourceRegister1 encoded = ucast (bitsAt encoded 15 19)"

definition getSourceRegister2 :: "u32 \<Rightarrow> RegisterIndex" where
  "getSourceRegister2 encoded = ucast (bitsAt encoded 20 24)"

definition getImmediateI :: "u32 \<Rightarrow> i32" where
  "getImmediateI encoded = signExtend (bitsAt encoded 20 31) 11"

definition getImmediateS :: "u32 \<Rightarrow> i32" where
  "getImmediateS encoded =
     signExtend (bitor (bitsAt encoded 7 11) (push_bit 5 (bitsAt encoded 25 31))) 11"

definition getImmediateB :: "u32 \<Rightarrow> i32" where
  "getImmediateB encoded = signExtend
     (bitor (bitor (bitor (push_bit 1 (bitsAt encoded 8 11)) (push_bit 5 (bitsAt encoded 25 30)))
        (push_bit 11 (bitsAt encoded 7 7))) (push_bit 12 (bitsAt encoded 31 31)))
     12"

definition getImmediateU :: "u32 \<Rightarrow> i32" where
  "getImmediateU encoded = push_bit 12 (bitsAt encoded 12 31)"

definition getImmediateJ :: "u32 \<Rightarrow> i32" where
  "getImmediateJ encoded = signExtend
     (bitor (bitor (bitor (push_bit 1 (bitsAt encoded 21 30)) (push_bit 11 (bitsAt encoded 20 20)))
        (push_bit 12 (bitsAt encoded 12 19))) (push_bit 20 (bitsAt encoded 31 31)))
     20"

section \<open>Instruction formats\<close>

definition readFieldsR :: "u32 \<Rightarrow> Instruction \<Rightarrow> Instruction \<times> u8 \<times> u8" where
  "readFieldsR encoded instr =
     (instr\<lparr>sourceRegister1 := getSourceRegister1 encoded,
            sourceRegister2 := getSourceRegister2 encoded,
            destinationRegister := getDestinationRegister encoded\<rparr>,
      getFunct3 encoded, getFunct7 encoded)"

definition readFieldsI :: "u32 \<Rightarrow> Instruction \<Rightarrow> Instruction \<times> u8" where
  "readFieldsI encoded instr =
     (setImmediate (instr\<lparr>sourceRegister1 := getSourceRegister1 encoded,
            destinationRegister := getDestinationRegister encoded\<rparr>) (getImmediateI encoded),
      getFunct3 encoded)"

definition readFieldsS :: "u32 \<Rightarrow> Instruction \<Rightarrow> Instruction \<times> u8" where
  "readFieldsS encoded instr =
     (setImmediate (instr\<lparr>sourceRegister1 := getSourceRegister1 encoded,
            sourceRegister2 := getSourceRegister2 encoded\<rparr>) (getImmediateS encoded),
      getFunct3 encoded)"

definition readFieldsB :: "u32 \<Rightarrow> Instruction \<Rightarrow> Instruction \<times> u8" where
  "readFieldsB encoded instr =
     (setImmediate (instr\<lparr>sourceRegister1 := getSourceRegister1 encoded,
            sourceRegister2 := getSourceRegister2 encoded\<rparr>) (getImmediateB encoded),
      getFunct3 encoded)"

definition readFieldsU :: "u32 \<Rightarrow> Instruction \<Rightarrow> Instruction" where
  "readFieldsU encoded instr =
     setImmediate (instr\<lparr>destinationRegister := getDestinationRegister encoded\<rparr>)
       (getImmediateU encoded)"

definition readFieldsJ :: "u32 \<Rightarrow> Instruction \<Rightarrow> Instruction" where
  "readFieldsJ encoded instr =
     setImmediate (instr\<lparr>destinationRegister := getDestinationRegister encoded\<rparr>)
       (getImmediateJ encoded)"

section \<open>Instruction classes\<close>

text \<open>\<open>instr.type = t; break;\<close> in a case of a switch, and the throw of its default.\<close>

definition typed :: "Instruction \<Rightarrow> InstructionType \<Rightarrow> Instruction result" where
  "typed instr t = Inr (instr\<lparr>itype := t\<rparr>)"

definition unknown :: "string \<Rightarrow> u32 \<Rightarrow> Instruction result" where
  "unknown clazz encoded = Inl (UnknownInstructionException clazz encoded)"

definition decodeBranch :: "u32 \<Rightarrow> Instruction \<Rightarrow> Instruction result" where
  "decodeBranch encoded instr = (let (instr, funct3) = readFieldsB encoded instr in
     switch funct3
       [(0b000, typed instr (RV32I BEQ)),
        (0b001, typed instr (RV32I BNE)),
        (0b100, typed instr (RV32I BLT)),
        (0b101, typed instr (RV32I BGE)),
        (0b110, typed instr (RV32I BLTU)),
        (0b111, typed instr (RV32I BGEU))]
       (unknown ''BRANCH'' encoded))"

definition decodeLoad :: "u32 \<Rightarrow> Instruction \<Rightarrow> Instruction result" where
  "decodeLoad encoded instr = (let (instr, funct3) = readFieldsI encoded instr in
     switch funct3
       [(0b000, typed instr (RV32I LB)),
        (0b001, typed instr (RV32I LH)),
        (0b010, typed instr (RV32I LW)),
        (0b100, typed instr (RV32I LBU)),
        (0b101, typed instr (RV32I LHU)),
        (0b110, typed instr (RV64I LWU)),
        (0b011, typed instr (RV64I LD))]
       (unknown ''LOAD'' encoded))"

definition decodeStore :: "u32 \<Rightarrow> Instruction \<Rightarrow> Instruction result" where
  "decodeStore encoded instr = (let (instr, funct3) = readFieldsS encoded instr in
     switch funct3
       [(0b000, typed instr (RV32I SB)),
        (0b001, typed instr (RV32I SH)),
        (0b010, typed instr (RV32I SW)),
        (0b011, typed instr (RV64I SD))]
       (unknown ''STORE'' encoded))"

text \<open>
  The right shifts share a \<open>funct3\<close>; bit 10 of the immediate tells them apart and is cleared from
  the shift amount. The statement is the same in \<^verbatim>\<open>decodeOpImm\<close> and \<^verbatim>\<open>decodeOpImm32\<close>.
\<close>

definition decodeRightShift ::
  "Instruction \<Rightarrow> InstructionType \<Rightarrow> InstructionType \<Rightarrow> Instruction result" where
  "decodeRightShift instr arithmetic logical = bind_result (immediate instr) (\<lambda>imm.
     if hasBit imm 10 then typed (setImmediate instr (clearBit imm 10)) arithmetic
     else typed instr logical)"

text \<open>A \<^verbatim>\<open>switch\<close> without a default leaves the instruction as it is when no case matches.\<close>

definition decodeOpImm :: "u32 \<Rightarrow> Instruction \<Rightarrow> Instruction result" where
  "decodeOpImm encoded instr = (let (instr, funct3) = readFieldsI encoded instr in
     switch funct3
       [(0b000, typed instr (RV32I ADDI)),
        (0b001, typed instr (RV32I SLLI)),
        (0b010, typed instr (RV32I SLTI)),
        (0b011, typed instr (RV32I SLTIU)),
        (0b100, typed instr (RV32I XORI)),
        (0b101, decodeRightShift instr (RV32I SRAI) (RV32I SRLI)),
        (0b110, typed instr (RV32I ORI)),
        (0b111, typed instr (RV32I ANDI))]
       (Inr instr))"

definition decodeOpImm32 :: "u32 \<Rightarrow> Instruction \<Rightarrow> Instruction result" where
  "decodeOpImm32 encoded instr = (let (instr, funct3) = readFieldsI encoded instr in
     switch funct3
       [(0b000, typed instr (RV64I ADDIW)),
        (0b001, typed instr (RV64I SLLIW)),
        (0b101, decodeRightShift instr (RV64I SRAIW) (RV64I SRLIW))]
       (unknown ''OP-IMM32'' encoded))"

definition decodeOp :: "u32 \<Rightarrow> Instruction \<Rightarrow> Instruction result" where
  "decodeOp encoded instr = (let (instr, funct3, funct7) = readFieldsR encoded instr in
     switch funct7
       [(0b0000000, switch funct3
           [(0b000, typed instr (RV32I ADD)),
            (0b001, typed instr (RV32I SLL)),
            (0b010, typed instr (RV32I SLT)),
            (0b011, typed instr (RV32I SLTU)),
            (0b100, typed instr (RV32I XOR)),
            (0b101, typed instr (RV32I SRL)),
            (0b110, typed instr (RV32I OR)),
            (0b111, typed instr (RV32I AND))]
           (Inr instr)),
        (0b0100000, switch funct3
           [(0b000, typed instr (RV32I SUB)),
            (0b101, typed instr (RV32I SRA))]
           (unknown ''OP'' encoded)),
        (0b0000001, switch funct3
           [(0b000, typed instr (RV32M MUL)),
            (0b001, typed instr (RV32M MULH)),
            (0b010, typed instr (RV32M MULHSU)),
            (0b011, typed instr (RV32M MULHU)),
            (0b100, typed instr (RV32M DIV)),
            (0b101, typed instr (RV32M DIVU)),
            (0b110, typed instr (RV32M REM)),
            (0b111, typed instr (RV32M REMU))]
           (Inr instr))]
       (unknown ''OP'' encoded))"

definition decodeOp32 :: "u32 \<Rightarrow> Instruction \<Rightarrow> Instruction result" where
  "decodeOp32 encoded instr = (let (instr, funct3, funct7) = readFieldsR encoded instr in
     switch funct7
       [(0b0000000, switch funct3
           [(0b000, typed instr (RV64I ADDW)),
            (0b001, typed instr (RV64I SLLW)),
            (0b101, typed instr (RV64I SRLW))]
           (unknown ''OP-32'' encoded)),
        (0b0100000, switch funct3
           [(0b000, typed instr (RV64I SUBW)),
            (0b101, typed instr (RV64I SRAW))]
           (unknown ''OP-32'' encoded)),
        (0b0000001, switch funct3
           [(0b000, typed instr (RV64M MULW)),
            (0b100, typed instr (RV64M DIVW)),
            (0b101, typed instr (RV64M DIVUW)),
            (0b110, typed instr (RV64M REMW)),
            (0b111, typed instr (RV64M REMUW))]
           (unknown ''OP-32'' encoded))]
       (unknown ''OP-32'' encoded))"

definition decodeMiscMem :: "u32 \<Rightarrow> Instruction \<Rightarrow> Instruction result" where
  "decodeMiscMem encoded instr = (let (instr, funct3) = readFieldsI encoded instr in
     switch funct3
       [(0b000, bind_result (immediate instr) (\<lambda>imm.
           let instr = setImmediate instr (bitand imm 0b111111111111) in
           bind_result (immediate instr) (\<lambda>imm.
             switch imm
               [(0b100000110011, typed instr (RV32I FENCETSO)),
                (0b000000010000, typed instr (RV32I PAUSE))]
               (typed instr (RV32I FENCE))))),
        (0b001, typed instr (Zifencei FENCEI))]
       (unknown ''MISC-MEM'' encoded))"

definition decodeSystem :: "u32 \<Rightarrow> Instruction \<Rightarrow> Instruction result" where
  "decodeSystem encoded instr = (let (instr, funct3) = readFieldsI encoded instr in
     bind_result (immediate instr) (\<lambda>imm.
     let instr = setImmediate instr 0 in
     switch funct3
       [(0b000, switch imm
           [(0b0, typed instr (RV32I ECALL)),
            (0b1, typed instr (RV32I EBREAK))]
           (unknown ''SYSTEM'' encoded)),
        (0b001, typed instr (Zicsr CSRRW)),
        (0b010, typed instr (Zicsr CSRRS)),
        (0b011, typed instr (Zicsr CSRRC)),
        (0b101, typed instr (Zicsr CSRRWI)),
        (0b110, typed instr (Zicsr CSRRSI)),
        (0b111, typed instr (Zicsr CSRRCI))]
       (unknown ''SYSTEM'' encoded)))"

definition decodeAMO :: "u32 \<Rightarrow> Instruction \<Rightarrow> Instruction result" where
  "decodeAMO encoded instr = (let (instr, funct3, funct7) = readFieldsR encoded instr;
       funct5 = drop_bit 2 funct7;
       instr = setImmediate instr (ucast (bitand funct7 0b11)) in
     switch funct3
       [(0b010, switch funct5
           [(0b00000, typed instr (RV32A AMOADDW)),
            (0b00001, typed instr (RV32A AMOSWAPW)),
            (0b00010, typed instr (RV32A LRW)),
            (0b00011, typed instr (RV32A SCW)),
            (0b00100, typed instr (RV32A AMOXORW)),
            (0b01000, typed instr (RV32A AMOORW)),
            (0b01100, typed instr (RV32A AMOANDW)),
            (0b10000, typed instr (RV32A AMOMINW)),
            (0b10100, typed instr (RV32A AMOMAXW)),
            (0b11000, typed instr (RV32A AMOMINUW)),
            (0b11100, typed instr (RV32A AMOMAXUW))]
           (unknown ''AMO'' encoded)),
        (0b011, switch funct5
           [(0b00000, typed instr (RV64A AMOADDD)),
            (0b00001, typed instr (RV64A AMOSWAPD)),
            (0b00010, typed instr (RV64A LRD)),
            (0b00011, typed instr (RV64A SCD)),
            (0b00100, typed instr (RV64A AMOXORD)),
            (0b01000, typed instr (RV64A AMOORD)),
            (0b01100, typed instr (RV64A AMOANDD)),
            (0b10000, typed instr (RV64A AMOMIND)),
            (0b10100, typed instr (RV64A AMOMAXD)),
            (0b11000, typed instr (RV64A AMOMINUD)),
            (0b11100, typed instr (RV64A AMOMAXUD))]
           (unknown ''AMO'' encoded))]
       (unknown ''AMO'' encoded))"

definition decodeLoadFP :: "u32 \<Rightarrow> Instruction \<Rightarrow> Instruction result" where
  "decodeLoadFP encoded instr = (let (instr, funct3) = readFieldsI encoded instr in
     switch funct3
       [(0b010, typed instr (RV32F FLW)),
        (0b011, typed instr (RV32D FLD))]
       (unknown ''LOAD-FP'' encoded))"

definition decodeStoreFP :: "u32 \<Rightarrow> Instruction \<Rightarrow> Instruction result" where
  "decodeStoreFP encoded instr = (let (instr, funct3) = readFieldsS encoded instr in
     switch funct3
       [(0b010, typed instr (RV32F FSW)),
        (0b011, typed instr (RV32D FSD))]
       (unknown ''STORE-FP'' encoded))"

definition decodeFPFusedMultiplyAdd :: "u32 \<Rightarrow> u8 \<Rightarrow> Instruction \<Rightarrow> Instruction result" where
  "decodeFPFusedMultiplyAdd encoded opcode instr =
     (let (instr, funct3, funct7) = readFieldsR encoded instr;
          instr = setRoundingMode instr funct3;
          instr = setSourceRegister3 instr (drop_bit 2 funct7);
          funct2 = bitand funct7 0b11 in
     switch funct2
       [(0b00, switch opcode
           [(opcodeValue Opcode_MAdd, typed instr (RV32F FMADDS)),
            (opcodeValue Opcode_MSub, typed instr (RV32F FMSUBS)),
            (opcodeValue Opcode_NMAdd, typed instr (RV32F FNMADDS)),
            (opcodeValue Opcode_NMSub, typed instr (RV32F FNMSUBS))]
           (unknown ''FP-FUSED-MULTIPLY-ADD'' encoded)),
        (0b01, switch opcode
           [(opcodeValue Opcode_MAdd, typed instr (RV32D FMADDD)),
            (opcodeValue Opcode_MSub, typed instr (RV32D FMSUBD)),
            (opcodeValue Opcode_NMAdd, typed instr (RV32D FNMADDD)),
            (opcodeValue Opcode_NMSub, typed instr (RV32D FNMSUBD))]
           (unknown ''FP-FUSED-MULTIPLY-ADD'' encoded))]
       (unknown ''FP-FUSED-MULTIPLY-ADD'' encoded))"

text \<open>
  In the following function \<open>precision s d\<close> is the conditional \<^verbatim>\<open>isSingle ? s : d\<close>. The default of
  the case \<open>0b1110000\<close> is a \<^verbatim>\<open>throw new\<close>: it throws a pointer.
\<close>

definition decodeOpFP :: "u32 \<Rightarrow> Instruction \<Rightarrow> Instruction result" where
  "decodeOpFP encoded instr =
     (let (instr, funct3, funct7) = readFieldsR encoded instr;
          instr = setRoundingMode instr funct3;
          isSingle = \<not> hasBit funct7 0;
          funct7 = clearBit funct7 0;
          rs2 = sourceRegister2 instr;
          precision = (\<lambda>s d. typed instr (if isSingle then RV32F s else RV32D d));
          precision64 = (\<lambda>s d. typed instr (if isSingle then RV64F s else RV64D d)) in
     switch funct7
       [(0b0000000, precision FADDS FADDD),
        (0b0000100, precision FSUBS FSUBD),
        (0b0001000, precision FMULS FMULD),
        (0b0001100, if rs2 = 0 then precision FSQRTS FSQRTD else precision FDIVS FDIVD),
        (0b0010000, switch funct3
           [(0b000, precision FSGNJS FSGNJD),
            (0b001, precision FSGNJNS FSGNJND),
            (0b010, precision FSGNJXS FSGNJXD)]
           (unknown ''OP-FP'' encoded)),
        (0b0010100, switch funct3
           [(0b000, precision FMINS FMIND),
            (0b001, precision FMAXS FMAXD)]
           (unknown ''OP-FP'' encoded)),
        (0b0100000, switch rs2
           [(0b00001, typed instr (RV32D (if isSingle then FCVTSD else FCVTDS)))]
           (unknown ''OP-FP'' encoded)),
        (0b1100000, switch rs2
           [(0b00000, precision FCVTWS FCVTWD),
            (0b00001, precision FCVTWUS FCVTWUD),
            (0b00010, precision64 FCVTLS FCVTLD),
            (0b00011, precision64 FCVTLUS FCVTLUD)]
           (unknown ''OP-FP'' encoded)),
        (0b1110000, switch funct3
           [(0b000, typed instr (if isSingle then RV32F FMVXW else RV64D FMVXD)),
            (0b001, precision FCLASSS FCLASSD)]
           (Inl (UnknownInstructionPointer ''OP-FP'' encoded))),
        (0b1010000, switch funct3
           [(0b010, precision FEQS FEQD),
            (0b001, precision FLTS FLTD),
            (0b000, precision FLES FLED)]
           (unknown ''OP-FP'' encoded)),
        (0b1101000, switch rs2
           [(0b00000, precision FCVTSW FCVTDW),
            (0b00001, precision FCVTSWU FCVTDWU),
            (0b00010, precision64 FCVTSL FCVTDL),
            (0b00011, precision64 FCVTSLU FCVTDLU)]
           (unknown ''OP-FP'' encoded)),
        (0b1111000, switch funct3
           [(0b000, typed instr (if isSingle then RV32F FMVWX else RV64D FMVDX))]
           (unknown ''OP-FP'' encoded))]
       (unknown ''OP-FP'' encoded))"

section \<open>Dispatch and the program loop\<close>

definition decodeInstruction :: "Instruction \<Rightarrow> u32 \<Rightarrow> Instruction result" where
  "decodeInstruction instr encoded = (let opcode = getOpcode encoded in
     switch opcode
       [(opcodeValue Opcode_LUI, typed (readFieldsU encoded instr) (RV32I LUI)),
        (opcodeValue Opcode_AUIPC, typed (readFieldsU encoded instr) (RV32I AUIPC)),
        (opcodeValue Opcode_JAL, typed (readFieldsJ encoded instr) (RV32I JAL)),
        (opcodeValue Opcode_JALR,
          (let (instr, funct3) = readFieldsI encoded instr in typed instr (RV32I JALR))),
        (opcodeValue Opcode_Branch, decodeBranch encoded instr),
        (opcodeValue Opcode_Load, decodeLoad encoded instr),
        (opcodeValue Opcode_Store, decodeStore encoded instr),
        (opcodeValue Opcode_OpImm, decodeOpImm encoded instr),
        (opcodeValue Opcode_OpImm32, decodeOpImm32 encoded instr),
        (opcodeValue Opcode_Op, decodeOp encoded instr),
        (opcodeValue Opcode_Op32, decodeOp32 encoded instr),
        (opcodeValue Opcode_MiscMem, decodeMiscMem encoded instr),
        (opcodeValue Opcode_System, decodeSystem encoded instr),
        (opcodeValue Opcode_AMO, decodeAMO encoded instr),
        (opcodeValue Opcode_LoadFP, decodeLoadFP encoded instr),
        (opcodeValue Opcode_StoreFP, decodeStoreFP encoded instr),
        (opcodeValue Opcode_MAdd, decodeFPFusedMultiplyAdd encoded opcode instr),
        (opcodeValue Opcode_MSub, decodeFPFusedMultiplyAdd encoded opcode instr),
        (opcodeValue Opcode_NMAdd, decodeFPFusedMultiplyAdd encoded opcode instr),
        (opcodeValue Opcode_NMSub, decodeFPFusedMultiplyAdd encoded opcode instr),
        (opcodeValue Opcode_OpFP, decodeOpFP encoded instr)]
       (unknown ''unknown'' encoded))"

text \<open>
  The loop of \<^verbatim>\<open>decodeInstructions\<close> from \<open>programOffset\<close> on, with the vector built so far, and the
  function itself. Idealisation: \<^verbatim>\<open>push_back\<close> always finds memory (its \<^verbatim>\<open>std::bad_alloc\<close> is not modelled).
\<close>

function decodeLoop :: "bool \<Rightarrow> u8 list \<Rightarrow> nat \<Rightarrow> Instruction list \<Rightarrow> Instruction list result" where
  "decodeLoop nativeLittle program programOffset instructions =
     (if programOffset < length program then
        bind_result (isEncodingCompressed program programOffset) (\<lambda>compressed.
        if compressed then Inl (RuntimeError ''Compressed instructions are not supported'')
        else bind_result (loadU32 nativeLittle program programOffset) (\<lambda>encoded.
        bind_result (decodeInstruction Instruction_init encoded) (\<lambda>instruction.
        decodeLoop nativeLittle program (programOffset + 4) (instructions @ [instruction]))))
      else Inr instructions)"
  by pat_completeness auto
termination
  by (relation "measure (\<lambda>(nl, program, off, instrs). length program - off)") auto

declare decodeLoop.simps [simp del]

definition decodeInstructions :: "bool \<Rightarrow> u8 list \<Rightarrow> Instruction list result" where
  "decodeInstructions nativeLittle program =
     (if length program mod 4 \<noteq> 0
      then Inl (RuntimeError (''Program size not divisible by 4: '' @ to_string (length program)))
      else decodeLoop nativeLittle program 0 [])"

end
