(* ===== verification/DecodeFields.thy ===== *)
theory DecodeFields
  imports Decoder
begin

text \<open>
  The bits that the field and immediate extractors of the decoder read, and the instruction formats
  of the RISC-V manual as packers of fields into a 32-bit word. Extracting from a packed word gives
  the fields back, and packing the fields of any word gives the word back; the encoder and the
  decoder theorems rest on these two groups.
\<close>

section \<open>The bits of the fields\<close>

named_theorems field_bits \<open>the bits of the extracted fields\<close>

lemma bit_getOpcode [field_bits]: "bit (getOpcode e) n \<longleftrightarrow> n < 7 \<and> bit e n"
  by (auto simp: getOpcode_def bit_ucast_iff bitfield)

lemma bit_getFunct3 [field_bits]: "bit (getFunct3 e) n \<longleftrightarrow> n < 3 \<and> bit e (12 + n)"
  by (auto simp: getFunct3_def bit_ucast_iff bitfield)

lemma bit_getFunct7 [field_bits]: "bit (getFunct7 e) n \<longleftrightarrow> n < 7 \<and> bit e (25 + n)"
  by (auto simp: getFunct7_def bit_ucast_iff bitfield)

lemma bit_getDestinationRegister [field_bits]:
  "bit (getDestinationRegister e) n \<longleftrightarrow> n < 5 \<and> bit e (7 + n)"
  by (auto simp: getDestinationRegister_def bit_ucast_iff bitfield)

lemma bit_getSourceRegister1 [field_bits]:
  "bit (getSourceRegister1 e) n \<longleftrightarrow> n < 5 \<and> bit e (15 + n)"
  by (auto simp: getSourceRegister1_def bit_ucast_iff bitfield)

lemma bit_getSourceRegister2 [field_bits]:
  "bit (getSourceRegister2 e) n \<longleftrightarrow> n < 5 \<and> bit e (20 + n)"
  by (auto simp: getSourceRegister2_def bit_ucast_iff bitfield)

lemma bit_signed_take_bit_word:
  "bit (signed_take_bit k w) n \<longleftrightarrow> n < LENGTH('a) \<and> bit w (min n k)" for w :: "'a::len word"
  by (auto simp: bit_signed_take_bit_iff min.commute)

lemma bit_getImmediateI [field_bits]:
  "bit (getImmediateI e) n \<longleftrightarrow> n < 32 \<and> bit e (if n < 11 then 20 + n else 31)"
  by (auto simp: getImmediateI_def signExtend_eq bit_signed_take_bit_word bitfield min_def)

lemma bit_getImmediateS [field_bits]:
  "bit (getImmediateS e) n \<longleftrightarrow>
     n < 32 \<and> bit e (if n < 5 then 7 + n else if n < 11 then 20 + n else 31)"
  by (auto simp: getImmediateS_def signExtend_eq bit_signed_take_bit_word bit_or_iff
      bit_push_bit_iff bitfield min_def)

lemma bit_getImmediateB [field_bits]:
  "bit (getImmediateB e) n \<longleftrightarrow> 0 < n \<and> n < 32 \<and>
     bit e (if n < 5 then 7 + n else if n < 11 then 20 + n else if n < 12 then 7 else 31)"
proof -
  have raw: "bit (bitor (bitor (bitor (push_bit 1 (bitsAt e 8 11)) (push_bit 5 (bitsAt e 25 30)))
        (push_bit 11 (bitsAt e 7 7))) (push_bit 12 (bitsAt e 31 31))) k \<longleftrightarrow>
      (1 \<le> k \<and> k < 5 \<and> bit e (7 + k)) \<or> (5 \<le> k \<and> k < 11 \<and> bit e (20 + k)) \<or>
      (k = 11 \<and> bit e 7) \<or> (k = 12 \<and> bit e 31)" for k
  proof -
    consider "k = 0" | "1 \<le> k" "k < 5" | "5 \<le> k" "k < 11" | "k = 11" | "k = 12" | "12 < k"
      by linarith
    then show ?thesis
      unfolding bit_or_iff bit_push_bit_iff
      by cases (simp_all add: bit_bitsAt_iff less_diff_conv2)
  qed
  have bits: "bit (getImmediateB e) n \<longleftrightarrow> n < 32 \<and> bit (bitor (bitor (bitor (push_bit 1 (bitsAt e 8 11))
      (push_bit 5 (bitsAt e 25 30))) (push_bit 11 (bitsAt e 7 7))) (push_bit 12 (bitsAt e 31 31))) (min n 12)"
    by (simp add: getImmediateB_def signExtend_eq bit_signed_take_bit_word)
  consider "n = 0" | "0 < n" "n < 5" | "5 \<le> n" "n < 11" | "n = 11" | "12 \<le> n"
    by linarith
  then show ?thesis
    unfolding bits raw by cases simp_all
qed

lemma bit_getImmediateU [field_bits]: "bit (getImmediateU e) n \<longleftrightarrow> 12 \<le> n \<and> bit e n"
  by (auto simp: getImmediateU_def bit_push_bit_iff bitfield dest: bit_imp_le_length)

lemma bit_getImmediateJ [field_bits]:
  "bit (getImmediateJ e) n \<longleftrightarrow> 0 < n \<and> n < 32 \<and>
     bit e (if n < 11 then 20 + n else if n < 12 then 20 else if n < 20 then n else 31)"
proof -
  have raw: "bit (bitor (bitor (bitor (push_bit 1 (bitsAt e 21 30)) (push_bit 11 (bitsAt e 20 20)))
        (push_bit 12 (bitsAt e 12 19))) (push_bit 20 (bitsAt e 31 31))) k \<longleftrightarrow>
      (1 \<le> k \<and> k < 11 \<and> bit e (20 + k)) \<or> (k = 11 \<and> bit e 20) \<or>
      (12 \<le> k \<and> k < 20 \<and> bit e k) \<or> (k = 20 \<and> bit e 31)" for k
  proof -
    consider "k = 0" | "1 \<le> k" "k < 11" | "k = 11" | "12 \<le> k" "k < 20" | "k = 20" | "20 < k"
      by linarith
    then show ?thesis
      unfolding bit_or_iff bit_push_bit_iff
      by cases (simp_all add: bit_bitsAt_iff less_diff_conv2)
  qed
  have bits: "bit (getImmediateJ e) n \<longleftrightarrow> n < 32 \<and> bit (bitor (bitor (bitor (push_bit 1 (bitsAt e 21 30))
      (push_bit 11 (bitsAt e 20 20))) (push_bit 12 (bitsAt e 12 19))) (push_bit 20 (bitsAt e 31 31))) (min n 20)"
    by (simp add: getImmediateJ_def signExtend_eq bit_signed_take_bit_word)
  consider "n = 0" | "0 < n" "n < 11" | "n = 11" | "12 \<le> n" "n < 20" | "20 \<le> n"
    by linarith
  then show ?thesis
    unfolding bits raw by cases simp_all
qed

section \<open>The ranges of the fields\<close>

lemma unat_less_bits:
  fixes w :: "'a::len word"
  assumes "\<And>n. bit w n \<Longrightarrow> n < k"
  shows "unat w < 2 ^ k"
proof -
  have "take_bit k w = w"
    by (rule take_bit_eq_bitsI) (use assms in fastforce)
  then have "unat w = take_bit k (unat w)"
    by (metis unsigned_take_bit_eq)
  then show ?thesis
    by (metis take_bit_nat_less_exp)
qed

lemma field_ranges [simp]:
  "unat (getDestinationRegister e) < 32"
  "unat (getSourceRegister1 e) < 32"
  "unat (getSourceRegister2 e) < 32"
  "unat (getFunct3 e) < 8"
  "unat (getFunct7 e) < 128"
  "unat (getOpcode e) < 128"
  using unat_less_bits [of "getDestinationRegister e" 5] unat_less_bits [of "getSourceRegister1 e" 5]
    unat_less_bits [of "getSourceRegister2 e" 5] unat_less_bits [of "getFunct3 e" 3]
    unat_less_bits [of "getFunct7 e" 7] unat_less_bits [of "getOpcode e" 7]
  by (simp_all add: field_bits)

text \<open>A word is in the signed range of \<open>k + 1\<close> bits iff sign extension from bit \<open>k\<close> fixes it.\<close>

lemma signed_range_iff:
  fixes w :: "'a::len word"
  assumes "k < LENGTH('a)"
  shows "signed_take_bit k w = w \<longleftrightarrow> - (2 ^ k) \<le> sint w \<and> sint w < 2 ^ k"
proof -
  have "sint (signed_take_bit k w) = signed_take_bit k (sint w)"
    using assms by (intro bit_eqI)
      (auto simp: bit_sint_iff bit_signed_take_bit_iff Bit_Operations.bit_signed_take_bit_iff min_def)
  then have "signed_take_bit k w = w \<longleftrightarrow> signed_take_bit k (sint w) = sint w"
    by (metis signed_word_eqI)
  then show ?thesis
    by (simp add: signed_take_bit_int_eq_self_iff)
qed

lemma signed_rangeI:
  fixes w :: "'a::len word"
  assumes "k < LENGTH('a)" and "\<And>n. k \<le> n \<Longrightarrow> n < LENGTH('a) \<Longrightarrow> bit w n = bit w k"
  shows "- (2 ^ k) \<le> sint w \<and> sint w < 2 ^ k"
proof -
  have "signed_take_bit k w = w"
  proof (rule word_eq_bitsI)
    fix n assume "n < LENGTH('a)"
    with assms(2) [of n] show "bit (signed_take_bit k w) n = bit w n"
      by (cases "k \<le> n") (simp_all add: bit_signed_take_bit_word)
  qed
  with signed_range_iff [OF assms(1), of w] show ?thesis by simp
qed

lemma even_sint_iff: "even (sint w) \<longleftrightarrow> \<not> bit w 0" for w :: "'a::len word"
  using bit_sint_iff [of w 0] by (simp add: bit_0)

section \<open>Instruction formats\<close>

definition encodeR :: "u8 \<Rightarrow> u8 \<Rightarrow> u8 \<Rightarrow> u8 \<Rightarrow> u8 \<Rightarrow> u8 \<Rightarrow> u32" where
  "encodeR funct7 rs2 rs1 funct3 rd opcode =
     bitor (push_bit 25 (ucast funct7)) (bitor (push_bit 20 (ucast rs2)) (bitor (push_bit 15 (ucast rs1))
       (bitor (push_bit 12 (ucast funct3)) (bitor (push_bit 7 (ucast rd)) (ucast opcode)))))"

definition encodeI :: "i32 \<Rightarrow> u8 \<Rightarrow> u8 \<Rightarrow> u8 \<Rightarrow> u8 \<Rightarrow> u32" where
  "encodeI imm rs1 funct3 rd opcode =
     encodeR (ucast (take_bit 7 (drop_bit 5 imm))) (ucast (take_bit 5 imm)) rs1 funct3 rd opcode"

definition encodeS :: "i32 \<Rightarrow> u8 \<Rightarrow> u8 \<Rightarrow> u8 \<Rightarrow> u8 \<Rightarrow> u32" where
  "encodeS imm rs2 rs1 funct3 opcode =
     encodeR (ucast (take_bit 7 (drop_bit 5 imm))) rs2 rs1 funct3 (ucast (take_bit 5 imm)) opcode"

definition encodeB :: "i32 \<Rightarrow> u8 \<Rightarrow> u8 \<Rightarrow> u8 \<Rightarrow> u8 \<Rightarrow> u32" where
  "encodeB imm rs2 rs1 funct3 opcode =
     encodeR (ucast (bitor (push_bit 6 (take_bit 1 (drop_bit 12 imm))) (take_bit 6 (drop_bit 5 imm))))
       rs2 rs1 funct3
       (ucast (bitor (push_bit 1 (take_bit 4 (drop_bit 1 imm))) (take_bit 1 (drop_bit 11 imm)))) opcode"

definition encodeU :: "i32 \<Rightarrow> u8 \<Rightarrow> u8 \<Rightarrow> u32" where
  "encodeU imm rd opcode =
     bitor (push_bit 12 (drop_bit 12 imm)) (bitor (push_bit 7 (ucast rd)) (ucast opcode))"

definition encodeJ :: "i32 \<Rightarrow> u8 \<Rightarrow> u8 \<Rightarrow> u32" where
  "encodeJ imm rd opcode =
     bitor (push_bit 31 (take_bit 1 (drop_bit 20 imm))) (bitor (push_bit 21 (take_bit 10 (drop_bit 1 imm)))
       (bitor (push_bit 20 (take_bit 1 (drop_bit 11 imm))) (bitor (push_bit 12 (take_bit 8 (drop_bit 12 imm)))
       (bitor (push_bit 7 (ucast rd)) (ucast opcode)))))"

section \<open>Packing the fields of a word gives the word\<close>

lemma less_32_cases:
  "n < 32 \<Longrightarrow> n \<in> set ([0,1,2,3,4,5,6,7] @ [8,9,10,11,12,13,14,15] @ [16,17,18,19,20,21,22,23] @
     [24,25,26,27,28,29,30,31])" for n :: nat
  by simp presburger

lemma word32_eqI:
  fixes v w :: u32
  assumes "bit v 0 = bit w 0" and "bit v 1 = bit w 1" and "bit v 2 = bit w 2" and "bit v 3 = bit w 3"
    and "bit v 4 = bit w 4" and "bit v 5 = bit w 5" and "bit v 6 = bit w 6" and "bit v 7 = bit w 7"
    and "bit v 8 = bit w 8" and "bit v 9 = bit w 9" and "bit v 10 = bit w 10" and "bit v 11 = bit w 11"
    and "bit v 12 = bit w 12" and "bit v 13 = bit w 13" and "bit v 14 = bit w 14" and "bit v 15 = bit w 15"
    and "bit v 16 = bit w 16" and "bit v 17 = bit w 17" and "bit v 18 = bit w 18" and "bit v 19 = bit w 19"
    and "bit v 20 = bit w 20" and "bit v 21 = bit w 21" and "bit v 22 = bit w 22" and "bit v 23 = bit w 23"
    and "bit v 24 = bit w 24" and "bit v 25 = bit w 25" and "bit v 26 = bit w 26" and "bit v 27 = bit w 27"
    and "bit v 28 = bit w 28" and "bit v 29 = bit w 29" and "bit v 30 = bit w 30" and "bit v 31 = bit w 31"
  shows "v = w"
proof (rule word_eq_bitsI)
  fix n assume "n < LENGTH(32)"
  then have "n < 32" by simp
  from less_32_cases [OF this] show "bit v n = bit w n"
    using assms by auto
qed

lemmas format_bits =
  bit_or_iff bit_push_bit_iff bit_ucast_iff bit_take_bit_iff bit_drop_bit_eq field_bits

lemma encodeR_fields:
  "encodeR (getFunct7 e) (getSourceRegister2 e) (getSourceRegister1 e) (getFunct3 e)
     (getDestinationRegister e) (getOpcode e) = e"
  unfolding encodeR_def by (rule word32_eqI; simp add: format_bits)

lemma encodeI_fields:
  "encodeI (getImmediateI e) (getSourceRegister1 e) (getFunct3 e)
     (getDestinationRegister e) (getOpcode e) = e"
  unfolding encodeI_def encodeR_def by (rule word32_eqI; simp add: format_bits)

lemma encodeS_fields:
  "encodeS (getImmediateS e) (getSourceRegister2 e) (getSourceRegister1 e) (getFunct3 e)
     (getOpcode e) = e"
  unfolding encodeS_def encodeR_def by (rule word32_eqI; simp add: format_bits)

lemma encodeB_fields:
  "encodeB (getImmediateB e) (getSourceRegister2 e) (getSourceRegister1 e) (getFunct3 e)
     (getOpcode e) = e"
  unfolding encodeB_def encodeR_def by (rule word32_eqI; simp only: format_bits; simp add: field_bits)

lemma encodeU_fields: "encodeU (getImmediateU e) (getDestinationRegister e) (getOpcode e) = e"
  unfolding encodeU_def by (rule word32_eqI; simp add: format_bits)

lemma encodeJ_fields: "encodeJ (getImmediateJ e) (getDestinationRegister e) (getOpcode e) = e"
  unfolding encodeJ_def by (rule word32_eqI; simp only: format_bits; simp add: field_bits)

section \<open>The fields of a packed word\<close>

lemma bit_less_exp: "unat w < 2 ^ k \<Longrightarrow> bit w n \<Longrightarrow> n < k" for w :: "'a::len word"
proof -
  assume small: "unat w < 2 ^ k" and "bit w n"
  have "take_bit k (unat w) = unat w" using small by (simp add: take_bit_nat_eq_self_iff)
  then have "take_bit k w = w" by (metis unsigned_take_bit_eq unsigned_word_eqI)
  then show "n < k" using \<open>bit w n\<close> by (rule take_bit_eq_bitsD)
qed

text \<open>The side conditions of packing: every field fits its width.\<close>

definition fields_fit :: "u8 \<Rightarrow> u8 \<Rightarrow> u8 \<Rightarrow> u8 \<Rightarrow> u8 \<Rightarrow> u8 \<Rightarrow> bool" where
  "fields_fit f7 rs2 rs1 f3 rd op \<longleftrightarrow> unat f7 < 128 \<and> unat rs2 < 32 \<and> unat rs1 < 32 \<and>
     unat f3 < 8 \<and> unat rd < 32 \<and> unat op < 128"

lemma fields_fit_high:
  assumes "fields_fit f7 rs2 rs1 f3 rd op"
  shows "7 \<le> m \<Longrightarrow> \<not> bit f7 m" and "5 \<le> m \<Longrightarrow> \<not> bit rs2 m" and "5 \<le> m \<Longrightarrow> \<not> bit rs1 m"
    and "3 \<le> m \<Longrightarrow> \<not> bit f3 m" and "5 \<le> m \<Longrightarrow> \<not> bit rd m" and "7 \<le> m \<Longrightarrow> \<not> bit op m"
  using assms bit_less_exp [of f7 7 m] bit_less_exp [of rs2 5 m] bit_less_exp [of rs1 5 m]
    bit_less_exp [of f3 3 m] bit_less_exp [of rd 5 m] bit_less_exp [of op 7 m]
  by (auto simp: fields_fit_def)

lemma bit_encodeR:
  assumes "fields_fit f7 rs2 rs1 f3 rd op"
  shows "bit (encodeR f7 rs2 rs1 f3 rd op) n \<longleftrightarrow> n < 32 \<and>
    (if n < 7 then bit op n else if n < 12 then bit rd (n - 7) else if n < 15 then bit f3 (n - 12)
     else if n < 20 then bit rs1 (n - 15) else if n < 25 then bit rs2 (n - 20)
     else bit f7 (n - 25))"
proof -
  note high = fields_fit_high [OF assms]
  consider "n < 7" | "7 \<le> n" "n < 12" | "12 \<le> n" "n < 15" | "15 \<le> n" "n < 20"
    | "20 \<le> n" "n < 25" | "25 \<le> n" "n < 32" | "32 \<le> n" by linarith
  then show ?thesis
    unfolding encodeR_def bit_or_iff bit_push_bit_iff bit_ucast_iff
    by cases (simp_all add: high less_diff_conv2)
qed

lemma fields_encodeR:
  assumes "fields_fit f7 rs2 rs1 f3 rd op"
  shows "getFunct7 (encodeR f7 rs2 rs1 f3 rd op) = f7"
    and "getSourceRegister2 (encodeR f7 rs2 rs1 f3 rd op) = rs2"
    and "getSourceRegister1 (encodeR f7 rs2 rs1 f3 rd op) = rs1"
    and "getFunct3 (encodeR f7 rs2 rs1 f3 rd op) = f3"
    and "getDestinationRegister (encodeR f7 rs2 rs1 f3 rd op) = rd"
    and "getOpcode (encodeR f7 rs2 rs1 f3 rd op) = op"
proof -
  note high = fields_fit_high [OF assms]
  note bits = field_bits bit_encodeR [OF assms]
  show "getFunct7 (encodeR f7 rs2 rs1 f3 rd op) = f7"
    by (rule word_eq_bitsI) (auto simp: bits high intro: ccontr)
  show "getSourceRegister2 (encodeR f7 rs2 rs1 f3 rd op) = rs2"
    by (rule word_eq_bitsI) (auto simp: bits high intro: ccontr)
  show "getSourceRegister1 (encodeR f7 rs2 rs1 f3 rd op) = rs1"
    by (rule word_eq_bitsI) (auto simp: bits high intro: ccontr)
  show "getFunct3 (encodeR f7 rs2 rs1 f3 rd op) = f3"
    by (rule word_eq_bitsI) (auto simp: bits high intro: ccontr)
  show "getDestinationRegister (encodeR f7 rs2 rs1 f3 rd op) = rd"
    by (rule word_eq_bitsI) (auto simp: bits high intro: ccontr)
  show "getOpcode (encodeR f7 rs2 rs1 f3 rd op) = op"
    by (rule word_eq_bitsI) (auto simp: bits high intro: ccontr)
qed

section \<open>The immediates of a packed word\<close>

lemma unat_ucast_take_bit_less:
  "k \<le> 8 \<Longrightarrow> unat (ucast (take_bit k w) :: u8) < 2 ^ k" for w :: u32
  by (rule unat_less_bits) (auto simp: bit_ucast_iff bit_take_bit_iff)

lemma fields_fit_I:
  assumes "unat rs1 < 32" and "unat f3 < 8" and "unat rd < 32" and "unat op < 128"
  shows "fields_fit (ucast (take_bit 7 (drop_bit 5 imm))) (ucast (take_bit 5 imm :: u32)) rs1 f3 rd op"
  using assms unat_ucast_take_bit_less [of 7 "drop_bit 5 imm"] unat_ucast_take_bit_less [of 5 imm]
  by (simp add: fields_fit_def)

lemma fields_fit_S:
  assumes "unat rs2 < 32" and "unat rs1 < 32" and "unat f3 < 8" and "unat op < 128"
  shows "fields_fit (ucast (take_bit 7 (drop_bit 5 imm))) rs2 rs1 f3 (ucast (take_bit 5 imm :: u32)) op"
  using assms unat_ucast_take_bit_less [of 7 "drop_bit 5 imm"] unat_ucast_take_bit_less [of 5 imm]
  by (simp add: fields_fit_def)

lemma fields_fit_B:
  fixes imm :: u32
  assumes "unat rs2 < 32" and "unat rs1 < 32" and "unat f3 < 8" and "unat op < 128"
  shows "fields_fit
    (ucast (bitor (push_bit 6 (take_bit 1 (drop_bit 12 imm))) (take_bit 6 (drop_bit 5 imm)))) rs2 rs1 f3
    (ucast (bitor (push_bit 1 (take_bit 4 (drop_bit 1 imm))) (take_bit 1 (drop_bit 11 imm)))) op"
proof -
  have "unat (ucast (bitor (push_bit 6 (take_bit 1 (drop_bit 12 imm))) (take_bit 6 (drop_bit 5 imm))) :: u8) < 2 ^ 7"
    by (rule unat_less_bits)
      (auto simp only: bit_ucast_iff bit_or_iff bit_push_bit_iff bit_take_bit_iff)
  moreover have "unat (ucast (bitor (push_bit 1 (take_bit 4 (drop_bit 1 imm))) (take_bit 1 (drop_bit 11 imm))) :: u8) < 2 ^ 5"
    by (rule unat_less_bits)
      (auto simp only: bit_ucast_iff bit_or_iff bit_push_bit_iff bit_take_bit_iff)
  ultimately show ?thesis using assms by (simp add: fields_fit_def)
qed

lemma fields_encodeI:
  assumes "unat rs1 < 32" and "unat f3 < 8" and "unat rd < 32" and "unat op < 128"
  shows "getImmediateI (encodeI imm rs1 f3 rd op) = signed_take_bit 11 imm"
    and "getSourceRegister1 (encodeI imm rs1 f3 rd op) = rs1"
    and "getFunct3 (encodeI imm rs1 f3 rd op) = f3"
    and "getDestinationRegister (encodeI imm rs1 f3 rd op) = rd"
    and "getOpcode (encodeI imm rs1 f3 rd op) = op"
proof -
  note fit = fields_fit_I [OF assms, of imm]
  show "getImmediateI (encodeI imm rs1 f3 rd op) = signed_take_bit 11 imm"
    unfolding encodeI_def
    by (rule word32_eqI;
        simp add: field_bits bit_encodeR [OF fit] format_bits bit_signed_take_bit_word)
qed (simp_all add: encodeI_def fields_encodeR [OF fields_fit_I [OF assms]])

lemma fields_encodeS:
  assumes "unat rs2 < 32" and "unat rs1 < 32" and "unat f3 < 8" and "unat op < 128"
  shows "getImmediateS (encodeS imm rs2 rs1 f3 op) = signed_take_bit 11 imm"
    and "getSourceRegister2 (encodeS imm rs2 rs1 f3 op) = rs2"
    and "getSourceRegister1 (encodeS imm rs2 rs1 f3 op) = rs1"
    and "getFunct3 (encodeS imm rs2 rs1 f3 op) = f3"
    and "getOpcode (encodeS imm rs2 rs1 f3 op) = op"
proof -
  note fit = fields_fit_S [OF assms, of imm]
  show "getImmediateS (encodeS imm rs2 rs1 f3 op) = signed_take_bit 11 imm"
    unfolding encodeS_def
    by (rule word32_eqI;
        simp add: field_bits bit_encodeR [OF fit] format_bits bit_signed_take_bit_word)
qed (simp_all add: encodeS_def fields_encodeR [OF fields_fit_S [OF assms]])

lemma four_Suc: "4 = Suc (Suc (Suc (Suc 0)))"
  by simp

lemma fields_encodeB:
  assumes "unat rs2 < 32" and "unat rs1 < 32" and "unat f3 < 8" and "unat op < 128"
  shows "getImmediateB (encodeB imm rs2 rs1 f3 op) = signed_take_bit 12 (clearBit imm 0)"
    and "getSourceRegister2 (encodeB imm rs2 rs1 f3 op) = rs2"
    and "getSourceRegister1 (encodeB imm rs2 rs1 f3 op) = rs1"
    and "getFunct3 (encodeB imm rs2 rs1 f3 op) = f3"
    and "getOpcode (encodeB imm rs2 rs1 f3 op) = op"
proof -
  note fit = fields_fit_B [OF assms, of imm]
  show "getImmediateB (encodeB imm rs2 rs1 f3 op) = signed_take_bit 12 (clearBit imm 0)"
    unfolding encodeB_def
    by (rule word32_eqI; simp only: field_bits bit_encodeR [OF fit];
        simp only: format_bits bit_signed_take_bit_word;
        simp add: bit_clearBit_iff numeral_2_eq_2 numeral_3_eq_3 four_Suc)
qed (simp_all only: encodeB_def fields_encodeR [OF fields_fit_B [OF assms]])

lemma encodeU_low:
  assumes "unat rd < 32" and "unat op < 128"
  shows "bit (encodeU imm rd op) n \<longleftrightarrow> n < 32 \<and>
    (if n < 7 then bit op n else if n < 12 then bit rd (n - 7) else bit imm n)"
proof -
  have high: "5 \<le> m \<Longrightarrow> \<not> bit rd m" "7 \<le> m \<Longrightarrow> \<not> bit op m" for m
    using assms bit_less_exp [of rd 5 m] bit_less_exp [of op 7 m] by auto
  consider "n < 7" | "7 \<le> n" "n < 12" | "12 \<le> n" "n < 32" | "32 \<le> n" by linarith
  then show ?thesis
    unfolding encodeU_def bit_or_iff bit_push_bit_iff bit_ucast_iff bit_drop_bit_eq
    by cases (simp_all add: high less_diff_conv2)
qed

lemma fields_encodeU:
  assumes "unat rd < 32" and "unat op < 128"
  shows "getImmediateU (encodeU imm rd op) = push_bit 12 (drop_bit 12 imm)"
    and "getDestinationRegister (encodeU imm rd op) = rd"
    and "getOpcode (encodeU imm rd op) = op"
proof -
  have high: "5 \<le> m \<Longrightarrow> \<not> bit rd m" "7 \<le> m \<Longrightarrow> \<not> bit op m" for m
    using assms bit_less_exp [of rd 5 m] bit_less_exp [of op 7 m] by auto
  note bits = field_bits encodeU_low [OF assms]
  show "getImmediateU (encodeU imm rd op) = push_bit 12 (drop_bit 12 imm)"
    by (rule word32_eqI; simp add: bits bit_push_bit_iff bit_drop_bit_eq)
  show "getDestinationRegister (encodeU imm rd op) = rd"
    by (rule word_eq_bitsI) (auto simp: bits high intro: ccontr)
  show "getOpcode (encodeU imm rd op) = op"
    by (rule word_eq_bitsI) (auto simp: bits high intro: ccontr)
qed

lemma encodeJ_low:
  assumes "unat rd < 32" and "unat op < 128"
  shows "bit (encodeJ imm rd op) n \<longleftrightarrow> n < 32 \<and>
    (if n < 7 then bit op n else if n < 12 then bit rd (n - 7) else if n < 20 then bit imm n
     else if n < 21 then bit imm 11 else if n < 31 then bit imm (n - 20) else bit imm 20)"
proof -
  have high: "5 \<le> m \<Longrightarrow> \<not> bit rd m" "7 \<le> m \<Longrightarrow> \<not> bit op m" for m
    using assms bit_less_exp [of rd 5 m] bit_less_exp [of op 7 m] by auto
  consider "n < 7" | "7 \<le> n" "n < 12" | "12 \<le> n" "n < 20" | "n = 20" | "21 \<le> n" "n < 31"
    | "n = 31" | "32 \<le> n" by linarith
  then show ?thesis
    unfolding encodeJ_def bit_or_iff bit_push_bit_iff bit_ucast_iff bit_take_bit_iff bit_drop_bit_eq
    by cases (simp_all add: high less_diff_conv2 Suc_diff_le [symmetric])
qed

lemma fields_encodeJ:
  assumes "unat rd < 32" and "unat op < 128"
  shows "getImmediateJ (encodeJ imm rd op) = signed_take_bit 20 (clearBit imm 0)"
    and "getDestinationRegister (encodeJ imm rd op) = rd"
    and "getOpcode (encodeJ imm rd op) = op"
proof -
  have high: "5 \<le> m \<Longrightarrow> \<not> bit rd m" "7 \<le> m \<Longrightarrow> \<not> bit op m" for m
    using assms bit_less_exp [of rd 5 m] bit_less_exp [of op 7 m] by auto
  note bits = field_bits encodeJ_low [OF assms]
  show "getImmediateJ (encodeJ imm rd op) = signed_take_bit 20 (clearBit imm 0)"
    by (rule word32_eqI; simp add: bits bit_signed_take_bit_word bit_clearBit_iff)
  show "getDestinationRegister (encodeJ imm rd op) = rd"
    by (rule word_eq_bitsI) (auto simp: bits high intro: ccontr)
  show "getOpcode (encodeJ imm rd op) = op"
    by (rule word_eq_bitsI) (auto simp: bits high intro: ccontr)
qed

end
