(* ===== verification/Encoding.thy ===== *)
theory Encoding
  imports DecodeFields
begin

text \<open>
  A reference for the decoder: the RV64G encodings as the RISC-V manual gives them. \<open>isaFormat\<close> is
  the instruction listing of the manual (which format, which fixed fields), \<open>encode\<close> assembles a
  word from a decoded instruction, \<open>encodable\<close> says which instructions the format can express.
  Nothing here is taken from the decoder; the theory of decoder theorems compares the two.

  The decoded form is the one of the code: the operand of a shift is the bare shift amount, that of
  an atomic its acquire and release bits, fields that a format does not have are zero.
\<close>

section \<open>Formats\<close>

datatype format =
    FmtR u8 u8 u8                \<comment> \<open>funct7, funct3, opcode\<close>
  | FmtI u8 u8                   \<comment> \<open>funct3, opcode\<close>
  | FmtShift nat i32 u8 u8       \<comment> \<open>bits of the amount, upper immediate bits, funct3, opcode\<close>
  | FmtS u8 u8
  | FmtB u8 u8
  | FmtU u8
  | FmtJ u8
  | FmtFence                     \<comment> \<open>fm, pred and succ in the immediate\<close>
  | FmtFenceHint i32             \<comment> \<open>a fence with this immediate\<close>
  | FmtSystem i32                \<comment> \<open>a system instruction with this immediate\<close>
  | FmtCsr u8                    \<comment> \<open>funct3; the CSR number is the immediate\<close>
  | FmtAmo u8 u8                 \<comment> \<open>funct5, funct3\<close>
  | FmtR4 u8 u8                  \<comment> \<open>the precision field, opcode\<close>
  | FmtFloat u8                  \<comment> \<open>funct7; funct3 is the rounding mode\<close>
  | FmtFloatFixed u8 u8          \<comment> \<open>funct7, funct3\<close>
  | FmtFloatUnary u8 u8          \<comment> \<open>funct7, rs2; funct3 is the rounding mode\<close>
  | FmtFloatUnaryFixed u8 u8 u8  \<comment> \<open>funct7, rs2, funct3\<close>

primrec rv32iFormat :: "RV32IType \<Rightarrow> format" where
  "rv32iFormat LUI = FmtU 0b0110111"
| "rv32iFormat AUIPC = FmtU 0b0010111"
| "rv32iFormat JAL = FmtJ 0b1101111"
| "rv32iFormat JALR = FmtI 0 0b1100111"
| "rv32iFormat BEQ = FmtB 0 0b1100011"
| "rv32iFormat BNE = FmtB 1 0b1100011"
| "rv32iFormat BLT = FmtB 4 0b1100011"
| "rv32iFormat BGE = FmtB 5 0b1100011"
| "rv32iFormat BLTU = FmtB 6 0b1100011"
| "rv32iFormat BGEU = FmtB 7 0b1100011"
| "rv32iFormat LB = FmtI 0 0b0000011"
| "rv32iFormat LH = FmtI 1 0b0000011"
| "rv32iFormat LW = FmtI 2 0b0000011"
| "rv32iFormat LBU = FmtI 4 0b0000011"
| "rv32iFormat LHU = FmtI 5 0b0000011"
| "rv32iFormat SB = FmtS 0 0b0100011"
| "rv32iFormat SH = FmtS 1 0b0100011"
| "rv32iFormat SW = FmtS 2 0b0100011"
| "rv32iFormat ADDI = FmtI 0 0b0010011"
| "rv32iFormat SLTI = FmtI 2 0b0010011"
| "rv32iFormat SLTIU = FmtI 3 0b0010011"
| "rv32iFormat XORI = FmtI 4 0b0010011"
| "rv32iFormat ORI = FmtI 6 0b0010011"
| "rv32iFormat ANDI = FmtI 7 0b0010011"
| "rv32iFormat SLLI = FmtShift 6 0 1 0b0010011"
| "rv32iFormat SRLI = FmtShift 6 0 5 0b0010011"
| "rv32iFormat SRAI = FmtShift 6 0x400 5 0b0010011"
| "rv32iFormat ADD = FmtR 0 0 0b0110011"
| "rv32iFormat SUB = FmtR 0x20 0 0b0110011"
| "rv32iFormat SLL = FmtR 0 1 0b0110011"
| "rv32iFormat SLT = FmtR 0 2 0b0110011"
| "rv32iFormat SLTU = FmtR 0 3 0b0110011"
| "rv32iFormat XOR = FmtR 0 4 0b0110011"
| "rv32iFormat SRL = FmtR 0 5 0b0110011"
| "rv32iFormat SRA = FmtR 0x20 5 0b0110011"
| "rv32iFormat OR = FmtR 0 6 0b0110011"
| "rv32iFormat AND = FmtR 0 7 0b0110011"
| "rv32iFormat FENCE = FmtFence"
| "rv32iFormat FENCETSO = FmtFenceHint 0x833"
| "rv32iFormat PAUSE = FmtFenceHint 0x010"
| "rv32iFormat ECALL = FmtSystem 0"
| "rv32iFormat EBREAK = FmtSystem 1"

primrec rv64iFormat :: "RV64IType \<Rightarrow> format" where
  "rv64iFormat LWU = FmtI 6 0b0000011"
| "rv64iFormat LD = FmtI 3 0b0000011"
| "rv64iFormat SD = FmtS 3 0b0100011"
| "rv64iFormat ADDIW = FmtI 0 0b0011011"
| "rv64iFormat SLLIW = FmtShift 5 0 1 0b0011011"
| "rv64iFormat SRLIW = FmtShift 5 0 5 0b0011011"
| "rv64iFormat SRAIW = FmtShift 5 0x400 5 0b0011011"
| "rv64iFormat ADDW = FmtR 0 0 0b0111011"
| "rv64iFormat SUBW = FmtR 0x20 0 0b0111011"
| "rv64iFormat SLLW = FmtR 0 1 0b0111011"
| "rv64iFormat SRLW = FmtR 0 5 0b0111011"
| "rv64iFormat SRAW = FmtR 0x20 5 0b0111011"

primrec zicsrFormat :: "ZicsrType \<Rightarrow> format" where
  "zicsrFormat CSRRW = FmtCsr 1"
| "zicsrFormat CSRRS = FmtCsr 2"
| "zicsrFormat CSRRC = FmtCsr 3"
| "zicsrFormat CSRRWI = FmtCsr 5"
| "zicsrFormat CSRRSI = FmtCsr 6"
| "zicsrFormat CSRRCI = FmtCsr 7"

primrec rv32mFormat :: "RV32MType \<Rightarrow> format" where
  "rv32mFormat MUL = FmtR 1 0 0b0110011"
| "rv32mFormat MULH = FmtR 1 1 0b0110011"
| "rv32mFormat MULHSU = FmtR 1 2 0b0110011"
| "rv32mFormat MULHU = FmtR 1 3 0b0110011"
| "rv32mFormat DIV = FmtR 1 4 0b0110011"
| "rv32mFormat DIVU = FmtR 1 5 0b0110011"
| "rv32mFormat REM = FmtR 1 6 0b0110011"
| "rv32mFormat REMU = FmtR 1 7 0b0110011"

primrec rv64mFormat :: "RV64MType \<Rightarrow> format" where
  "rv64mFormat MULW = FmtR 1 0 0b0111011"
| "rv64mFormat DIVW = FmtR 1 4 0b0111011"
| "rv64mFormat DIVUW = FmtR 1 5 0b0111011"
| "rv64mFormat REMW = FmtR 1 6 0b0111011"
| "rv64mFormat REMUW = FmtR 1 7 0b0111011"

primrec rv32aFormat :: "RV32AType \<Rightarrow> format" where
  "rv32aFormat LRW = FmtAmo 0b00010 2"
| "rv32aFormat SCW = FmtAmo 0b00011 2"
| "rv32aFormat AMOSWAPW = FmtAmo 0b00001 2"
| "rv32aFormat AMOADDW = FmtAmo 0b00000 2"
| "rv32aFormat AMOXORW = FmtAmo 0b00100 2"
| "rv32aFormat AMOANDW = FmtAmo 0b01100 2"
| "rv32aFormat AMOORW = FmtAmo 0b01000 2"
| "rv32aFormat AMOMINW = FmtAmo 0b10000 2"
| "rv32aFormat AMOMAXW = FmtAmo 0b10100 2"
| "rv32aFormat AMOMINUW = FmtAmo 0b11000 2"
| "rv32aFormat AMOMAXUW = FmtAmo 0b11100 2"

primrec rv64aFormat :: "RV64AType \<Rightarrow> format" where
  "rv64aFormat LRD = FmtAmo 0b00010 3"
| "rv64aFormat SCD = FmtAmo 0b00011 3"
| "rv64aFormat AMOSWAPD = FmtAmo 0b00001 3"
| "rv64aFormat AMOADDD = FmtAmo 0b00000 3"
| "rv64aFormat AMOXORD = FmtAmo 0b00100 3"
| "rv64aFormat AMOANDD = FmtAmo 0b01100 3"
| "rv64aFormat AMOORD = FmtAmo 0b01000 3"
| "rv64aFormat AMOMIND = FmtAmo 0b10000 3"
| "rv64aFormat AMOMAXD = FmtAmo 0b10100 3"
| "rv64aFormat AMOMINUD = FmtAmo 0b11000 3"
| "rv64aFormat AMOMAXUD = FmtAmo 0b11100 3"

primrec rv32fFormat :: "RV32FType \<Rightarrow> format" where
  "rv32fFormat FLW = FmtI 2 0b0000111"
| "rv32fFormat FSW = FmtS 2 0b0100111"
| "rv32fFormat FMADDS = FmtR4 0 0b1000011"
| "rv32fFormat FMSUBS = FmtR4 0 0b1000111"
| "rv32fFormat FNMADDS = FmtR4 0 0b1001111"
| "rv32fFormat FNMSUBS = FmtR4 0 0b1001011"
| "rv32fFormat FADDS = FmtFloat 0b0000000"
| "rv32fFormat FSUBS = FmtFloat 0b0000100"
| "rv32fFormat FMULS = FmtFloat 0b0001000"
| "rv32fFormat FDIVS = FmtFloat 0b0001100"
| "rv32fFormat FSQRTS = FmtFloatUnary 0b0101100 0"
| "rv32fFormat FSGNJS = FmtFloatFixed 0b0010000 0"
| "rv32fFormat FSGNJNS = FmtFloatFixed 0b0010000 1"
| "rv32fFormat FSGNJXS = FmtFloatFixed 0b0010000 2"
| "rv32fFormat FMINS = FmtFloatFixed 0b0010100 0"
| "rv32fFormat FMAXS = FmtFloatFixed 0b0010100 1"
| "rv32fFormat FEQS = FmtFloatFixed 0b1010000 2"
| "rv32fFormat FLTS = FmtFloatFixed 0b1010000 1"
| "rv32fFormat FLES = FmtFloatFixed 0b1010000 0"
| "rv32fFormat FCLASSS = FmtFloatUnaryFixed 0b1110000 0 1"
| "rv32fFormat FCVTWS = FmtFloatUnary 0b1100000 0"
| "rv32fFormat FCVTSW = FmtFloatUnary 0b1101000 0"
| "rv32fFormat FCVTWUS = FmtFloatUnary 0b1100000 1"
| "rv32fFormat FCVTSWU = FmtFloatUnary 0b1101000 1"
| "rv32fFormat FMVXW = FmtFloatUnaryFixed 0b1110000 0 0"
| "rv32fFormat FMVWX = FmtFloatUnaryFixed 0b1111000 0 0"

primrec rv64fFormat :: "RV64FType \<Rightarrow> format" where
  "rv64fFormat FCVTLS = FmtFloatUnary 0b1100000 2"
| "rv64fFormat FCVTSL = FmtFloatUnary 0b1101000 2"
| "rv64fFormat FCVTLUS = FmtFloatUnary 0b1100000 3"
| "rv64fFormat FCVTSLU = FmtFloatUnary 0b1101000 3"

primrec rv32dFormat :: "RV32DType \<Rightarrow> format" where
  "rv32dFormat FLD = FmtI 3 0b0000111"
| "rv32dFormat FSD = FmtS 3 0b0100111"
| "rv32dFormat FMADDD = FmtR4 1 0b1000011"
| "rv32dFormat FMSUBD = FmtR4 1 0b1000111"
| "rv32dFormat FNMADDD = FmtR4 1 0b1001111"
| "rv32dFormat FNMSUBD = FmtR4 1 0b1001011"
| "rv32dFormat FADDD = FmtFloat 0b0000001"
| "rv32dFormat FSUBD = FmtFloat 0b0000101"
| "rv32dFormat FMULD = FmtFloat 0b0001001"
| "rv32dFormat FDIVD = FmtFloat 0b0001101"
| "rv32dFormat FSQRTD = FmtFloatUnary 0b0101101 0"
| "rv32dFormat FSGNJD = FmtFloatFixed 0b0010001 0"
| "rv32dFormat FSGNJND = FmtFloatFixed 0b0010001 1"
| "rv32dFormat FSGNJXD = FmtFloatFixed 0b0010001 2"
| "rv32dFormat FMIND = FmtFloatFixed 0b0010101 0"
| "rv32dFormat FMAXD = FmtFloatFixed 0b0010101 1"
| "rv32dFormat FEQD = FmtFloatFixed 0b1010001 2"
| "rv32dFormat FLTD = FmtFloatFixed 0b1010001 1"
| "rv32dFormat FLED = FmtFloatFixed 0b1010001 0"
| "rv32dFormat FCLASSD = FmtFloatUnaryFixed 0b1110001 0 1"
| "rv32dFormat FCVTSD = FmtFloatUnary 0b0100000 1"
| "rv32dFormat FCVTDS = FmtFloatUnary 0b0100001 0"
| "rv32dFormat FCVTWD = FmtFloatUnary 0b1100001 0"
| "rv32dFormat FCVTDW = FmtFloatUnary 0b1101001 0"
| "rv32dFormat FCVTWUD = FmtFloatUnary 0b1100001 1"
| "rv32dFormat FCVTDWU = FmtFloatUnary 0b1101001 1"

primrec rv64dFormat :: "RV64DType \<Rightarrow> format" where
  "rv64dFormat FCVTLD = FmtFloatUnary 0b1100001 2"
| "rv64dFormat FCVTDL = FmtFloatUnary 0b1101001 2"
| "rv64dFormat FCVTLUD = FmtFloatUnary 0b1100001 3"
| "rv64dFormat FCVTDLU = FmtFloatUnary 0b1101001 3"
| "rv64dFormat FMVXD = FmtFloatUnaryFixed 0b1110001 0 0"
| "rv64dFormat FMVDX = FmtFloatUnaryFixed 0b1111001 0 0"

primrec isaFormat :: "InstructionType \<Rightarrow> format" where
  "isaFormat (RV32I t) = rv32iFormat t"
| "isaFormat (RV64I t) = rv64iFormat t"
| "isaFormat (Zifencei t) = FmtI 1 0b0001111"
| "isaFormat (Zicsr t) = zicsrFormat t"
| "isaFormat (RV32M t) = rv32mFormat t"
| "isaFormat (RV64M t) = rv64mFormat t"
| "isaFormat (RV32A t) = rv32aFormat t"
| "isaFormat (RV64A t) = rv64aFormat t"
| "isaFormat (RV32F t) = rv32fFormat t"
| "isaFormat (RV64F t) = rv64fFormat t"
| "isaFormat (RV32D t) = rv32dFormat t"
| "isaFormat (RV64D t) = rv64dFormat t"

section \<open>Encoding\<close>

fun assemble :: "format \<Rightarrow> operand \<Rightarrow> u8 \<Rightarrow> u8 \<Rightarrow> u8 \<Rightarrow> u32" where
  "assemble (FmtR f7 f3 op) _ rd rs1 rs2 = encodeR f7 rs2 rs1 f3 rd op"
| "assemble (FmtI f3 op) (Immediate v) rd rs1 rs2 = encodeI v rs1 f3 rd op"
| "assemble (FmtShift k high f3 op) (Immediate v) rd rs1 rs2 = encodeI (bitor high v) rs1 f3 rd op"
| "assemble (FmtS f3 op) (Immediate v) rd rs1 rs2 = encodeS v rs2 rs1 f3 op"
| "assemble (FmtB f3 op) (Immediate v) rd rs1 rs2 = encodeB v rs2 rs1 f3 op"
| "assemble (FmtU op) (Immediate v) rd rs1 rs2 = encodeU v rd op"
| "assemble (FmtJ op) (Immediate v) rd rs1 rs2 = encodeJ v rd op"
| "assemble FmtFence (Immediate v) rd rs1 rs2 = encodeI v rs1 0 rd 0b0001111"
| "assemble (FmtFenceHint k) _ rd rs1 rs2 = encodeI k rs1 0 rd 0b0001111"
| "assemble (FmtSystem k) _ rd rs1 rs2 = encodeI k rs1 0 rd 0b1110011"
| "assemble (FmtCsr f3) (Immediate v) rd rs1 rs2 = encodeI v rs1 f3 rd 0b1110011"
| "assemble (FmtAmo f5 f3) (Immediate v) rd rs1 rs2 =
     encodeR (bitor (push_bit 2 f5) (ucast v)) rs2 rs1 f3 rd 0b0101111"
| "assemble (FmtR4 f2 op) (FloatOp rm (Some r3)) rd rs1 rs2 =
     encodeR (bitor (push_bit 2 r3) f2) rs2 rs1 rm rd op"
| "assemble (FmtFloat f7) (FloatOp rm _) rd rs1 rs2 = encodeR f7 rs2 rs1 rm rd 0b1010011"
| "assemble (FmtFloatFixed f7 f3) _ rd rs1 rs2 = encodeR f7 rs2 rs1 f3 rd 0b1010011"
| "assemble (FmtFloatUnary f7 r2) (FloatOp rm _) rd rs1 rs2 = encodeR f7 r2 rs1 rm rd 0b1010011"
| "assemble (FmtFloatUnaryFixed f7 r2 f3) _ rd rs1 rs2 = encodeR f7 r2 rs1 f3 rd 0b1010011"
| "assemble _ _ rd rs1 rs2 = 0"

definition encode :: "Instruction \<Rightarrow> u32" where
  "encode i = assemble (isaFormat (itype i)) (operand i) (destinationRegister i)
     (sourceRegister1 i) (sourceRegister2 i)"

text \<open>Which operands and registers a format can express, with absent fields zero.\<close>

fun operand_fits :: "format \<Rightarrow> operand \<Rightarrow> u8 \<Rightarrow> u8 \<Rightarrow> u8 \<Rightarrow> bool" where
  "operand_fits (FmtR _ _ _) (Immediate v) rd rs1 rs2 = (v = 0)"
| "operand_fits (FmtI _ _) (Immediate v) rd rs1 rs2 =
     (- 2048 \<le> sint v \<and> sint v < 2048 \<and> rs2 = 0)"
| "operand_fits (FmtShift k _ _ _) (Immediate v) rd rs1 rs2 = (unat v < 2 ^ k \<and> rs2 = 0)"
| "operand_fits (FmtS _ _) (Immediate v) rd rs1 rs2 =
     (- 2048 \<le> sint v \<and> sint v < 2048 \<and> rd = 0)"
| "operand_fits (FmtB _ _) (Immediate v) rd rs1 rs2 =
     (- 4096 \<le> sint v \<and> sint v < 4096 \<and> even (sint v) \<and> rd = 0)"
| "operand_fits (FmtU _) (Immediate v) rd rs1 rs2 = (take_bit 12 v = 0 \<and> rs1 = 0 \<and> rs2 = 0)"
| "operand_fits (FmtJ _) (Immediate v) rd rs1 rs2 =
     (- 1048576 \<le> sint v \<and> sint v < 1048576 \<and> even (sint v) \<and> rs1 = 0 \<and> rs2 = 0)"
| "operand_fits FmtFence (Immediate v) rd rs1 rs2 =
     (unat v < 4096 \<and> \<not> (v \<in> {0x833, 0x010} \<and> rd = 0 \<and> rs1 = 0) \<and> rs2 = 0)"
| "operand_fits (FmtFenceHint k) (Immediate v) rd rs1 rs2 = (v = k \<and> rd = 0 \<and> rs1 = 0 \<and> rs2 = 0)"
| "operand_fits (FmtSystem _) (Immediate v) rd rs1 rs2 = (v = 0 \<and> rd = 0 \<and> rs1 = 0 \<and> rs2 = 0)"
| "operand_fits (FmtCsr _) (Immediate v) rd rs1 rs2 = (unat v < 4096 \<and> rs2 = 0)"
| "operand_fits (FmtAmo _ _) (Immediate v) rd rs1 rs2 = (unat v < 4)"
| "operand_fits (FmtR4 _ _) (FloatOp rm (Some r3)) rd rs1 rs2 = (unat rm < 8 \<and> unat r3 < 32)"
| "operand_fits (FmtFloat _) (FloatOp rm None) rd rs1 rs2 = (unat rm < 8)"
| "operand_fits (FmtFloatFixed _ f3) (FloatOp rm None) rd rs1 rs2 = (rm = f3)"
| "operand_fits (FmtFloatUnary _ r2) (FloatOp rm None) rd rs1 rs2 = (unat rm < 8 \<and> rs2 = r2)"
| "operand_fits (FmtFloatUnaryFixed _ r2 f3) (FloatOp rm None) rd rs1 rs2 = (rm = f3 \<and> rs2 = r2)"
| "operand_fits _ _ rd rs1 rs2 = False"

definition encodable :: "Instruction \<Rightarrow> bool" where
  "encodable i \<longleftrightarrow>
     unat (destinationRegister i) < 32 \<and> unat (sourceRegister1 i) < 32 \<and>
     unat (sourceRegister2 i) < 32 \<and>
     operand_fits (isaFormat (itype i)) (operand i) (destinationRegister i)
       (sourceRegister1 i) (sourceRegister2 i)"

end
