(* ===== verification/DecoderCorrect.thy ===== *)
theory DecoderCorrect
  imports Encoding
begin

text \<open>
  The decoder against the reference encoder: decoding inverts encoding exactly on the instructions
  where \<open>diverges\<close> does not hold, and what it gives on the others is described in full.
\<close>

section \<open>Unfolding the decoder\<close>

lemmas read_fields_defs =
  readFieldsR_def readFieldsI_def readFieldsS_def readFieldsB_def readFieldsU_def readFieldsJ_def

lemmas class_defs =
  decodeBranch_def decodeLoad_def decodeStore_def decodeOpImm_def decodeOpImm32_def decodeOp_def
  decodeOp32_def decodeMiscMem_def decodeSystem_def decodeAMO_def decodeLoadFP_def
  decodeStoreFP_def decodeFPFusedMultiplyAdd_def decodeOpFP_def decodeRightShift_def
  typed_def unknown_def

text \<open>The dispatch, one equation per opcode value.\<close>

named_theorems dispatch \<open>which class function decodes a given opcode\<close>

lemma dispatch_integer [dispatch]:
  "getOpcode e = 0b0110111 \<Longrightarrow>
    decodeInstruction i e = typed (readFieldsU e i) (RV32I LUI)"
  "getOpcode e = 0b0010111 \<Longrightarrow>
    decodeInstruction i e = typed (readFieldsU e i) (RV32I AUIPC)"
  "getOpcode e = 0b1101111 \<Longrightarrow>
    decodeInstruction i e = typed (readFieldsJ e i) (RV32I JAL)"
  "getOpcode e = 0b1100111 \<Longrightarrow>
    decodeInstruction i e = typed (fst (readFieldsI e i)) (RV32I JALR)"
  "getOpcode e = 0b1100011 \<Longrightarrow> decodeInstruction i e = decodeBranch e i"
  "getOpcode e = 0b0000011 \<Longrightarrow> decodeInstruction i e = decodeLoad e i"
  "getOpcode e = 0b0100011 \<Longrightarrow> decodeInstruction i e = decodeStore e i"
  "getOpcode e = 0b0010011 \<Longrightarrow> decodeInstruction i e = decodeOpImm e i"
  "getOpcode e = 0b0011011 \<Longrightarrow> decodeInstruction i e = decodeOpImm32 e i"
  "getOpcode e = 0b0110011 \<Longrightarrow> decodeInstruction i e = decodeOp e i"
  "getOpcode e = 0b0111011 \<Longrightarrow> decodeInstruction i e = decodeOp32 e i"
  "getOpcode e = 0b0001111 \<Longrightarrow> decodeInstruction i e = decodeMiscMem e i"
  "getOpcode e = 0b1110011 \<Longrightarrow> decodeInstruction i e = decodeSystem e i"
  "getOpcode e = 0b0101111 \<Longrightarrow> decodeInstruction i e = decodeAMO e i"
  by (simp_all add: decodeInstruction_def Let_def case_prod_beta)

lemma dispatch_float [dispatch]:
  "getOpcode e = 0b0000111 \<Longrightarrow> decodeInstruction i e = decodeLoadFP e i"
  "getOpcode e = 0b0100111 \<Longrightarrow> decodeInstruction i e = decodeStoreFP e i"
  "getOpcode e = 0b1000011 \<Longrightarrow> decodeInstruction i e = decodeFPFusedMultiplyAdd e 0b1000011 i"
  "getOpcode e = 0b1000111 \<Longrightarrow> decodeInstruction i e = decodeFPFusedMultiplyAdd e 0b1000111 i"
  "getOpcode e = 0b1001111 \<Longrightarrow> decodeInstruction i e = decodeFPFusedMultiplyAdd e 0b1001111 i"
  "getOpcode e = 0b1001011 \<Longrightarrow> decodeInstruction i e = decodeFPFusedMultiplyAdd e 0b1001011 i"
  "getOpcode e = 0b1010011 \<Longrightarrow> decodeInstruction i e = decodeOpFP e i"
  by (simp_all add: decodeInstruction_def Let_def)

section \<open>Immediates of the reference encoder\<close>

lemma signed_12: "- 2048 \<le> sint v \<Longrightarrow> sint v < 2048 \<Longrightarrow> signed_take_bit 11 v = v" for v :: i32
  using signed_range_iff [of 11 v] by simp

lemma clearBit_even: "even (sint v) \<Longrightarrow> clearBit v 0 = v" for v :: i32
  by (rule word_eq_bitsI) (auto simp: bit_clearBit_iff even_sint_iff intro: gr0I)

lemma signed_13:
  "- 4096 \<le> sint v \<Longrightarrow> sint v < 4096 \<Longrightarrow> even (sint v) \<Longrightarrow>
    signed_take_bit 12 (clearBit v 0) = v" for v :: i32
  using signed_range_iff [of 12 v] by (simp add: clearBit_even)

lemma signed_21:
  "- 1048576 \<le> sint v \<Longrightarrow> sint v < 1048576 \<Longrightarrow> even (sint v) \<Longrightarrow>
    signed_take_bit 20 (clearBit v 0) = v" for v :: i32
  using signed_range_iff [of 20 v] by (simp add: clearBit_even)

lemma upper_20: "take_bit 12 v = 0 \<Longrightarrow> push_bit 12 (drop_bit 12 v) = v" for v :: i32
proof -
  assume "take_bit 12 v = 0"
  then have low: "\<not> bit v n" if "n < 12" for n
    using that by (metis bit_0_eq bit_take_bit_iff bot_apply bot_bool_def)
  show ?thesis
  proof (rule word_eq_bitsI)
    fix n assume "n < LENGTH(32)"
    then show "bit (push_bit 12 (drop_bit 12 v)) n = bit v n"
      using low [of n] by (cases "12 \<le> n") (simp_all add: bit_push_bit_iff bit_drop_bit_eq)
  qed
qed

lemma low_12: "unat v < 4096 \<Longrightarrow> bitand (signed_take_bit 11 v) 0xFFF = v" for v :: i32
proof -
  assume "unat v < 4096"
  then have high: "bit v n \<Longrightarrow> n < 12" for n
    using bit_less_exp [of v 12 n] by simp
  have "bitand w 0xFFF = take_bit 12 w" for w :: i32
    by (simp add: take_bit_eq_mask mask_eq_exp_minus_1)
  moreover have "take_bit 12 (signed_take_bit 11 v) = v"
    by (rule word_eq_bitsI)
      (auto simp: bit_take_bit_iff bit_signed_take_bit_word min_def dest: high)
  ultimately show ?thesis by simp
qed

lemma shift_amount:
  fixes v :: i32
  assumes "unat v < 64"
  shows "signed_take_bit 11 v = v" and "\<not> bit v 10"
    and "signed_take_bit 11 (bitor 0x400 v) = bitor 0x400 v"
    and "clearBit (bitor 0x400 v) 10 = v"
proof -
  have high: "bit v n \<Longrightarrow> n < 6" for n
    using assms bit_less_exp [of v 6 n] by simp
  have k: "bit (0x400 :: i32) n \<longleftrightarrow> n = 10" for n
    using bit_exp_word_iff [of 10 n, where 'a = 32] by auto
  show "\<not> bit v 10" using high [of 10] by auto
  show "signed_take_bit 11 v = v"
    by (rule word_eq_bitsI) (auto simp: bit_signed_take_bit_word min_def dest: high)
  show "signed_take_bit 11 (bitor 0x400 v) = bitor 0x400 v"
    by (rule word_eq_bitsI)
      (auto simp: bit_signed_take_bit_word min_def bit_or_iff k simp del: bit_numeral_word_iff dest: high)
  show "clearBit (bitor 0x400 v) 10 = v"
    by (rule word_eq_bitsI)
      (auto simp: bit_clearBit_iff bit_or_iff k simp del: bit_numeral_word_iff dest: high)
qed

lemma clear_bit_0:
  "clearBit (0 :: u8) 0 = 0" "clearBit (1 :: u8) 0 = 0"
  "clearBit (numeral k :: u8) 0 = bitand (numeral k) (- 2)"
  by (simp_all add: clearBit_def)

lemma aqrl_cases: "unat v < 4 \<Longrightarrow> v = 0 \<or> v = 1 \<or> v = 2 \<or> v = 3" for v :: i32
  by (simp add: word_unat_eq_iff) arith

lemma r4_fields:
  fixes r :: u8
  assumes "unat r < 32"
  shows "unat (push_bit 2 r) < 128" and "drop_bit 2 (push_bit 2 r) = r" and "bitand (push_bit 2 r) 3 = 0"
    and "unat (bitor (push_bit 2 r) 1) < 128" and "drop_bit 2 (bitor (push_bit 2 r) 1) = r"
    and "bitand (bitor (push_bit 2 r) 1) 3 = 1"
proof -
  have high: "bit r n \<Longrightarrow> n < 5" for n
    using assms bit_less_exp [of r 5 n] by simp
  have k: "bit (3 :: u8) n \<longleftrightarrow> n < 2" for n
    using bit_mask_iff [of 2 n, where 'a = "u8"] by (auto simp: mask_eq_exp_minus_1)
  show "unat (push_bit 2 r) < 128"
    using unat_less_bits [of "push_bit 2 r" 7] high by (fastforce simp: bit_push_bit_iff)
  show "unat (bitor (push_bit 2 r) 1) < 128"
    using unat_less_bits [of "bitor (push_bit 2 r) 1" 7] high
    by (fastforce simp: bit_push_bit_iff bit_or_iff bit_1_iff)
  show "drop_bit 2 (push_bit 2 r) = r" "drop_bit 2 (bitor (push_bit 2 r) 1) = r"
    by (rule word_eq_bitsI; use high in \<open>force simp: bit_push_bit_iff bit_drop_bit_eq bit_or_iff bit_1_iff\<close>)+
  show "bitand (push_bit 2 r) 3 = 0" "bitand (bitor (push_bit 2 r) 1) 3 = 1"
    by (rule word_eq_bitsI;
        auto simp: bit_push_bit_iff bit_and_iff bit_or_iff bit_1_iff k simp del: bit_numeral_word_iff)+
qed

section \<open>Decoding an encoded instruction\<close>

text \<open>
  Where the decoder does not invert the encoder: the square roots (it looks for them under the
  \<open>funct7\<close> of the division), division by register \<open>f0\<close> (taken for a square root), the conversion
  from single to double (it asks for \<open>rs2 = 1\<close>), the control and status register instructions
  (it drops the register number), and the fences that have the immediate of \<open>FENCE.TSO\<close> or \<open>PAUSE\<close>
  and a register that is not 0 (it looks only at the immediate).
\<close>

definition diverges :: "Instruction \<Rightarrow> bool" where
  "diverges i \<longleftrightarrow>
     itype i \<in> {RV32F FSQRTS, RV32D FSQRTD, RV32D FCVTDS} \<or>
     (itype i \<in> {RV32F FDIVS, RV32D FDIVD} \<and> sourceRegister2 i = 0) \<or>
     ((\<exists>t. itype i = Zicsr t) \<and> operand i \<noteq> Immediate 0) \<or>
     (itype i = RV32I FENCE \<and> operand i \<in> {Immediate 0x833, Immediate 0x010})"

text \<open>The fields of a packed word, with the side conditions in the form the assumptions have.\<close>

lemmas packed_fields = fields_encodeR fields_encodeI fields_encodeS fields_encodeB fields_encodeU
  fields_encodeJ fields_fit_def

lemmas roundtrip_simps =
  encodable_def encode_def diverges_def Instruction_init_def setImmediate_def setRoundingMode_def
  setSourceRegister3_def packed_fields dispatch read_fields_defs class_defs signed_12 signed_13
  signed_21 upper_20 low_12 shift_amount r4_fields hasBit_iff
  immediate_def bit_or_iff clear_bit_0 Let_def

lemma operand_exhaust [case_names Immediate Partial Complete]:
  obtains v where "p = Immediate v" | rm where "p = FloatOp rm None"
  | rm r3 where "p = FloatOp rm (Some r3)"
  by (cases p) (auto intro: option.exhaust)

lemma roundtrip_rv32i:
  assumes "encodable i" and "itype i = RV32I t"
  shows "decodeInstruction Instruction_init (encode i) = Inr i \<longleftrightarrow> \<not> diverges i"
  using assms
  by (cases i; cases t; cases "operand i") (auto simp: roundtrip_simps)

lemma roundtrip_rv64i:
  assumes "encodable i" and "itype i = RV64I t"
  shows "decodeInstruction Instruction_init (encode i) = Inr i \<and> \<not> diverges i"
  using assms
  by (cases i; cases t; cases "operand i") (auto simp: roundtrip_simps)

lemma roundtrip_zifencei:
  assumes "encodable i" and "itype i = Zifencei t"
  shows "decodeInstruction Instruction_init (encode i) = Inr i \<and> \<not> diverges i"
  using assms
  by (cases i; cases t; cases "operand i") (auto simp: roundtrip_simps)

lemma roundtrip_rv32m:
  assumes "encodable i" and "itype i = RV32M t"
  shows "decodeInstruction Instruction_init (encode i) = Inr i \<and> \<not> diverges i"
  using assms
  by (cases i; cases t; cases "operand i") (auto simp: roundtrip_simps)

lemma roundtrip_rv64m:
  assumes "encodable i" and "itype i = RV64M t"
  shows "decodeInstruction Instruction_init (encode i) = Inr i \<and> \<not> diverges i"
  using assms
  by (cases i; cases t; cases "operand i") (auto simp: roundtrip_simps)

lemma roundtrip_rv32a:
  assumes "encodable i" and "itype i = RV32A t"
  shows "decodeInstruction Instruction_init (encode i) = Inr i \<and> \<not> diverges i"
  using assms
  by (cases i; cases t; cases "operand i") (auto simp: roundtrip_simps dest!: aqrl_cases)

lemma roundtrip_rv64a:
  assumes "encodable i" and "itype i = RV64A t"
  shows "decodeInstruction Instruction_init (encode i) = Inr i \<and> \<not> diverges i"
  using assms
  by (cases i; cases t; cases "operand i") (auto simp: roundtrip_simps dest!: aqrl_cases)

lemma roundtrip_rv32f:
  assumes "encodable i" and "itype i = RV32F t"
  shows "decodeInstruction Instruction_init (encode i) = Inr i \<longleftrightarrow> \<not> diverges i"
  using assms
  by (cases i; cases t; cases "operand i" rule: operand_exhaust) (auto simp: roundtrip_simps)

lemma roundtrip_rv64f:
  assumes "encodable i" and "itype i = RV64F t"
  shows "decodeInstruction Instruction_init (encode i) = Inr i \<longleftrightarrow> \<not> diverges i"
  using assms
  by (cases i; cases t; cases "operand i" rule: operand_exhaust) (auto simp: roundtrip_simps)

lemma roundtrip_rv32d:
  assumes "encodable i" and "itype i = RV32D t"
  shows "decodeInstruction Instruction_init (encode i) = Inr i \<longleftrightarrow> \<not> diverges i"
  using assms
  by (cases i; cases t; cases "operand i" rule: operand_exhaust) (auto simp: roundtrip_simps)

lemma roundtrip_rv64d:
  assumes "encodable i" and "itype i = RV64D t"
  shows "decodeInstruction Instruction_init (encode i) = Inr i \<longleftrightarrow> \<not> diverges i"
  using assms
  by (cases i; cases t; cases "operand i" rule: operand_exhaust) (auto simp: roundtrip_simps)

lemma roundtrip_zicsr:
  assumes "encodable i" and "itype i = Zicsr t"
  shows "decodeInstruction Instruction_init (encode i) = Inr i \<longleftrightarrow> \<not> diverges i"
  using assms
  by (cases i; cases t; cases "operand i" rule: operand_exhaust) (auto simp: roundtrip_simps)

lemmas roundtrip_lemmas = roundtrip_rv32i roundtrip_rv64i roundtrip_zifencei roundtrip_zicsr
  roundtrip_rv32m roundtrip_rv64m roundtrip_rv32a roundtrip_rv64a roundtrip_rv32f roundtrip_rv64f
  roundtrip_rv32d roundtrip_rv64d

lemma roundtrip_iff:
  assumes "encodable i"
  shows "decodeInstruction Instruction_init (encode i) = Inr i \<longleftrightarrow> \<not> diverges i"
  using roundtrip_lemmas [OF assms] by (cases "itype i") blast+

text \<open>The result of decoding an encoded instruction that diverges.\<close>

definition divergent_result :: "Instruction \<Rightarrow> Instruction result" where
  "divergent_result i =
     (if itype i \<in> {RV32F FSQRTS, RV32D FSQRTD, RV32D FCVTDS}
      then Inl (UnknownInstructionException ''OP-FP'' (encode i))
      else if itype i = RV32F FDIVS then Inr (i\<lparr>itype := RV32F FSQRTS\<rparr>)
      else if itype i = RV32D FDIVD then Inr (i\<lparr>itype := RV32D FSQRTD\<rparr>)
      else if itype i = RV32I FENCE
      then Inr (i\<lparr>itype := RV32I (if operand i = Immediate 0x833 then FENCETSO else PAUSE)\<rparr>)
      else Inr (i\<lparr>operand := Immediate 0\<rparr>))"

lemma divergent_zicsr:
  assumes "encodable i" and "itype i = Zicsr t"
  shows "decodeInstruction Instruction_init (encode i) = Inr (i\<lparr>operand := Immediate 0\<rparr>)"
  using assms
  by (cases i; cases t; cases "operand i" rule: operand_exhaust) (auto simp: roundtrip_simps)

lemma divergent_rv32f:
  assumes "encodable i" and "itype i = RV32F t" and "diverges i"
  shows "decodeInstruction Instruction_init (encode i) = divergent_result i"
  using assms
  by (cases i; cases t; cases "operand i" rule: operand_exhaust)
    (auto simp: roundtrip_simps divergent_result_def)

lemma divergent_rv32d:
  assumes "encodable i" and "itype i = RV32D t" and "diverges i"
  shows "decodeInstruction Instruction_init (encode i) = divergent_result i"
  using assms
  by (cases i; cases t; cases "operand i" rule: operand_exhaust)
    (auto simp: roundtrip_simps divergent_result_def)

lemma divergent_rv32i:
  assumes "encodable i" and "itype i = RV32I t" and "diverges i"
  shows "decodeInstruction Instruction_init (encode i) = divergent_result i"
proof -
  have "t = FENCE" using assms(2,3) by (simp add: diverges_def)
  then show ?thesis
    using assms by (cases i; cases "operand i") (auto simp: roundtrip_simps divergent_result_def)
qed

lemma divergent_decode:
  assumes "encodable i" and "diverges i"
  shows "decodeInstruction Instruction_init (encode i) = divergent_result i"
proof (cases "\<exists>t. itype i = Zicsr t")
  case True
  then obtain t where t: "itype i = Zicsr t" by blast
  then show ?thesis using divergent_zicsr [OF assms(1) t] by (simp add: divergent_result_def)
next
  case False
  with assms(2) have "(\<exists>t. itype i = RV32F t) \<or> (\<exists>t. itype i = RV32D t) \<or> (\<exists>t. itype i = RV32I t)"
    by (auto simp: diverges_def)
  then show ?thesis using divergent_rv32f divergent_rv32d divergent_rv32i assms by blast
qed

end
