(* ===== verification/DecoderReencode.thy ===== *)
theory DecoderReencode
  imports DecoderCorrect
begin

text \<open>
  The converse of the round trip: encoding what was decoded restores the word, for every type but
  the \<open>lossy\<close> ones. Together with the round trip this makes decoder and encoder inverse bijections
  between the words of those types and their instructions.
\<close>

section \<open>Encoding a decoded instruction\<close>

text \<open>
  The types whose decoding forgets or does not look at a field that their encoding fixes: \<open>funct3\<close>
  of \<open>JALR\<close>, \<open>rs2\<close> of the moves and classifications, the number of a control and status register,
  and the misplaced square roots and conversion.
\<close>

definition lossy :: "InstructionType \<Rightarrow> bool" where
  "lossy t \<longleftrightarrow> t \<in> {RV32I JALR, RV32F FSQRTS, RV32D FSQRTD, RV32D FCVTDS, RV32F FCLASSS,
     RV32D FCLASSD, RV32F FMVXW, RV64D FMVXD, RV32F FMVWX, RV64D FMVDX} \<or> (\<exists>c. t = Zicsr c)"

lemmas reencode_simps = read_fields_defs class_defs Let_def encode_def Instruction_init_def
  setImmediate_def setRoundingMode_def setSourceRegister3_def immediate_def lossy_def

lemma encodeI_cong12:
  "(\<And>n. n < 12 \<Longrightarrow> bit v n = bit w n) \<Longrightarrow> encodeI v rs1 f3 rd op = encodeI w rs1 f3 rd op"
proof -
  assume low: "\<And>n. n < 12 \<Longrightarrow> bit v n = bit w n"
  have "take_bit 5 v = take_bit 5 w" "take_bit 7 (drop_bit 5 v) = take_bit 7 (drop_bit 5 w)"
    by (rule word_eq_bitsI; auto simp: bit_take_bit_iff bit_drop_bit_eq low)+
  then show ?thesis by (simp add: encodeI_def)
qed

lemma encodeI_mask: "encodeI (bitand v 0xFFF) rs1 f3 rd op = encodeI v rs1 f3 rd op"
proof (rule encodeI_cong12)
  fix n :: nat assume "n < 12"
  have "bitand v 0xFFF = take_bit 12 v"
    by (simp add: take_bit_eq_mask mask_eq_exp_minus_1)
  then show "bit (bitand v 0xFFF) n = bit v n"
    using \<open>n < 12\<close> by (simp add: bit_take_bit_iff)
qed

lemma encodeI_restore_bit_10:
  assumes "hasBit v 10"
  shows "encodeI (bitor 0x400 (clearBit v 10)) rs1 f3 rd op = encodeI v rs1 f3 rd op"
proof (rule encodeI_cong12)
  fix n :: nat
  have "bit (0x400 :: i32) n \<longleftrightarrow> n = 10"
    using bit_exp_word_iff [of 10 n, where 'a = 32] by auto
  then show "bit (bitor 0x400 (clearBit v 10)) n = bit v n"
    using assms by (auto simp: bit_or_iff bit_clearBit_iff hasBit_iff simp del: bit_numeral_word_iff)
qed

lemma funct3_cases:
  "getFunct3 e = 0 \<or> getFunct3 e = 1 \<or> getFunct3 e = 2 \<or> getFunct3 e = 3 \<or>
   getFunct3 e = 4 \<or> getFunct3 e = 5 \<or> getFunct3 e = 6 \<or> getFunct3 e = 7"
proof -
  have "unat (getFunct3 e) < 8" by simp
  then show ?thesis unfolding word_unat_eq_iff by (simp; linarith)
qed

lemma reencode_branch:
  assumes "decodeBranch e Instruction_init = Inr i" and "getOpcode e = 0b1100011"
  shows "encode i = e"
  using assms encodeB_fields [of e] by (auto simp: reencode_simps split: if_splits)

lemma reencode_load:
  assumes "decodeLoad e Instruction_init = Inr i" and "getOpcode e = 0b0000011"
  shows "encode i = e"
  using assms encodeI_fields [of e] by (auto simp: reencode_simps split: if_splits)

lemma reencode_store:
  assumes "decodeStore e Instruction_init = Inr i" and "getOpcode e = 0b0100011"
  shows "encode i = e"
  using assms encodeS_fields [of e] by (auto simp: reencode_simps split: if_splits)

lemma reencode_opImm32:
  assumes "decodeOpImm32 e Instruction_init = Inr i" and "getOpcode e = 0b0011011"
  shows "encode i = e"
  using assms encodeI_fields [of e]
  by (auto simp: reencode_simps encodeI_restore_bit_10 split: if_splits)

lemma reencode_op:
  assumes "decodeOp e Instruction_init = Inr i" and "getOpcode e = 0b0110011"
  shows "encode i = e"
  using assms encodeR_fields [of e] funct3_cases [of e]
  by (auto simp: reencode_simps split: if_splits)

lemma reencode_opImm:
  assumes "decodeOpImm e Instruction_init = Inr i" and "getOpcode e = 0b0010011"
  shows "encode i = e"
  using assms encodeI_fields [of e] funct3_cases [of e]
  by (auto simp: reencode_simps encodeI_restore_bit_10 split: if_splits)

lemma reencode_op32:
  assumes "decodeOp32 e Instruction_init = Inr i" and "getOpcode e = 0b0111011"
  shows "encode i = e"
  using assms encodeR_fields [of e] by (auto simp: reencode_simps split: if_splits)

lemma reencode_miscMem:
  assumes "decodeMiscMem e Instruction_init = Inr i" and "getOpcode e = 0b0001111"
  shows "encode i = e"
  using assms encodeI_fields [of e] encodeI_mask [of "getImmediateI e"]
  by (auto simp: reencode_simps split: if_splits)

lemma reencode_system:
  assumes "decodeSystem e Instruction_init = Inr i" and "getOpcode e = 0b1110011"
    and "\<not> lossy (itype i)"
  shows "encode i = e"
  using assms encodeI_fields [of e] by (auto simp: reencode_simps split: if_splits)

lemma split_low_2: "bitor (push_bit 2 (drop_bit 2 f)) (bitand f 3) = f" for f :: u8
proof (rule word_eq_bitsI)
  fix n :: nat assume n: "n < LENGTH(8)"
  have k: "bit (3 :: u8) m \<longleftrightarrow> m < 2" for m
    using bit_mask_iff [of 2 m, where 'a = "u8"] by (auto simp: mask_eq_exp_minus_1)
  have "2 \<le> n \<Longrightarrow> Suc (Suc (n - 2)) = n" by arith
  then show "bit (bitor (push_bit 2 (drop_bit 2 f)) (bitand f 3)) n = bit f n"
    using n by (cases "2 \<le> n") (simp_all add: bit_or_iff bit_push_bit_iff bit_drop_bit_eq
        bit_and_iff k del: bit_numeral_word_iff)
qed

lemma ucast_up_down: "ucast (ucast w :: u32) = w" for w :: u8
  by (rule word_eq_bitsI) (simp add: bit_ucast_iff)

lemma amo_split:
  "drop_bit 2 f = g \<Longrightarrow> bitor (push_bit 2 g) (ucast (ucast (bitand f 3) :: u32)) = f" for f :: u8
  using split_low_2 [of f] by (simp add: ucast_up_down)

lemma reencode_amo:
  assumes "decodeAMO e Instruction_init = Inr i" and "getOpcode e = 0b0101111"
  shows "encode i = e"
  using assms encodeR_fields [of e] amo_split [of "getFunct7 e"]
  by (auto simp: reencode_simps split: if_splits)

lemma reencode_loadFP:
  assumes "decodeLoadFP e Instruction_init = Inr i" and "getOpcode e = 0b0000111"
  shows "encode i = e"
  using assms encodeI_fields [of e] by (auto simp: reencode_simps split: if_splits)

lemma reencode_storeFP:
  assumes "decodeStoreFP e Instruction_init = Inr i" and "getOpcode e = 0b0100111"
  shows "encode i = e"
  using assms encodeS_fields [of e] by (auto simp: reencode_simps split: if_splits)

lemma r4_split:
  "bitand f 3 = g \<Longrightarrow> bitor (push_bit 2 (drop_bit 2 f)) g = f" for f :: u8
  using split_low_2 [of f] by simp

lemma reencode_fma:
  assumes "decodeFPFusedMultiplyAdd e op Instruction_init = Inr i" and "getOpcode e = op"
  shows "encode i = e"
  using assms encodeR_fields [of e] r4_split [of "getFunct7 e"]
  by (auto simp: reencode_simps split: if_splits)

text \<open>The two precisions of an \<open>OP-FP\<close> function.\<close>

lemma clearBit_0_cases:
  fixes f :: u8
  assumes "clearBit f 0 = k"
  shows "f = (if hasBit f 0 then setBit k 0 else k)"
  using assms byte_flags.raise_lower [of 0 f] byte_flags.raise_already [of 0 f]
    byte_flags.lower_already [of 0 f] by auto

lemma setBit_0_numeral:
  "setBit (0 :: u8) 0 = 1" "setBit (numeral k :: u8) 0 = bitor (numeral k) 1"
  by (simp_all add: setBit_def)

lemma reencode_opFP:
  assumes "decodeOpFP e Instruction_init = Inr i" and "getOpcode e = 0b1010011"
    and "\<not> lossy (itype i)"
  shows "encode i = e"
  using assms encodeR_fields [of e] clearBit_0_cases [of "getFunct7 e"]
  by (auto simp: reencode_simps setBit_0_numeral split: if_splits)

lemma reencode_U:
  "typed (readFieldsU e Instruction_init) (RV32I LUI) = Inr i \<Longrightarrow> getOpcode e = 0b0110111 \<Longrightarrow>
    encode i = e"
  "typed (readFieldsU e Instruction_init) (RV32I AUIPC) = Inr i \<Longrightarrow> getOpcode e = 0b0010111 \<Longrightarrow>
    encode i = e"
  using encodeU_fields [of e] by (auto simp: reencode_simps)

lemma reencode_J:
  "typed (readFieldsJ e Instruction_init) (RV32I JAL) = Inr i \<Longrightarrow> getOpcode e = 0b1101111 \<Longrightarrow>
    encode i = e"
  using encodeJ_fields [of e] by (auto simp: reencode_simps)

lemmas reencode_rules = reencode_U reencode_J reencode_branch reencode_load reencode_store
  reencode_opImm reencode_opImm32 reencode_op reencode_op32 reencode_miscMem reencode_system
  reencode_amo reencode_loadFP reencode_storeFP reencode_fma reencode_opFP

lemma reencode_instruction:
  assumes dec: "decodeInstruction Instruction_init e = Inr i" and exact: "\<not> lossy (itype i)"
  shows "encode i = e"
proof -
  have jalr: "itype i \<noteq> RV32I JALR" using exact by (auto simp: lossy_def)
  show ?thesis
    using dec exact jalr unfolding decodeInstruction_def Let_def switch.simps opcodeValue.simps
    by (auto split: if_splits dest: reencode_rules simp: typed_def [of _ "RV32I JALR"] unknown_def
        split: prod.splits)
qed

end
