(* ===== verification/DecoderProgram.thy ===== *)
theory DecoderProgram
  imports DecoderReencode
begin

text \<open>
  What the rest of the program relies on about the decoder: a decoded instruction is well-formed
  (registers inside the register file, an immediate where an integer instruction needs one), the
  only failures are the exceptions of the sources, the immediates are in the ranges of their
  formats, and \<open>decodeInstructions\<close> decodes one little-endian word after the other.

  The locale \<open>class_decoder\<close> is the contract of the functions that decode one instruction class;
  every one of them is an instance, and the dispatcher is verified against the contract alone.
\<close>

section \<open>Well-formed decoded instructions\<close>

definition wf_decoded :: "Instruction \<Rightarrow> bool" where
  "wf_decoded i \<longleftrightarrow> wf_instruction i \<and> (\<forall>t. itype i = RV32I t \<longrightarrow> (\<exists>v. operand i = Immediate v))"

text \<open>The instruction that \<^verbatim>\<open>decodeInstructions\<close> hands to the decoder: all fields at their defaults.\<close>

definition fresh :: "Instruction \<Rightarrow> bool" where
  "fresh i \<longleftrightarrow> wf_instruction i \<and> (\<exists>v. operand i = Immediate v)"

lemma fresh_init: "fresh Instruction_init"
  by (simp add: fresh_def) (simp add: Instruction_init_def)

locale class_decoder =
  fixes clazz :: string
    and dec :: "u32 \<Rightarrow> Instruction \<Rightarrow> Instruction result"
  assumes dec_wf: "fresh i \<Longrightarrow> dec e i = Inr i' \<Longrightarrow> wf_decoded i'"
    and dec_error: "fresh i \<Longrightarrow> dec e i = Inl err \<Longrightarrow>
      err = UnknownInstructionException clazz e \<or> err = UnknownInstructionPointer clazz e"
begin

lemma dec_defined: "fresh i \<Longrightarrow> dec e i \<noteq> Inl (UndefinedBehaviour s)"
  using dec_error by blast

lemma dec_immediate:
  "fresh i \<Longrightarrow> dec e i = Inr i' \<Longrightarrow> itype i' = RV32I t \<Longrightarrow> \<exists>v. immediate i' = Inr v"
  using dec_wf [of i e i'] by (auto simp: wf_decoded_def immediate_def)

lemma dec_registers:
  "fresh i \<Longrightarrow> dec e i = Inr i' \<Longrightarrow> unat (destinationRegister i') < registerCount \<and>
    unat (sourceRegister1 i') < registerCount \<and> unat (sourceRegister2 i') < registerCount"
  using dec_wf [of i e i'] by (auto simp: wf_decoded_def wf_instruction_def)

lemma dec_cases:
  assumes "fresh i"
  obtains i' where "dec e i = Inr i'" "wf_decoded i'"
  | "dec e i = Inl (UnknownInstructionException clazz e)"
  | "dec e i = Inl (UnknownInstructionPointer clazz e)"
  using assms dec_wf dec_error by (cases "dec e i") blast+

end

text \<open>A class function that throws no pointer satisfies a stronger contract.\<close>

locale regular_class_decoder = class_decoder +
  assumes dec_regular: "fresh i \<Longrightarrow> dec e i \<noteq> Inl (UnknownInstructionPointer clazz e)"
begin

lemma dec_error_regular: "fresh i \<Longrightarrow> dec e i = Inl err \<Longrightarrow> err = UnknownInstructionException clazz e"
  using dec_error dec_regular by blast

end

lemma drop_bit_2_less: "unat f < 128 \<Longrightarrow> unat (drop_bit 2 f) < 32" for f :: u8
  by (simp add: drop_bit_eq_div unat_div)

lemmas decoder_contract_simps = fresh_def wf_decoded_def wf_instruction_def registerCount_def
  floatRegisterCount_def read_fields_defs class_defs Let_def setImmediate_def setRoundingMode_def
  setSourceRegister3_def immediate_def drop_bit_2_less

interpretation branch: regular_class_decoder "''BRANCH''" decodeBranch
  by unfold_locales (auto simp: decoder_contract_simps split: if_splits)

interpretation load: regular_class_decoder "''LOAD''" decodeLoad
  by unfold_locales (auto simp: decoder_contract_simps split: if_splits)

interpretation store: regular_class_decoder "''STORE''" decodeStore
  by unfold_locales (auto simp: decoder_contract_simps split: if_splits)

interpretation opImm: regular_class_decoder "''OP-IMM''" decodeOpImm
  by unfold_locales (auto simp: decoder_contract_simps split: if_splits)

interpretation opImm32: regular_class_decoder "''OP-IMM32''" decodeOpImm32
  by unfold_locales (auto simp: decoder_contract_simps split: if_splits)

interpretation op: regular_class_decoder "''OP''" decodeOp
  by unfold_locales (auto simp: decoder_contract_simps split: if_splits)

interpretation op32: regular_class_decoder "''OP-32''" decodeOp32
  by unfold_locales (auto simp: decoder_contract_simps split: if_splits)

interpretation miscMem: regular_class_decoder "''MISC-MEM''" decodeMiscMem
  by unfold_locales (auto simp: decoder_contract_simps split: if_splits)

interpretation system: regular_class_decoder "''SYSTEM''" decodeSystem
  by unfold_locales (auto simp: decoder_contract_simps split: if_splits)

interpretation amo: regular_class_decoder "''AMO''" decodeAMO
  by unfold_locales (auto simp: decoder_contract_simps split: if_splits)

interpretation loadFP: regular_class_decoder "''LOAD-FP''" decodeLoadFP
  by unfold_locales (auto simp: decoder_contract_simps split: if_splits)

interpretation storeFP: regular_class_decoder "''STORE-FP''" decodeStoreFP
  by unfold_locales (auto simp: decoder_contract_simps split: if_splits)

interpretation fma: regular_class_decoder "''FP-FUSED-MULTIPLY-ADD''"
  "\<lambda>e. decodeFPFusedMultiplyAdd e opcode" for opcode
  by unfold_locales (auto simp: decoder_contract_simps split: if_splits)

interpretation opFP: class_decoder "''OP-FP''" decodeOpFP
  by unfold_locales (auto simp: decoder_contract_simps split: if_splits)

section \<open>The dispatcher\<close>

lemma wf_decoded_U: "fresh i \<Longrightarrow> wf_decoded ((readFieldsU e i)\<lparr>itype := t\<rparr>)"
  by (auto simp: decoder_contract_simps)

lemma wf_decoded_J: "fresh i \<Longrightarrow> wf_decoded ((readFieldsJ e i)\<lparr>itype := t\<rparr>)"
  by (auto simp: decoder_contract_simps)

lemma wf_decoded_I: "fresh i \<Longrightarrow> readFieldsI e i = (i', f) \<Longrightarrow> wf_decoded (i'\<lparr>itype := t\<rparr>)"
  by (auto simp: decoder_contract_simps)

lemmas class_wf = branch.dec_wf load.dec_wf store.dec_wf opImm.dec_wf opImm32.dec_wf op.dec_wf
  op32.dec_wf miscMem.dec_wf system.dec_wf amo.dec_wf loadFP.dec_wf storeFP.dec_wf fma.dec_wf
  opFP.dec_wf

lemmas class_error = branch.dec_error_regular load.dec_error_regular store.dec_error_regular
  opImm.dec_error_regular opImm32.dec_error_regular op.dec_error_regular op32.dec_error_regular
  miscMem.dec_error_regular system.dec_error_regular amo.dec_error_regular
  loadFP.dec_error_regular storeFP.dec_error_regular fma.dec_error_regular

lemma decodeInstruction_wf:
  assumes "fresh i" and "decodeInstruction i e = Inr i'"
  shows "wf_decoded i'"
proof -
  have "\<forall>i'. decodeInstruction i e = Inr i' \<longrightarrow> wf_decoded i'"
    unfolding decodeInstruction_def Let_def
    by (rule switch_casesI)
      (unfold list.set insert_iff prod.inject empty_iff, elim disjE conjE FalseE,
       simp_all add: typed_def unknown_def wf_decoded_U [OF assms(1)] wf_decoded_J [OF assms(1)]
         wf_decoded_I [OF assms(1)] class_wf [OF assms(1)] split: prod.splits)
  then show ?thesis using assms(2) by blast
qed

lemma decodeInstruction_error:
  assumes "fresh i" and "decodeInstruction i e = Inl err"
  shows "(\<exists>c. err = UnknownInstructionException c e) \<or>
    (err = UnknownInstructionPointer ''OP-FP'' e \<and> getOpcode e = 0b1010011 \<and>
     decodeOpFP e i = Inl err)"
proof -
  have "\<forall>err. decodeInstruction i e = Inl err \<longrightarrow> (\<exists>c. err = UnknownInstructionException c e) \<or>
    (err = UnknownInstructionPointer ''OP-FP'' e \<and> getOpcode e = 0b1010011 \<and> decodeOpFP e i = Inl err)"
    unfolding decodeInstruction_def Let_def
    by (rule switch_casesI)
      (unfold list.set insert_iff prod.inject empty_iff, elim disjE conjE FalseE,
       auto simp: typed_def unknown_def opcodeValue.simps split: prod.splits
         dest: class_error [OF assms(1)] opFP.dec_error [OF assms(1)])
  then show ?thesis using assms(2) by blast
qed

text \<open>When \<open>decodeOpFP\<close> throws the pointer of its \<^verbatim>\<open>throw new\<close>.\<close>

lemma hasBit_0_setBit: "hasBit f 0 \<Longrightarrow> setBit (clearBit f 0) 0 = f" for f :: u8
  by (simp add: byte_flags.raise_lower byte_flags.raise_already)

lemma typed_not_Inl: "typed i t \<noteq> Inl err"
  by (simp add: typed_def)

lemma unknown_not_pointer: "unknown c e \<noteq> Inl (UnknownInstructionPointer c' w)"
  by (simp add: unknown_def)

lemma opFP_pointer_only:
  assumes "decodeOpFP e i = Inl (UnknownInstructionPointer c w)"
  shows "c = ''OP-FP'' \<and> w = e \<and> clearBit (getFunct7 e) 0 = 0b1110000 \<and>
    getFunct3 e \<noteq> 0 \<and> getFunct3 e \<noteq> 1"
proof -
  let ?P = "\<lambda>v. v = Inl (UnknownInstructionPointer c w) \<longrightarrow>
    c = ''OP-FP'' \<and> w = e \<and> clearBit (getFunct7 e) 0 = 0b1110000 \<and>
    getFunct3 e \<noteq> 0 \<and> getFunct3 e \<noteq> 1"
  have "?P (decodeOpFP e i)"
    unfolding decodeOpFP_def readFieldsR_def Let_def prod.case
    by (rule switch_casesI [where P = ?P])
      (unfold list.set insert_iff prod.inject empty_iff, elim disjE conjE FalseE,
       simp_all only: switch.simps typed_not_Inl unknown_not_pointer if_False if_True simp_thms
         sum.inject error.inject split: if_split, blast)
  then show ?thesis using assms by blast
qed

lemma opFP_pointer:
  assumes "clearBit (getFunct7 e) 0 = 0b1110000" and "getFunct3 e \<noteq> 0" and "getFunct3 e \<noteq> 1"
  shows "decodeOpFP e i = Inl (UnknownInstructionPointer ''OP-FP'' e)"
  using assms by (simp add: decodeOpFP_def readFieldsR_def Let_def)

lemma decodeInstruction_pointer_iff:
  assumes "fresh i"
  shows "decodeInstruction i e = Inl (UnknownInstructionPointer c w) \<longleftrightarrow>
    c = ''OP-FP'' \<and> w = e \<and> getOpcode e = 0b1010011 \<and>
    clearBit (getFunct7 e) 0 = 0b1110000 \<and> getFunct3 e \<noteq> 0 \<and> getFunct3 e \<noteq> 1" (is "?l = ?r")
proof
  assume l: ?l
  from decodeInstruction_error [OF assms l] opFP_pointer_only [of e i c w] show ?r by auto
next
  assume r: ?r
  then have "decodeInstruction i e = decodeOpFP e i"
    by (simp add: decodeInstruction_def Let_def opcodeValue.simps)
  with r opFP_pointer [of e i] show ?l by simp
qed

section \<open>Programs\<close>

text \<open>The decoding of one word of a program, and the words of a program.\<close>

definition decodeWord :: "u32 \<Rightarrow> Instruction result" where
  "decodeWord w =
     (if bitand w 0b11 \<noteq> 0b11 then Inl (RuntimeError ''Compressed instructions are not supported'')
      else decodeInstruction Instruction_init w)"

definition programWord :: "u8 list \<Rightarrow> nat \<Rightarrow> u32" where
  "programWord program k = objectOfBytes (slice_of (4 * k) 4 program)"

lemma compressed_word:
  assumes "p + 4 \<le> length program"
  shows "isEncodingCompressed program p =
    Inr (bitand (objectOfBytes (slice_of p 4 program) :: u32) 0b11 \<noteq> 0b11)"
proof -
  have k8: "bit (3 :: u8) n \<longleftrightarrow> n < 2" and k32: "bit (3 :: u32) n \<longleftrightarrow> n < 2" for n
    using bit_mask_iff [of 2 n, where 'a = "u8"] bit_mask_iff [of 2 n, where 'a = "u32"]
    by (auto simp: mask_eq_exp_minus_1)
  obtain a b c d where slice: "slice_of p 4 program = [a, b, c, d]"
    using assms length_4_conv [of "slice_of p 4 program"] by auto
  have head: "slice_of p 1 program ! 0 = a"
    using nth_slice_of [of p 4 program 0] nth_slice_of [of p 1 program 0] assms slice by simp
  let ?w = "objectOfBytes [a, b, c, d] :: u32"
  have low: "bit ?w n \<longleftrightarrow> bit a n" if "n < 2" for n
    using that by (simp add: bit_or_iff bit_push_bit_iff bit_ucast_iff)
  have small: "n < 2 \<Longrightarrow> n < 8" "n < 2 \<Longrightarrow> n < 32" for n :: nat by simp_all
  have "bitand a 3 = 3 \<longleftrightarrow> (\<forall>n < 2. bit a n)"
    by (auto simp: bit_eq_iff bit_and_iff k8 simp del: bit_numeral_word_iff intro: small)
  moreover have "bitand ?w 3 = 3 \<longleftrightarrow> (\<forall>n < 2. bit ?w n)"
    by (auto simp: bit_eq_iff bit_and_iff k32 simp del: bit_numeral_word_iff objectOfBytes.simps
        intro: small)
  ultimately have "bitand a 3 = 3 \<longleftrightarrow> bitand ?w 3 = 3"
    using low by simp
  then show ?thesis
    using assms head slice by (simp add: isEncodingCompressed_def readBytes_def Let_def)
qed

lemma loadU32_word:
  "p + 4 \<le> length program \<Longrightarrow> loadU32 nl program p = Inr (objectOfBytes (slice_of p 4 program))"
  by (simp add: codec_forms readBytes_def)

lemma decodeLoop_step:
  assumes "k * 4 + 4 \<le> length program"
  shows "decodeLoop nl program (4 * k) instrs =
    bind_result (decodeWord (programWord program k)) (\<lambda>i. decodeLoop nl program (4 * Suc k) (instrs @ [i]))"
proof -
  have "4 * k + 4 \<le> length program" using assms by simp
  note facts = compressed_word [OF this] loadU32_word [OF this, of nl]
  show ?thesis
    using assms
    by (subst decodeLoop.simps)
      (simp add: facts decodeWord_def programWord_def add.commute)
qed

lemma decodeLoop_spec:
  assumes "length program = 4 * n" and "k \<le> n"
  shows "decodeLoop nl program (4 * k) instrs =
    bind_result (map_result decodeWord (map (programWord program) [k..<n])) (\<lambda>is. Inr (instrs @ is))"
  using assms(2)
proof (induction "n - k" arbitrary: k instrs)
  case 0
  then have "k = n" by simp
  then show ?case using assms(1) by (simp add: decodeLoop.simps [of nl program])
next
  case (Suc m)
  then have k: "k < n" "m = n - Suc k" "Suc k \<le> n" by simp_all
  then have "k * 4 + 4 \<le> length program" using assms(1) by simp
  note step = decodeLoop_step [OF this, of nl instrs]
  have rest: "decodeLoop nl program (4 * Suc k) (instrs @ [i]) = bind_result
      (map_result decodeWord (map (programWord program) [Suc k..<n])) (\<lambda>is. Inr ((instrs @ [i]) @ is))" for i
    using k(2,3) by (rule Suc.hyps(1))
  show ?case
    unfolding step rest using k(1) by (simp add: upt_conv_Cons bind_result_assoc)
qed

lemma decodeInstructions_words:
  assumes "length program = 4 * n"
  shows "decodeInstructions nl program = map_result decodeWord (map (programWord program) [0..<n])"
  using decodeLoop_spec [OF assms, of 0 nl "[]"] assms by (simp add: decodeInstructions_def)

lemma decodeInstructions_Inr_iff:
  assumes "length program = 4 * n"
  shows "decodeInstructions nl program = Inr instrs \<longleftrightarrow>
    length instrs = n \<and> (\<forall>k < n. decodeWord (programWord program k) = Inr (instrs ! k))"
  unfolding decodeInstructions_words [OF assms] map_result_Inr_iff
  by (auto simp: list_all2_conv_all_nth)

lemma decodeInstructions_wf:
  assumes "decodeInstructions nl program = Inr instrs" and "i \<in> set instrs"
  shows "wf_decoded i"
proof -
  have "length program mod 4 = 0"
    using assms(1) by (auto simp: decodeInstructions_def split: if_splits)
  then obtain n where n: "length program = 4 * n" by (metis mod_0_imp_dvd dvdE)
  from assms(2) obtain k where "k < length instrs" "i = instrs ! k" by (metis in_set_conv_nth)
  with assms(1) decodeInstructions_Inr_iff [OF n, of nl instrs]
  have "decodeWord (programWord program k) = Inr i" by simp
  then show ?thesis
    by (auto simp: decodeWord_def split: if_splits intro: decodeInstruction_wf [OF fresh_init])
qed

end
