(* ===== verification/DecoderProperties.thy ===== *)
theory DecoderProperties
  imports DecoderProgram
begin

text \<open>
  The properties of the instruction decoder, with an application of each at a concrete instruction
  word. The lemmas they rest on are in \<open>DecoderCorrect\<close>, \<open>DecoderReencode\<close> and \<open>DecoderProgram\<close>.
\<close>

section \<open>Decoding and encoding\<close>

text \<open>
  C1: Decoding inverts encoding. An instruction whose fields fit its format is encoded by the tables
  of the instruction set manual and decoded by \<^verbatim>\<open>decodeInstruction\<close> to itself, for every instruction
  type, except exactly the instructions for which \<open>diverges\<close> holds (square roots, divisions by
  register 0, the conversion of a single to a double, accesses to a CSR with a number other than 0, and
  fences that have the immediate of \<open>FENCE.TSO\<close> or \<open>PAUSE\<close> and a register other than 0).
\<close>

theorem decode_encode:
  assumes "encodable i"
  shows "decodeInstruction Instruction_init (encode i) = Inr i \<longleftrightarrow> \<not> diverges i"
  using assms by (rule roundtrip_iff)

lemma decode_encode_witness:
  "decodeInstruction Instruction_init (encode (Instruction_init\<lparr>operand := Immediate (- 7),
      destinationRegister := 3, sourceRegister1 := 4, itype := RV32I ADDI\<rparr>)) =
    Inr (Instruction_init\<lparr>operand := Immediate (- 7), destinationRegister := 3, sourceRegister1 := 4,
      itype := RV32I ADDI\<rparr>)"
proof -
  let ?i = "Instruction_init\<lparr>operand := Immediate (- 7), destinationRegister := 3,
    sourceRegister1 := 4, itype := RV32I ADDI\<rparr>"
  have "encodable ?i" by (simp add: encodable_def Instruction_init_def)
  moreover have "\<not> diverges ?i" by (simp add: diverges_def)
  ultimately show ?thesis using decode_encode [of ?i] by blast
qed

text \<open>
  C2: What the decoder makes of the instructions that C1 excludes: the true square roots and the
  conversion of a single to a double are rejected, a division whose divisor is register 0 is taken for
  a square root, an access to a control and status register loses the number of the register, and a
  fence with the immediate of \<open>FENCE.TSO\<close> or \<open>PAUSE\<close> is taken for that instruction, whatever its
  registers.
\<close>

theorem decode_divergent:
  assumes "encodable i" and "diverges i"
  shows "decodeInstruction Instruction_init (encode i) = divergent_result i"
  using assms by (rule divergent_decode)

lemma decode_divergent_witness:
  "decodeInstruction Instruction_init (encode (Instruction_init\<lparr>operand := FloatOp 0 None,
      destinationRegister := 1, sourceRegister1 := 2, itype := RV32F FDIVS\<rparr>)) =
    Inr (Instruction_init\<lparr>operand := FloatOp 0 None, destinationRegister := 1,
      sourceRegister1 := 2, itype := RV32F FSQRTS\<rparr>)"
proof -
  let ?i = "Instruction_init\<lparr>operand := FloatOp 0 None, destinationRegister := 1,
    sourceRegister1 := 2, itype := RV32F FDIVS\<rparr>"
  have "encodable ?i" by (simp add: encodable_def Instruction_init_def)
  moreover have "diverges ?i" by (simp add: diverges_def Instruction_init_def)
  ultimately show ?thesis using decode_divergent [of ?i] by (simp add: divergent_result_def)
qed

text \<open>
  C3: Encoding inverts decoding. Every word that decodes to an instruction whose type is not
  \<open>lossy\<close> is the encoding of that instruction by the tables of the manual, and no other word decodes
  to the same instruction, so nothing of such a word is lost. (The fields need not fit the format: the
  decoder accepts words that the manual reserves, such as an \<open>SLLI\<close> whose upper immediate bits are
  not zero, and keeps those bits in the immediate.)
\<close>

theorem encode_decode:
  assumes "decodeInstruction Instruction_init e = Inr i" and "\<not> lossy (itype i)"
  shows "encode i = e \<and> (\<forall>e'. decodeInstruction Instruction_init e' = Inr i \<longrightarrow> e' = e)"
  using assms reencode_instruction by metis

lemma encode_decode_witness:
  "encode (Instruction_init\<lparr>operand := Immediate 0x12345000, destinationRegister := 5\<rparr>) = 0x123452b7 \<and>
   decodeInstruction Instruction_init 0x123452b6 \<noteq>
     Inr (Instruction_init\<lparr>operand := Immediate 0x12345000, destinationRegister := 5\<rparr>)"
proof -
  have "decodeInstruction Instruction_init 0x123452b7 =
      Inr (Instruction_init\<lparr>operand := Immediate 0x12345000, destinationRegister := 5\<rparr>)"
    by (simp add: decodeInstruction_def opcodeValue.simps getOpcode_def bitsAt_eq readFieldsU_def
        typed_def getImmediateU_def getDestinationRegister_def setImmediate_def Instruction_init_def
        take_bit_eq_mod drop_bit_eq_div)
  moreover have "\<not> lossy (itype (Instruction_init\<lparr>operand := Immediate 0x12345000,
      destinationRegister := 5\<rparr>))"
    by (simp add: lossy_def Instruction_init_def)
  ultimately have
    "encode (Instruction_init\<lparr>operand := Immediate 0x12345000, destinationRegister := 5\<rparr>) = 0x123452b7 \<and>
     (\<forall>e'. decodeInstruction Instruction_init e' =
        Inr (Instruction_init\<lparr>operand := Immediate 0x12345000, destinationRegister := 5\<rparr>) \<longrightarrow>
      e' = 0x123452b7)"
    by (rule encode_decode)
  then show ?thesis by fastforce
qed

section \<open>Immediates\<close>

lemma signExtend_range:
  fixes v :: "'a::len word"
  assumes "unat s < LENGTH('a)"
  shows "- (2 ^ unat s) \<le> sint (signExtend v s)" and "sint (signExtend v s) < 2 ^ unat s"
proof -
  have "signed_take_bit (unat s) (signExtend v s) = signExtend v s"
    by (simp add: signExtend_eq [OF assms])
  then show "- (2 ^ unat s) \<le> sint (signExtend v s)" "sint (signExtend v s) < 2 ^ unat s"
    using signed_range_iff [OF assms, of "signExtend v s"] by simp_all
qed

lemma signExtend_even:
  fixes v :: "'a::len word"
  assumes "unat s < LENGTH('a)" and "\<not> bit v 0"
  shows "even (sint (signExtend v s))"
  using assms by (simp add: even_sint_iff signExtend_eq bit_signed_take_bit_iff)

text \<open>
  C4: The immediates of the six formats for every instruction word: the I and S formats give a
  12-bit signed number, branches an even 13-bit offset, \<open>JAL\<close> an even 21-bit offset, and the U format
  a multiple of 4096.
\<close>

theorem immediate_ranges:
  "- 2048 \<le> sint (getImmediateI e) \<and> sint (getImmediateI e) < 2048 \<and>
   - 2048 \<le> sint (getImmediateS e) \<and> sint (getImmediateS e) < 2048 \<and>
   - 4096 \<le> sint (getImmediateB e) \<and> sint (getImmediateB e) < 4096 \<and> even (sint (getImmediateB e)) \<and>
   - 1048576 \<le> sint (getImmediateJ e) \<and> sint (getImmediateJ e) < 1048576 \<and> even (sint (getImmediateJ e)) \<and>
   4096 dvd uint (getImmediateU e)"
proof -
  have I: "- (2 ^ 11) \<le> sint (getImmediateI e)" "sint (getImmediateI e) < 2 ^ 11"
    unfolding getImmediateI_def using signExtend_range [of 11 "bitsAt e 20 31"] by simp_all
  have S: "- (2 ^ 11) \<le> sint (getImmediateS e)" "sint (getImmediateS e) < 2 ^ 11"
    unfolding getImmediateS_def
    using signExtend_range [of 11 "bitor (bitsAt e 7 11) (push_bit 5 (bitsAt e 25 31))"] by simp_all
  let ?b = "bitor (bitor (bitor (push_bit 1 (bitsAt e 8 11)) (push_bit 5 (bitsAt e 25 30)))
        (push_bit 11 (bitsAt e 7 7))) (push_bit 12 (bitsAt e 31 31))"
  have B: "- (2 ^ 12) \<le> sint (getImmediateB e)" "sint (getImmediateB e) < 2 ^ 12"
    unfolding getImmediateB_def using signExtend_range [of 12 ?b] by simp_all
  have Be: "even (sint (getImmediateB e))"
    unfolding getImmediateB_def
    by (rule signExtend_even) (simp, unfold bit_or_iff bit_push_bit_iff, simp)
  let ?j = "bitor (bitor (bitor (push_bit 1 (bitsAt e 21 30)) (push_bit 11 (bitsAt e 20 20)))
        (push_bit 12 (bitsAt e 12 19))) (push_bit 20 (bitsAt e 31 31))"
  have J: "- (2 ^ 20) \<le> sint (getImmediateJ e)" "sint (getImmediateJ e) < 2 ^ 20"
    unfolding getImmediateJ_def using signExtend_range [of 20 ?j] by simp_all
  have Je: "even (sint (getImmediateJ e))"
    unfolding getImmediateJ_def
    by (rule signExtend_even) (simp, unfold bit_or_iff bit_push_bit_iff, simp)
  have "take_bit 12 (getImmediateU e) = 0"
    by (rule word_eq_bitsI) (simp add: getImmediateU_def bit_take_bit_iff bit_push_bit_iff)
  then have "take_bit 12 (uint (getImmediateU e)) = 0"
    by (metis unsigned_0 unsigned_take_bit_eq)
  then have U: "4096 dvd uint (getImmediateU e)" by (simp add: take_bit_eq_mod mod_eq_0_iff_dvd)
  show ?thesis using I S B Be J Je U by simp
qed

section \<open>Well-formed results and errors\<close>

text \<open>
  C5: Every instruction of a decoded program names registers inside the register files, and every
  instruction of the base integer set carries an immediate, so that the emulator never reads the
  inactive member of the operand union.
\<close>

theorem decoded_program_wf:
  assumes "decodeInstructions nl program = Inr instrs"
  shows "\<forall>i \<in> set instrs. wf_instruction i \<and> (\<forall>t. itype i = RV32I t \<longrightarrow> (\<exists>v. immediate i = Inr v))"
proof (intro ballI conjI allI impI)
  fix i t
  assume "i \<in> set instrs"
  then have wf: "wf_decoded i" by (rule decodeInstructions_wf [OF assms])
  then show "wf_instruction i" by (simp add: wf_decoded_def)
  assume "itype i = RV32I t"
  with wf obtain v where "operand i = Immediate v" by (auto simp: wf_decoded_def)
  then show "\<exists>v. immediate i = Inr v" by (simp add: immediate_def)
qed

lemma word_0x13: "decodeInstruction Instruction_init 0x00000013 = Inr (Instruction_init\<lparr>itype := RV32I ADDI\<rparr>)"
  by (simp add: decodeInstruction_def opcodeValue.simps getOpcode_def bitsAt_eq decodeOpImm_def
      readFieldsI_def typed_def getImmediateI_def getFunct3_def getSourceRegister1_def
      getDestinationRegister_def setImmediate_def Instruction_init_def take_bit_eq_mod drop_bit_eq_div
      signExtend_eq)

lemma program_nop:
  "decodeInstructions nl [0x13, 0, 0, 0] = Inr [Instruction_init\<lparr>itype := RV32I ADDI\<rparr>]"
proof -
  have "programWord [0x13, 0, 0, 0] 0 = 0x13"
    by (simp add: programWord_def slice_of_def)
  then have "decodeWord (programWord [0x13, 0, 0, 0] 0) = Inr (Instruction_init\<lparr>itype := RV32I ADDI\<rparr>)"
    by (simp add: decodeWord_def word_0x13)
  then show ?thesis
    using decodeInstructions_words [of "[0x13, 0, 0, 0]" 1 nl] by simp
qed

lemma decoded_program_wf_witness:
  "wf_instruction (Instruction_init\<lparr>itype := RV32I ADDI\<rparr>) \<and>
    (\<exists>v. immediate (Instruction_init\<lparr>itype := RV32I ADDI\<rparr>) = Inr v)"
  using decoded_program_wf [OF program_nop] by simp

text \<open>
  C6: A program whose size is a multiple of four decodes to a list of instructions iff every one of its
  little-endian words decodes, word by word and in order; on a host of either endianness. A program
  of any other size is rejected with the message that names its size.
\<close>

theorem decode_program:
  assumes "length program = 4 * n + r" and "r < 4"
  shows "(decodeInstructions nl program = Inr instrs \<longleftrightarrow>
      r = 0 \<and> length instrs = n \<and> (\<forall>k < n. decodeWord (programWord program k) = Inr (instrs ! k))) \<and>
    (r \<noteq> 0 \<longrightarrow> decodeInstructions nl program =
      Inl (RuntimeError (''Program size not divisible by 4: '' @ to_string (length program))))"
  using assms decodeInstructions_Inr_iff [of program n nl instrs]
  by (cases "r = 0") (simp_all add: decodeInstructions_def)

lemma decode_program_witness:
  "decodeWord (programWord [0x13, 0, 0, 0] 0) = Inr (Instruction_init\<lparr>itype := RV32I ADDI\<rparr>) \<and>
    decodeInstructions True [1, 2, 3] =
      Inl (RuntimeError (''Program size not divisible by 4: '' @ to_string 3))"
proof
  show "decodeWord (programWord [0x13, 0, 0, 0] 0) = Inr (Instruction_init\<lparr>itype := RV32I ADDI\<rparr>)"
    using decode_program [of "[0x13, 0, 0, 0]" 1 0 True "[Instruction_init\<lparr>itype := RV32I ADDI\<rparr>]"]
      program_nop [of True] by simp
  show "decodeInstructions True [1, 2, 3] =
      Inl (RuntimeError (''Program size not divisible by 4: '' @ to_string 3))"
    using decode_program [of "[1, 2, 3]" 0 3 True "[]"] by (simp add: numeral_3_eq_3)
qed

text \<open>
  C7: The ways decoding one instruction can fail: an \<^verbatim>\<open>UnknownInstructionException\<close> object, or, for the
  one statement \<^verbatim>\<open>throw new\<close>, a pointer to one, which no handler of the program catches. The
  pointer is thrown exactly for the words of opcode OP-FP with \<open>funct7\<close> 111000x and \<open>funct3\<close>
  neither 0 nor 1. No decoding has undefined behaviour.
\<close>

theorem decode_failures:
  "(\<forall>err. decodeInstruction Instruction_init e = Inl err \<longrightarrow>
      (\<exists>c. err = UnknownInstructionException c e) \<or> err = UnknownInstructionPointer ''OP-FP'' e) \<and>
   (decodeInstruction Instruction_init e = Inl (UnknownInstructionPointer ''OP-FP'' e) \<longleftrightarrow>
      getOpcode e = 0b1010011 \<and> clearBit (getFunct7 e) 0 = 0b1110000 \<and> getFunct3 e \<noteq> 0 \<and> getFunct3 e \<noteq> 1)"
  using decodeInstruction_error [OF fresh_init, of e]
    decodeInstruction_pointer_iff [OF fresh_init, of e "''OP-FP''" e] by blast

lemma decode_failures_witness:
  "decodeInstruction Instruction_init 0xE0002053 = Inl (UnknownInstructionPointer ''OP-FP'' 0xE0002053)"
proof -
  have "getOpcode 0xE0002053 = 0b1010011" "clearBit (getFunct7 0xE0002053) 0 = 0b1110000"
    "getFunct3 0xE0002053 = 2"
    by (simp_all add: getOpcode_def getFunct3_def getFunct7_def bitsAt_eq clearBit_def
        take_bit_eq_mod drop_bit_eq_div)
  then show ?thesis using decode_failures [of "0xE0002053"] by simp
qed

end
