(* ===== verification/Arena.thy ===== *)
theory Arena
  imports Memory
begin

text \<open>
  The guest memory, \<^verbatim>\<open>src/src/riscv/utils/arena.hpp\<close>: a byte vector of fixed size and a count of
  free bytes, from which objects are handed out. A pointer into the vector is its offset; the
  address of the first byte, which the host's allocator chose, is part of the state because
  alignment depends on it. Addresses and sizes of existing objects are natural numbers; the one
  product that can leave \<^verbatim>\<open>size_t\<close> is taken modulo \<open>2 ^ 64\<close>.

  The locale \<open>bump_allocator\<close> states what the clients of the arena use of it.
\<close>

record Arena =
  dataAddress :: nat
  storage :: "u8 list"
  freeSpace :: nat

text \<open>The constructor: \<^verbatim>\<open>std::vector\<close> fills the storage with zeros.\<close>

definition Arena_init :: "nat \<Rightarrow> nat \<Rightarrow> Arena" where
  "Arena_init address capacity =
     \<lparr>dataAddress = address, storage = replicate capacity 0, freeSpace = capacity\<rparr>"

definition raw :: "Arena \<Rightarrow> u8 list" where
  "raw a = storage a"

definition getFreeSpace :: "Arena \<Rightarrow> nat" where
  "getFreeSpace a = freeSpace a"

definition getFreeOffset :: "Arena \<Rightarrow> nat" where
  "getFreeOffset a = length (storage a) - freeSpace a"

text \<open>
  \<^verbatim>\<open>std::align\<close>: the first aligned address from \<open>ptr\<close> on, when \<open>bytes\<close> bytes from there fit in the
  \<open>space\<close> bytes at \<open>ptr\<close>, with the space that is left after the padding (and only the padding).
\<close>

definition std_align :: "nat \<Rightarrow> nat \<Rightarrow> nat \<Rightarrow> nat \<Rightarrow> (nat \<times> nat) option" where
  "std_align alignment bytes ptr space =
     (let aligned = (ptr + alignment - 1) div alignment * alignment; padding = aligned - ptr
      in if bytes + padding \<le> space then Some (aligned, space - padding) else None)"

definition getFreeOffsetAlignedTo :: "nat \<Rightarrow> nat \<Rightarrow> Arena \<Rightarrow> nat" where
  "getFreeOffsetAlignedTo alignment bytes a =
     (case std_align alignment bytes (dataAddress a + getFreeOffset a) (freeSpace a) of
        None \<Rightarrow> length (storage a)
      | Some (ptr, free) \<Rightarrow> ptr - dataAddress a)"

definition allocateRaw :: "nat \<Rightarrow> nat \<Rightarrow> Arena \<Rightarrow> nat result \<times> Arena" where
  "allocateRaw bytes alignment a =
     (case std_align alignment bytes (dataAddress a + getFreeOffset a) (freeSpace a) of
        None \<Rightarrow> (Inl BadAlloc, a)
      | Some (ptr, space) \<Rightarrow> (Inr (ptr - dataAddress a), a\<lparr>freeSpace := space\<rparr>))"

text \<open>
  The two \<open>allocate\<close> templates. The type of the object is given by its size, its alignment and
  what its constructor does: \<open>construct\<close> is the object representation it leaves, or what it throws.
  The pointer (or span) of the result is an offset into the storage.
\<close>

definition constructAt :: "u8 list result \<Rightarrow> nat \<Rightarrow> Arena \<Rightarrow> unit result \<times> Arena" where
  "constructAt object ptr a =
     (case bind_result object (writeBytes (storage a) ptr) of
        Inl e \<Rightarrow> (Inl e, a)
      | Inr mem \<Rightarrow> (Inr (), a\<lparr>storage := mem\<rparr>))"

definition allocateObject :: "nat \<Rightarrow> nat \<Rightarrow> u8 list result \<Rightarrow> Arena \<Rightarrow> nat result \<times> Arena" where
  "allocateObject bytes alignment object a =
     (case allocateRaw bytes alignment a of
        (Inl e, a) \<Rightarrow> (Inl e, a)
      | (Inr ptr, a) \<Rightarrow> (case constructAt object ptr a of
            (Inl e, a) \<Rightarrow> (Inl e, a)
          | (Inr _, a) \<Rightarrow> (Inr ptr, a)))"

text \<open>
  The construction loop from item \<open>i\<close> on, with \<open>n\<close> items to go: it returns the loop variable too,
  because the \<^verbatim>\<open>catch\<close> clause counts down from it.
\<close>

fun constructLoop ::
    "nat \<Rightarrow> (nat \<Rightarrow> u8 list result) \<Rightarrow> nat \<Rightarrow> nat \<Rightarrow> nat \<Rightarrow> Arena \<Rightarrow> unit result \<times> nat \<times> Arena" where
  "constructLoop itemBytes construct ptr 0 i a = (Inr (), i, a)"
| "constructLoop itemBytes construct ptr (Suc n) i a =
     (case constructAt (construct i) (ptr + i * itemBytes) a of
        (Inl e, a) \<Rightarrow> (Inl e, i, a)
      | (Inr _, a) \<Rightarrow> constructLoop itemBytes construct ptr n (Suc i) a)"

text \<open>The indices that \<^verbatim>\<open>for (; i != 0; i--)\<close> visits.\<close>

fun destroyLoop :: "nat \<Rightarrow> nat list" where
  "destroyLoop 0 = []"
| "destroyLoop (Suc i) = Suc i # destroyLoop i"

fun isException :: "error \<Rightarrow> bool" where
  "isException (UndefinedBehaviour _) = False"
| "isException _ = True"

text \<open>
  The span of a successful allocation is the offset of its first item and the item count; the
  middle component lists the indices of the items whose destructor was called.
\<close>

definition allocateArray ::
    "nat \<Rightarrow> nat \<Rightarrow> (nat \<Rightarrow> u8 list result) \<Rightarrow> nat \<Rightarrow> Arena
      \<Rightarrow> (nat \<times> nat) result \<times> nat list \<times> Arena" where
  "allocateArray itemBytes alignment construct itemCount a =
     (case allocateRaw (itemBytes * itemCount mod 2 ^ 64) alignment a of
        (Inl e, a) \<Rightarrow> (Inl e, [], a)
      | (Inr ptr, a) \<Rightarrow>
          (case constructLoop itemBytes construct ptr itemCount 0 a of
             (Inl e, i, a) \<Rightarrow> (Inl e, if isException e then destroyLoop i else [], a)
           | (Inr _, i, a) \<Rightarrow> (Inr (ptr, itemCount), [], a)))"

text \<open>Fundamental types are value-initialised: all their bytes become zero.\<close>

definition zeroItem :: "nat \<Rightarrow> nat \<Rightarrow> u8 list result" where
  "zeroItem itemBytes i = Inr (replicate itemBytes 0)"

definition wf_arena :: "Arena \<Rightarrow> bool" where
  "wf_arena a \<longleftrightarrow> freeSpace a \<le> length (storage a) \<and> length (storage a) < 2 ^ 64"

section \<open>Alignment\<close>

lemma align_up:
  fixes al p :: nat
  assumes "0 < al"
  shows "al dvd (p + al - 1) div al * al" "p \<le> (p + al - 1) div al * al"
    "(p + al - 1) div al * al < p + al"
proof -
  let ?q = "(p + al - 1) div al * al"
  have eq: "?q + (p + al - 1) mod al = p + al - 1" by (rule div_mult_mod_eq)
  have "(p + al - 1) mod al < al" using assms by simp
  with eq assms show "p \<le> ?q" "?q < p + al" by linarith+
  show "al dvd ?q" by simp
qed

lemma align_up_least:
  fixes al p q :: nat
  assumes "0 < al" and "al dvd q" and "p \<le> q"
  shows "(p + al - 1) div al * al \<le> q"
proof -
  obtain k where k: "q = al * k" using assms(2) by auto
  have "(p + al - 1) div al \<le> k"
  proof (rule ccontr)
    assume "\<not> ?thesis"
    then have "Suc k \<le> (p + al - 1) div al" by simp
    then have "Suc k * al \<le> p + al - 1"
      using assms(1) by (simp add: less_eq_div_iff_mult_less_eq)
    then show False using k assms by (simp add: algebra_simps)
  qed
  then show ?thesis by (simp add: k mult.commute)
qed

lemma align_up_aligned:
  fixes al p :: nat
  assumes "0 < al" and "al dvd p"
  shows "(p + al - 1) div al * al = p"
  using align_up_least [OF assms(1,2), of p] align_up(2) [OF assms(1), of p] by simp

lemma std_align_Some:
  assumes "0 < al" and "std_align al n p space = Some (q, space')"
  shows "al dvd q" "p \<le> q" "q < p + al" "q + n \<le> p + space" "space' = space - (q - p)"
    "n \<le> space'"
  using assms align_up [OF assms(1), of p] by (auto simp: std_align_def Let_def split: if_splits)

lemma std_align_None_iff:
  assumes "0 < al"
  shows "std_align al n p space = None \<longleftrightarrow> (\<forall>q. al dvd q \<longrightarrow> p \<le> q \<longrightarrow> p + space < q + n)"
proof -
  let ?q = "(p + al - 1) div al * al"
  have "std_align al n p space = None \<longleftrightarrow> p + space < ?q + n"
    using align_up(2) [OF assms, of p] by (auto simp: std_align_def Let_def)
  also have "\<dots> \<longleftrightarrow> (\<forall>q. al dvd q \<longrightarrow> p \<le> q \<longrightarrow> p + space < q + n)"
    using align_up [OF assms, of p] align_up_least [OF assms, of _ p]
    by (meson add_le_mono1 less_le_trans)
  finally show ?thesis .
qed

section \<open>Raw allocation\<close>

lemma allocateRaw_Inr:
  assumes "wf_arena a" and "0 < al" and "allocateRaw n al a = (Inr p, a')"
  shows "al dvd dataAddress a + p" "getFreeOffset a \<le> p" "p + n \<le> length (storage a)"
    "a' = a\<lparr>freeSpace := length (storage a) - p\<rparr>" "wf_arena a'" "getFreeOffset a' = p"
    "p < getFreeOffset a + al"
proof -
  from assms(3) obtain q where
    al: "std_align al n (dataAddress a + getFreeOffset a) (freeSpace a) = Some (q, freeSpace a')"
    and p: "p = q - dataAddress a" and a': "a' = a\<lparr>freeSpace := freeSpace a'\<rparr>"
    by (auto simp: allocateRaw_def split: option.splits)
  note q = std_align_Some [OF assms(2) al]
  have free: "getFreeOffset a + freeSpace a = length (storage a)"
    using assms(1) by (simp add: wf_arena_def getFreeOffset_def)
  have qp: "q = dataAddress a + p" using q(2) p by simp
  show "al dvd dataAddress a + p" using q(1) qp by simp
  show "getFreeOffset a \<le> p" "p + n \<le> length (storage a)" "p < getFreeOffset a + al"
    using q(2,3,4) qp free by linarith+
  have "freeSpace a' = length (storage a) - p" using q(5) qp free q(2) by linarith
  then show a'': "a' = a\<lparr>freeSpace := length (storage a) - p\<rparr>" using a' by simp
  show "wf_arena a'" using assms(1) by (simp add: a'' wf_arena_def)
  show "getFreeOffset a' = p"
    using \<open>p + n \<le> length (storage a)\<close> by (simp add: a'' getFreeOffset_def)
qed

lemma allocateRaw_Inl: "allocateRaw n al a = (Inl e, a') \<Longrightarrow> e = BadAlloc \<and> a' = a"
  by (auto simp: allocateRaw_def split: option.splits)

lemma allocateRaw_fits:
  assumes "wf_arena a" and "0 < al"
    and "al dvd dataAddress a + q" and "getFreeOffset a \<le> q" and "q + n \<le> length (storage a)"
  shows "\<exists>p a'. allocateRaw n al a = (Inr p, a') \<and> p \<le> q"
proof -
  have free: "getFreeOffset a + freeSpace a = length (storage a)"
    using assms(1) by (simp add: wf_arena_def getFreeOffset_def)
  let ?ptr = "dataAddress a + getFreeOffset a"
  have "std_align al n ?ptr (freeSpace a) \<noteq> None"
  proof
    assume "std_align al n ?ptr (freeSpace a) = None"
    then have "?ptr + freeSpace a < dataAddress a + q + n"
      using std_align_None_iff [OF assms(2), of n ?ptr "freeSpace a"] assms(3,4) by simp
    then show False using free assms(5) by simp
  qed
  then obtain r s where some: "std_align al n ?ptr (freeSpace a) = Some (r, s)" by auto
  then have "r = (?ptr + al - 1) div al * al" by (auto simp: std_align_def Let_def split: if_splits)
  then have "r \<le> dataAddress a + q"
    using align_up_least [OF assms(2,3), of ?ptr] assms(4) by simp
  with some show ?thesis by (simp add: allocateRaw_def)
qed

locale bump_allocator =
  fixes valid :: "'s \<Rightarrow> bool"
    and alloc :: "nat \<Rightarrow> nat \<Rightarrow> 's \<Rightarrow> nat result \<times> 's"
    and bytes :: "'s \<Rightarrow> u8 list"
    and home :: "'s \<Rightarrow> nat"
    and start :: "'s \<Rightarrow> nat"
  assumes alloc_valid: "valid s \<Longrightarrow> 0 < al \<Longrightarrow> alloc n al s = (Inr p, s') \<Longrightarrow> valid s'"
    and alloc_frame: "valid s \<Longrightarrow> 0 < al \<Longrightarrow> alloc n al s = (Inr p, s') \<Longrightarrow>
      bytes s' = bytes s \<and> home s' = home s"
    and alloc_bounds: "valid s \<Longrightarrow> 0 < al \<Longrightarrow> alloc n al s = (Inr p, s') \<Longrightarrow>
      start s \<le> p \<and> p + n \<le> length (bytes s)"
    and alloc_aligned: "valid s \<Longrightarrow> 0 < al \<Longrightarrow> alloc n al s = (Inr p, s') \<Longrightarrow> al dvd home s + p"
    and alloc_start: "valid s \<Longrightarrow> 0 < al \<Longrightarrow> alloc n al s = (Inr p, s') \<Longrightarrow> start s' = p"
    and alloc_fail: "alloc n al s = (Inl e, s') \<Longrightarrow> e = BadAlloc \<and> s' = s"
    and alloc_fits: "valid s \<Longrightarrow> 0 < al \<Longrightarrow> al dvd home s + q \<Longrightarrow> start s \<le> q \<Longrightarrow>
      q + n \<le> length (bytes s) \<Longrightarrow> \<exists>p s'. alloc n al s = (Inr p, s') \<and> p \<le> q"
begin

lemma alloc_least:
  assumes "valid s" and "0 < al" and "alloc n al s = (Inr p, s')"
    and "al dvd home s + q" and "start s \<le> q" and "q + n \<le> length (bytes s)"
  shows "p \<le> q"
  using alloc_fits [OF assms(1,2,4,5,6)] assms(3) by auto

lemma alloc_fail_iff:
  assumes "valid s" and "0 < al"
  shows "alloc n al s = (Inl BadAlloc, s) \<longleftrightarrow>
    \<not> (\<exists>q. al dvd home s + q \<and> start s \<le> q \<and> q + n \<le> length (bytes s))" (is "?fail \<longleftrightarrow> \<not> ?fits")
proof
  show "?fail \<Longrightarrow> \<not> ?fits"
    using alloc_fits [OF assms] by fastforce
next
  assume no: "\<not> ?fits"
  obtain r s' where al: "alloc n al s = (r, s')" by (cases "alloc n al s")
  show ?fail
  proof (cases r)
    case (Inl e)
    then show ?thesis using al alloc_fail by blast
  next
    case (Inr p)
    then have "al dvd home s + p \<and> start s \<le> p \<and> p + n \<le> length (bytes s)"
      using al alloc_aligned [OF assms] alloc_bounds [OF assms] by blast
    then show ?thesis using no by blast
  qed
qed

text \<open>The pointer that was handed out stays free: the next request gets it again.\<close>

lemma alloc_again:
  assumes s: "valid s" and al: "0 < al" and first: "alloc n al s = (Inr p, s')"
    and div: "al' dvd al" and room: "p + m \<le> length (bytes s)"
  shows "\<exists>s''. alloc m al' s' = (Inr p, s'')"
proof -
  have al': "0 < al'" using div al by (cases al') auto
  note s' = alloc_valid [OF s al first]
  have "al' dvd home s' + p" "start s' \<le> p" "p + m \<le> length (bytes s')"
    using alloc_frame [OF s al first] alloc_aligned [OF s al first] alloc_start [OF s al first] div room
    by (auto intro: dvd_trans)
  from alloc_fits [OF s' al' this] obtain q s'' where q: "alloc m al' s' = (Inr q, s'')" "q \<le> p"
    by blast
  have "start s' \<le> q" using alloc_bounds [OF s' al' q(1)] by simp
  then have "q = p" using q(2) alloc_start [OF s al first] by simp
  with q(1) show ?thesis by blast
qed

end

interpretation arena: bump_allocator wf_arena allocateRaw raw dataAddress getFreeOffset
proof
  fix a a' :: Arena and al n p q :: nat and e
  show "wf_arena a \<Longrightarrow> 0 < al \<Longrightarrow> allocateRaw n al a = (Inr p, a') \<Longrightarrow> wf_arena a'"
    by (rule allocateRaw_Inr(5))
  show "wf_arena a \<Longrightarrow> 0 < al \<Longrightarrow> allocateRaw n al a = (Inr p, a') \<Longrightarrow>
      raw a' = raw a \<and> dataAddress a' = dataAddress a"
    by (drule (2) allocateRaw_Inr(4)) (simp add: raw_def)
  show "wf_arena a \<Longrightarrow> 0 < al \<Longrightarrow> allocateRaw n al a = (Inr p, a') \<Longrightarrow>
      getFreeOffset a \<le> p \<and> p + n \<le> length (raw a)"
    using allocateRaw_Inr(2,3) by (simp add: raw_def)
  show "wf_arena a \<Longrightarrow> 0 < al \<Longrightarrow> allocateRaw n al a = (Inr p, a') \<Longrightarrow> al dvd dataAddress a + p"
    by (rule allocateRaw_Inr(1))
  show "wf_arena a \<Longrightarrow> 0 < al \<Longrightarrow> allocateRaw n al a = (Inr p, a') \<Longrightarrow> getFreeOffset a' = p"
    by (rule allocateRaw_Inr(6))
  show "allocateRaw n al a = (Inl e, a') \<Longrightarrow> e = BadAlloc \<and> a' = a"
    by (rule allocateRaw_Inl)
  show "wf_arena a \<Longrightarrow> 0 < al \<Longrightarrow> al dvd dataAddress a + q \<Longrightarrow> getFreeOffset a \<le> q \<Longrightarrow>
      q + n \<le> length (raw a) \<Longrightarrow> \<exists>p a'. allocateRaw n al a = (Inr p, a') \<and> p \<le> q"
    unfolding raw_def by (rule allocateRaw_fits)
qed

section \<open>Objects and arrays\<close>

lemma wf_arena_init: "capacity < 2 ^ 64 \<Longrightarrow> wf_arena (Arena_init address capacity)"
  by (simp add: wf_arena_def Arena_init_def)

lemma constructAt_Inr_iff:
  "constructAt object p a = (Inr u, a') \<longleftrightarrow>
    (\<exists>bs. object = Inr bs \<and> p + length bs \<le> length (storage a) \<and>
      a' = a\<lparr>storage := overwrite p bs (storage a)\<rparr>)"
  by (cases object) (auto simp: constructAt_def writeBytes_def)

lemma constructAt_Inl:
  "constructAt object p a = (Inl e, a') \<Longrightarrow> a' = a"
  by (auto simp: constructAt_def split: sum.splits)

lemma constructAt_wf: "wf_arena a \<Longrightarrow> constructAt object p a = (r, a') \<Longrightarrow> wf_arena a'"
  by (cases r) (auto simp: constructAt_Inr_iff wf_arena_def dest: constructAt_Inl)

lemma constructLoop_wf:
  "wf_arena a \<Longrightarrow> constructLoop sz f p n i a = (r, j, a') \<Longrightarrow> wf_arena a'"
  by (induction sz f p n i a rule: constructLoop.induct)
    (auto split: prod.splits sum.splits dest: constructAt_wf)

lemma allocateRaw_wf: "wf_arena a \<Longrightarrow> 0 < al \<Longrightarrow> allocateRaw n al a = (r, a') \<Longrightarrow> wf_arena a'"
  by (cases r) (auto dest: allocateRaw_Inl allocateRaw_Inr(5))

lemma allocateArray_wf:
  assumes "wf_arena a" and "0 < al" and "allocateArray sz al f n a = (r, d, a')"
  shows "wf_arena a'"
proof -
  obtain q a1 where raw: "allocateRaw (sz * n mod 2 ^ 64) al a = (q, a1)"
    by (cases "allocateRaw (sz * n mod 2 ^ 64) al a")
  have a1: "wf_arena a1" using allocateRaw_wf [OF assms(1,2) raw] .
  show ?thesis
  proof (cases q)
    case (Inl e)
    then show ?thesis using a1 assms(3) raw by (simp add: allocateArray_def)
  next
    case (Inr p)
    obtain u j a2 where loop: "constructLoop sz f p n 0 a1 = (u, j, a2)"
      by (cases "constructLoop sz f p n 0 a1")
    have "a' = a2" using assms(3) raw Inr loop by (cases u) (simp_all add: allocateArray_def)
    then show ?thesis using constructLoop_wf [OF a1 loop] by simp
  qed
qed

text \<open>Constructing items one after the other is one write of all of them.\<close>

lemma overwrite_append:
  assumes "p + length bs + length cs \<le> length xs"
  shows "overwrite (p + length bs) cs (overwrite p bs xs) = overwrite p (bs @ cs) xs"
  using assms by (simp add: overwrite_def add_ac)

lemma length_concat_const:
  "(\<And>x. x \<in> set xs \<Longrightarrow> length (f x) = sz) \<Longrightarrow> length (concat (map f xs)) = length xs * sz"
  by (induction xs) simp_all

lemma constructLoop_all:
  assumes "\<And>k. k < i + n \<Longrightarrow> f k = Inr (items k) \<and> length (items k) = sz"
    and "p + (i + n) * sz \<le> length (storage a)"
  shows "constructLoop sz f p n i a = (Inr (), i + n,
    a\<lparr>storage := overwrite (p + i * sz) (concat (map items [i..<i + n])) (storage a)\<rparr>)"
  using assms
proof (induction n arbitrary: i a)
  case 0
  then show ?case by simp
next
  case (Suc n)
  let ?a = "a\<lparr>storage := overwrite (p + i * sz) (items i) (storage a)\<rparr>"
  have len: "length (items i) = sz" and fi: "f i = Inr (items i)" using Suc.prems(1) by simp_all
  have fits: "p + i * sz + sz + n * sz \<le> length (storage a)"
    using Suc.prems(2) by (simp add: algebra_simps)
  have "constructAt (f i) (p + i * sz) a = (Inr (), ?a)"
    unfolding constructAt_Inr_iff using fi len fits by simp
  moreover have "constructLoop sz f p n (Suc i) ?a = (Inr (), Suc i + n,
      ?a\<lparr>storage := overwrite (p + Suc i * sz) (concat (map items [Suc i..<Suc i + n])) (storage ?a)\<rparr>)"
    using Suc.prems len fits by (intro Suc.IH) (simp_all add: algebra_simps)
  moreover have "length (concat (map items [Suc i..<Suc i + n])) = n * sz"
    using Suc.prems(1) by (subst length_concat_const [where sz = sz]) auto
  then have "overwrite (p + Suc i * sz) (concat (map items [Suc i..<Suc i + n]))
      (overwrite (p + i * sz) (items i) (storage a)) =
    overwrite (p + i * sz) (concat (map items [i..<i + Suc n])) (storage a)"
    using overwrite_append [of "p + i * sz" "items i" "concat (map items [Suc i..<Suc i + n])" "storage a"]
      len fits by (simp add: upt_conv_Cons algebra_simps del: upt_Suc)
  ultimately show ?case by simp
qed

lemma constructLoop_add:
  "constructLoop sz f p (m + n) i a =
    (case constructLoop sz f p m i a of
       (Inl e, j, a') \<Rightarrow> (Inl e, j, a')
     | (Inr _, j, a') \<Rightarrow> constructLoop sz f p n j a')"
  by (induction m arbitrary: i a) (simp_all split: prod.split sum.split)

lemma constructLoop_throws:
  assumes "k < n" and "f k = Inl e"
    and "\<And>j. j < k \<Longrightarrow> f j = Inr (items j) \<and> length (items j) = sz"
    and "p + k * sz \<le> length (storage a)"
  shows "constructLoop sz f p n 0 a = (Inl e, k,
    a\<lparr>storage := overwrite p (concat (map items [0..<k])) (storage a)\<rparr>)"
proof -
  obtain m where n: "n = k + Suc m" using assms(1) less_imp_Suc_add by auto
  have "constructLoop sz f p k 0 a = (Inr (), k,
      a\<lparr>storage := overwrite p (concat (map items [0..<k])) (storage a)\<rparr>)"
    using constructLoop_all [of 0 k f items sz p a] assms(3,4) by simp
  then show ?thesis
    using assms(2) by (simp add: n constructLoop_add constructAt_def del: add_Suc_right)
qed

lemma destroyLoop_rev: "destroyLoop k = rev [1..<Suc k]"
  by (induction k) simp_all

lemma allocateArray_Inr:
  assumes "wf_arena a" and "0 < al" and small: "sz * n < 2 ^ 64"
    and raw: "allocateRaw (sz * n) al a = (Inr p, a')"
    and items: "\<And>k. k < n \<Longrightarrow> f k = Inr (items k) \<and> length (items k) = sz"
  shows "allocateArray sz al f n a = (Inr (p, n), [],
    a'\<lparr>storage := overwrite p (concat (map items [0..<n])) (storage a)\<rparr>)"
proof -
  have a': "a' = a\<lparr>freeSpace := length (storage a) - p\<rparr>" and fits: "p + sz * n \<le> length (storage a)"
    using allocateRaw_Inr [OF assms(1,2) raw] by blast+
  have "constructLoop sz f p n 0 a' = (Inr (), n,
      a'\<lparr>storage := overwrite p (concat (map items [0..<n])) (storage a)\<rparr>)"
    using constructLoop_all [of 0 n f items sz p a'] items fits by (simp add: a' mult.commute)
  moreover have "sz * n mod 2 ^ 64 = sz * n" using small by (rule mod_less)
  ultimately show ?thesis using raw by (simp only: allocateArray_def prod.case sum.case)
qed

lemma allocateArray_no_room:
  assumes "sz * n < 2 ^ 64" and "allocateRaw (sz * n) al a = (Inl e, a')"
  shows "allocateArray sz al f n a = (Inl BadAlloc, [], a)"
proof -
  have "sz * n mod 2 ^ 64 = sz * n" using assms(1) by (rule mod_less)
  then show ?thesis
    using assms(2) allocateRaw_Inl [OF assms(2)]
    by (simp only: allocateArray_def prod.case sum.case)
qed

lemma allocateArray_throws:
  assumes "wf_arena a" and "0 < al" and small: "sz * n < 2 ^ 64"
    and raw: "allocateRaw (sz * n) al a = (Inr p, a')"
    and k: "k < n" "f k = Inl e" "isException e"
    and items: "\<And>j. j < k \<Longrightarrow> f j = Inr (items j) \<and> length (items j) = sz"
  shows "allocateArray sz al f n a = (Inl e, rev [1..<Suc k],
    a'\<lparr>storage := overwrite p (concat (map items [0..<k])) (storage a)\<rparr>)"
proof -
  have a': "a' = a\<lparr>freeSpace := length (storage a) - p\<rparr>" and fits: "p + sz * n \<le> length (storage a)"
    using allocateRaw_Inr [OF assms(1,2) raw] by blast+
  have "k * sz \<le> sz * n" using k(1) by (simp add: mult.commute)
  with fits have "p + k * sz \<le> length (storage a)" by linarith
  then have "constructLoop sz f p n 0 a' = (Inl e, k,
      a'\<lparr>storage := overwrite p (concat (map items [0..<k])) (storage a)\<rparr>)"
    using constructLoop_throws [of k n f e items sz p a'] k items fits by (simp add: a')
  moreover have "sz * n mod 2 ^ 64 = sz * n" using small by (rule mod_less)
  ultimately show ?thesis
    using raw k(3) by (simp only: allocateArray_def prod.case sum.case destroyLoop_rev if_True)
qed

lemma concat_zeroItems: "concat (map (\<lambda>k. replicate sz 0) [0..<n]) = replicate (n * sz) (0 :: u8)"
  by (induction n) (simp_all add: replicate_add [symmetric] add.commute)

lemma allocateArray_zero:
  assumes "wf_arena a" and "0 < al" and "sz * n < 2 ^ 64"
    and "allocateRaw (sz * n) al a = (Inr p, a')"
  shows "allocateArray sz al (zeroItem sz) n a = (Inr (p, n), [],
    a'\<lparr>storage := overwrite p (replicate (n * sz) 0) (storage a)\<rparr>)"
  using allocateArray_Inr [OF assms, of "zeroItem sz" "\<lambda>k. replicate sz 0"]
  by (simp add: zeroItem_def concat_zeroItems)

lemma getFreeOffsetAlignedTo_next:
  assumes "wf_arena a"
  shows "getFreeOffsetAlignedTo al n a =
    (case fst (allocateRaw n al a) of Inl e \<Rightarrow> length (raw a) | Inr p \<Rightarrow> p)"
  by (simp add: getFreeOffsetAlignedTo_def allocateRaw_def raw_def split: option.split)

section \<open>The contract of array allocation\<close>

text \<open>
  What the loader and the application use of \<^verbatim>\<open>allocate<T[]>\<close> for fundamental \<open>T\<close>: a success
  clears a range inside the memory and changes nothing else, a failure changes nothing at all.
\<close>

locale zeroing_allocator =
  fixes valid :: "'s \<Rightarrow> bool"
    and bytes :: "'s \<Rightarrow> u8 list"
    and alloc :: "nat \<Rightarrow> 's \<Rightarrow> (nat \<times> nat) result \<times> nat list \<times> 's"
    and itemBytes :: nat
  assumes alloc_Inr: "valid s \<Longrightarrow> itemBytes * n < 2 ^ 64 \<Longrightarrow> alloc n s = (Inr (p, m), d, s') \<Longrightarrow>
      m = n \<and> d = [] \<and> p + n * itemBytes \<le> length (bytes s) \<and> valid s' \<and>
      bytes s' = overwrite p (replicate (n * itemBytes) 0) (bytes s)"
    and alloc_Inl: "valid s \<Longrightarrow> itemBytes * n < 2 ^ 64 \<Longrightarrow> alloc n s = (Inl e, d, s') \<Longrightarrow>
      e = BadAlloc \<and> d = [] \<and> s' = s"
begin

lemma alloc_range:
  assumes "valid s" and "itemBytes * n < 2 ^ 64" and "alloc n s = (Inr (p, m), d, s')"
  shows "p + n * itemBytes \<le> length (bytes s')" and "length (bytes s') = length (bytes s)"
    and "valid s'" and "m = n"
  using alloc_Inr [OF assms] by auto

lemma alloc_zeroed:
  assumes "valid s" and "itemBytes * n < 2 ^ 64" and "alloc n s = (Inr (p, m), d, s')"
    and "p \<le> k" and "k < p + n * itemBytes"
  shows "bytes s' ! k = 0"
  using alloc_Inr [OF assms(1-3)] assms(4,5) by (simp add: nth_overwrite)

lemma alloc_frame:
  assumes "valid s" and "itemBytes * n < 2 ^ 64" and "alloc n s = (Inr (p, m), d, s')"
    and "k < length (bytes s)" and "k < p \<or> p + n * itemBytes \<le> k"
  shows "bytes s' ! k = bytes s ! k"
  using alloc_Inr [OF assms(1-3)] assms(4,5) by (auto simp: nth_overwrite)

lemma alloc_defined:
  assumes "valid s" and "itemBytes * n < 2 ^ 64"
  shows "fst (alloc n s) \<noteq> Inl (UndefinedBehaviour u)"
proof
  assume u: "fst (alloc n s) = Inl (UndefinedBehaviour u)"
  obtain r d s' where al: "alloc n s = (r, d, s')" by (cases "alloc n s")
  with u have "alloc n s = (Inl (UndefinedBehaviour u), d, s')" by simp
  from alloc_Inl [OF assms this] show False by simp
qed

end

lemma zeroing_arena:
  assumes "0 < al"
  shows "zeroing_allocator wf_arena raw (allocateArray sz al (zeroItem sz)) sz"
proof
  fix a a' :: Arena and n p m :: nat and d e
  assume wf: "wf_arena a" and small: "sz * n < 2 ^ 64"
  obtain r a1 where raw: "allocateRaw (sz * n) al a = (r, a1)"
    by (cases "allocateRaw (sz * n) al a")
  note ok = allocateArray_zero [OF wf assms small]
  note no = allocateArray_no_room [OF small]
  show "m = n \<and> d = [] \<and> p + n * sz \<le> length (Arena.raw a) \<and> wf_arena a' \<and>
      Arena.raw a' = overwrite p (replicate (n * sz) 0) (Arena.raw a)"
    if al: "allocateArray sz al (zeroItem sz) n a = (Inr (p, m), d, a')"
  proof (cases r)
    case (Inl e)
    with no raw al show ?thesis by simp
  next
    case (Inr q)
    with ok raw al have eq: "q = p" "m = n" "d = []"
      "a' = a1\<lparr>storage := overwrite p (replicate (n * sz) 0) (storage a)\<rparr>" by simp_all
    have "p + sz * n \<le> length (storage a)"
      using allocateRaw_Inr(3) [OF wf assms] raw Inr eq(1) by simp
    with eq allocateArray_wf [OF wf assms al] show ?thesis
      by (simp add: Arena.raw_def mult.commute)
  qed
  show "e = BadAlloc \<and> d = [] \<and> a' = a"
    if al: "allocateArray sz al (zeroItem sz) n a = (Inl e, d, a')"
  proof (cases r)
    case (Inl e)
    with no raw al show ?thesis by simp
  next
    case (Inr q)
    with ok raw al show ?thesis by simp
  qed
qed

lemma zeroing_position:
  assumes wf: "wf_arena a" and al: "0 < al" and small: "sz * n < 2 ^ 64"
    and ok: "allocateArray sz al (zeroItem sz) n a = (Inr (p, m), d, a')"
  shows "al dvd dataAddress a + p" "getFreeOffset a \<le> p" "p < getFreeOffset a + al"
    "getFreeOffset a' = p"
proof -
  obtain r a1 where raw: "allocateRaw (sz * n) al a = (r, a1)"
    by (cases "allocateRaw (sz * n) al a")
  have "r = Inr p \<and> a' = a1\<lparr>storage := overwrite p (replicate (n * sz) 0) (storage a)\<rparr>"
    using ok raw allocateArray_no_room [OF small] allocateArray_zero [OF wf al small] by (cases r) auto
  then have r: "allocateRaw (sz * n) al a = (Inr p, a1)"
    and a': "a' = a1\<lparr>storage := overwrite p (replicate (n * sz) 0) (storage a)\<rparr>" using raw by simp_all
  note raw = allocateRaw_Inr [OF wf al r]
  show "al dvd dataAddress a + p" "getFreeOffset a \<le> p" "p < getFreeOffset a + al" by fact+
  have "length (storage a1) = length (storage a)" using raw(4) by simp
  moreover have "p + n * sz \<le> length (storage a)" using raw(3) by (simp add: mult.commute)
  ultimately show "getFreeOffset a' = p" using raw(6) by (simp add: a' getFreeOffset_def)
qed

text \<open>The two instances of the program: bytes, for the loader, and pixels of four bytes.\<close>

interpretation bytes: zeroing_allocator wf_arena raw "allocateArray 1 1 (zeroItem 1)" 1
  by (rule zeroing_arena) simp

interpretation pixels: zeroing_allocator wf_arena raw "allocateArray 4 4 (zeroItem 4)" 4
  by (rule zeroing_arena) simp

end
