(* ===== verification/LoopRules.thy ===== *)
theory LoopRules
  imports Prelude
begin

text \<open>
  Loops that may run forever. The body of such a loop is a function \<open>next\<close> that either leaves the
  loop with a result (\<open>Inl\<close>) or gives the state of the next iteration (\<open>Inr\<close>); \<open>drive n next\<close>
  runs at most \<open>n\<close> iterations. The locale \<open>program_loop\<close> is the contract between such a body and the
  function that runs it to the end, with \<open>None\<close> for a loop that never leaves: its rules give
  partial correctness, termination with a bound on the iterations, and divergence.
\<close>

primrec drive :: "nat \<Rightarrow> ('s \<Rightarrow> 'r + 's) \<Rightarrow> 's \<Rightarrow> 'r option" where
  "drive 0 body s = None"
| "drive (Suc n) body s = (case body s of Inl r \<Rightarrow> Some r | Inr s' \<Rightarrow> drive n body s')"

lemma drive_more:
  "drive n body s = Some r \<Longrightarrow> n \<le> m \<Longrightarrow> drive m body s = Some r"
proof (induction n arbitrary: s m)
  case 0
  then show ?case by simp
next
  case (Suc n)
  then obtain k where "m = Suc k" "n \<le> k" by (cases m) auto
  with Suc show ?case by (auto split: sum.splits)
qed

lemma drive_unique:
  assumes "drive n body s = Some r" and "drive m body s = Some r'"
  shows "r = r'"
  using drive_more [OF assms(1), of "max n m"] drive_more [OF assms(2), of "max n m"] by simp

locale program_loop =
  fixes body :: "'s \<Rightarrow> 'r + 's"
    and go :: "'s \<Rightarrow> 'r option"
  assumes go_unfold: "go s = (case body s of Inl r \<Rightarrow> Some r | Inr s' \<Rightarrow> go s')"
    and go_drive: "go s = Some r \<Longrightarrow> \<exists>n. drive n body s = Some r"
begin

lemma drive_go: "drive n body s = Some r \<Longrightarrow> go s = Some r"
proof (induction n arbitrary: s)
  case 0
  then show ?case by simp
next
  case (Suc n)
  then show ?case by (subst go_unfold) (simp split: sum.splits)
qed

lemma go_iff: "go s = Some r \<longleftrightarrow> (\<exists>n. drive n body s = Some r)"
  using go_drive drive_go by blast

lemma go_leave: "body s = Inl r \<Longrightarrow> go s = Some r"
  by (subst go_unfold) simp

lemma go_next: "body s = Inr s' \<Longrightarrow> go s = go s'"
  by (subst go_unfold) simp

text \<open>Partial correctness: an invariant of the body holds where the loop is left.\<close>

lemma go_invariant:
  assumes "go s = Some r" and "I s"
    and keep: "\<And>s s'. I s \<Longrightarrow> body s = Inr s' \<Longrightarrow> I s'"
  shows "\<exists>s'. I s' \<and> body s' = Inl r"
proof -
  obtain n where "drive n body s = Some r" using go_drive [OF assms(1)] by blast
  then show ?thesis
    using assms(2)
  proof (induction n arbitrary: s)
    case 0
    then show ?case by simp
  next
    case (Suc n)
    then show ?case by (cases "body s") (auto dest: keep)
  qed
qed

text \<open>Termination: a measure that every iteration lowers bounds the number of iterations.\<close>

lemma drive_terminates:
  assumes "I s"
    and step: "\<And>s s'. I s \<Longrightarrow> body s = Inr s' \<Longrightarrow> I s' \<and> f s' < (f s :: nat)"
  shows "\<exists>r. drive (Suc (f s)) body s = Some r"
  using assms(1)
proof (induction "f s" arbitrary: s rule: less_induct)
  case less
  show ?case
  proof (cases "body s")
    case (Inl r)
    then show ?thesis by simp
  next
    case (Inr s')
    with step [OF less.prems] have s': "I s'" "f s' < f s" by blast+
    then obtain r where r: "drive (Suc (f s')) body s' = Some r" using less.hyps by blast
    have "Suc (f s') \<le> f s" using s'(2) by simp
    from drive_more [OF r this] Inr show ?thesis by auto
  qed
qed

lemma go_terminates:
  assumes "I s" and "\<And>s s'. I s \<Longrightarrow> body s = Inr s' \<Longrightarrow> I s' \<and> f s' < (f s :: nat)"
  shows "\<exists>r. go s = Some r"
  using drive_terminates [of I s f, OF assms] drive_go by blast

text \<open>Divergence: an invariant under which no iteration leaves the loop.\<close>

lemma go_diverges:
  assumes "I s" and step: "\<And>s. I s \<Longrightarrow> \<exists>s'. body s = Inr s' \<and> I s'"
  shows "go s = None"
proof -
  have "drive n body s = None" for n
    using assms(1)
  proof (induction n arbitrary: s)
    case 0
    then show ?case by simp
  next
    case (Suc n)
    from step [OF Suc.prems] obtain s' where "body s = Inr s'" "I s'" by blast
    with Suc.IH show ?case by simp
  qed
  then show ?thesis using go_drive by (cases "go s") fastforce+
qed

end

end
