(* ===== verification/Emulator.thy ===== *)
theory Emulator
  imports DecoderProgram Arena Base LoopRules
begin

text \<open>
  The emulator, \<^verbatim>\<open>src/src/riscv/emulator.hpp\<close> and \<^verbatim>\<open>emulator.cpp\<close>: its state, the registration of
  custom system calls, and the instruction loop \<open>run\<close>.

  \<open>run\<close> is an endless loop in the program if the guest never leaves its code, so it is a
  \<open>partial_function (option)\<close>: \<open>None\<close> is a run that never returns. One iteration of the loop is
  \<open>iteration\<close>; the locale of \<open>LoopRules\<close> connects the two. A run that throws leaves the hart as it
  was at the throw, since the hart is passed by reference.

  \<open>isa_step\<close> is what the instruction set manual says the same instructions do; the second half of
  the theory relates the two.
\<close>

section \<open>State\<close>

datatype CustomSyscallStatus = Continue | Interrupt

text \<open>The enumerators of \<^verbatim>\<open>BuiltinSyscall\<close> with their values.\<close>

datatype BuiltinSyscall = GetFreeMemory | CopyMemory | CopyMemoryOverlapping | FillMemory
  | CompareMemory | FindByte | MaxBuiltin

primrec builtinNumber :: "BuiltinSyscall \<Rightarrow> u64" where
  "builtinNumber GetFreeMemory = 0"
| "builtinNumber CopyMemory = 1"
| "builtinNumber CopyMemoryOverlapping = 2"
| "builtinNumber FillMemory = 3"
| "builtinNumber CompareMemory = 4"
| "builtinNumber FindByte = 5"
| "builtinNumber MaxBuiltin = 127"

text \<open>
  A handler is host code: the type of handlers is a parameter, and so is what calling one does.
\<close>

record 'h Emulator =
  memory :: Arena
  instructions :: "Instruction list"
  customSyscallHandlers :: "u64 \<rightharpoonup> 'h"
  startTime :: int

definition Emulator_init :: "nat \<Rightarrow> nat \<Rightarrow> int \<Rightarrow> 'h Emulator" where
  "Emulator_init address memorySizeBytes now =
     \<lparr>memory = Arena_init address memorySizeBytes, instructions = [],
      customSyscallHandlers = Map.empty, startTime = now\<rparr>"

definition setInstructions :: "Instruction list \<Rightarrow> 'h Emulator \<Rightarrow> 'h Emulator" where
  "setInstructions newInstructions e = e\<lparr>instructions := newInstructions\<rparr>"

definition registerCustomSyscallHandler :: "u64 \<Rightarrow> 'h \<Rightarrow> 'h Emulator \<Rightarrow> 'h Emulator result" where
  "registerCustomSyscallHandler syscallNumber handler e =
     (if syscallNumber > builtinNumber MaxBuiltin
      then Inl (InvalidArgument ''registered syscall number must be > BuiltinSyscall::Max'')
      else Inr (e\<lparr>customSyscallHandlers := (customSyscallHandlers e)(syscallNumber \<mapsto> handler)\<rparr>))"

definition unregisterCustomSyscallHandler :: "u64 \<Rightarrow> 'h Emulator \<Rightarrow> 'h Emulator" where
  "unregisterCustomSyscallHandler syscallNumber e =
     e\<lparr>customSyscallHandlers := (customSyscallHandlers e)(syscallNumber := None)\<rparr>"

text \<open>The status that the handler returns is dropped.\<close>

definition performCustomSyscall ::
    "('h \<Rightarrow> Thread \<Rightarrow> 'h Emulator \<Rightarrow> CustomSyscallStatus result \<times> Thread \<times> 'h Emulator)
      \<Rightarrow> Thread \<Rightarrow> u64 \<Rightarrow> 'h Emulator \<Rightarrow> unit result \<times> Thread \<times> 'h Emulator" where
  "performCustomSyscall call t syscallNumber e =
     (case customSyscallHandlers e syscallNumber of
        None \<Rightarrow> (Inr (), t, e)
      | Some handler \<Rightarrow>
          (case call handler t e of
             (Inl err, t, e) \<Rightarrow> (Inl err, t, e)
           | (Inr status, t, e) \<Rightarrow> (Inr (), t, e)))"

section \<open>The instruction loop\<close>

text \<open>
  The \<^verbatim>\<open>switch\<close> of the loop body. \<^verbatim>\<open>break\<close> and \<^verbatim>\<open>continue\<close> both end it, and both are followed by
  the increment of the \<^verbatim>\<open>for\<close> statement.
\<close>

definition setDestination :: "Instruction \<Rightarrow> Register \<Rightarrow> Thread \<Rightarrow> Thread result" where
  "setDestination instr value t =
     bind_result (setRegister (registers t) (destinationRegister instr) value) (\<lambda>rf.
     Inr (t\<lparr>registers := rf\<rparr>))"

definition addImmediate :: "Instruction \<Rightarrow> Thread \<Rightarrow> Thread result" where
  "addImmediate instr t =
     bind_result (immediate instr) (\<lambda>imm. Inr (t\<lparr>programCounter := programCounter t + scast imm\<rparr>))"

definition branchIf ::
    "(Register \<Rightarrow> Register \<Rightarrow> bool) \<Rightarrow> Instruction \<Rightarrow> Thread \<Rightarrow> Thread result" where
  "branchIf cond instr t =
     bind_result (getRegister (registers t) (sourceRegister1 instr)) (\<lambda>a.
     bind_result (getRegister (registers t) (sourceRegister2 instr)) (\<lambda>b.
     if cond a b then addImmediate instr t else Inr t))"

fun execute :: "Instruction \<Rightarrow> InstructionType \<Rightarrow> Thread \<Rightarrow> Thread result" where
  "execute instr (RV32I LUI) t =
     bind_result (immediate instr) (\<lambda>imm. setDestination instr (scast imm) t)"
| "execute instr (RV32I AUIPC) t =
     bind_result (immediate instr) (\<lambda>imm. setDestination instr (programCounter t + scast imm) t)"
| "execute instr (RV32I JAL) t =
     bind_result (setDestination instr (getNextProgramCounter t) t) (\<lambda>t. addImmediate instr t)"
| "execute instr (RV32I JALR) t =
     bind_result (setDestination instr (getNextProgramCounter t) t) (\<lambda>t.
     bind_result (getRegister (registers t) (sourceRegister1 instr)) (\<lambda>a.
     bind_result (immediate instr) (\<lambda>imm.
     let t = t\<lparr>programCounter := a + scast imm\<rparr> in
     Inr (t\<lparr>programCounter := bitand (programCounter t) (bitnot 1)\<rparr>))))"
| "execute instr (RV32I BEQ) t = branchIf (\<lambda>a b. a = b) instr t"
| "execute instr (RV32I BNE) t = branchIf (\<lambda>a b. a \<noteq> b) instr t"
| "execute instr (RV32I BLT) t = branchIf (\<lambda>a b. sint a < sint b) instr t"
| "execute instr (RV32I BGE) t = branchIf (\<lambda>a b. sint a \<ge> sint b) instr t"
| "execute instr (RV32I BLTU) t = branchIf (\<lambda>a b. a < b) instr t"
| "execute instr (RV32I BGEU) t = branchIf (\<lambda>a b. a \<ge> b) instr t"
| "execute instr _ t = Inl (RuntimeError ''Unsupported instruction'')"

text \<open>How a run ends: the loop condition fails, or an exception leaves it.\<close>

datatype outcome = Returned Thread | Threw error Thread

definition iteration :: "Instruction list \<Rightarrow> Thread \<Rightarrow> outcome + Thread" where
  "iteration instrs t =
     (if unat (getInstructionIndex t) < length instrs then
        let t = t\<lparr>cycleCounter := cycleCounter t + 1\<rparr>;
            instr = instrs ! unat (getInstructionIndex t) in
        case execute instr (itype instr) t of
          Inl e \<Rightarrow> Inl (Threw e t)
        | Inr t \<Rightarrow> Inr (t\<lparr>programCounter := getNextProgramCounter t\<rparr>)
      else Inl (Returned t))"

partial_function (option) runLoop :: "Instruction list \<Rightarrow> Thread \<Rightarrow> outcome option" where
  "runLoop instrs t =
     (case iteration instrs t of Inl r \<Rightarrow> Some r | Inr t' \<Rightarrow> runLoop instrs t')"

definition run :: "Thread \<Rightarrow> 'h Emulator \<Rightarrow> outcome option" where
  "run t e = runLoop (instructions e) t"

interpretation loop: program_loop "iteration instrs" "runLoop instrs" for instrs
proof
  show "runLoop instrs t = (case iteration instrs t of Inl r \<Rightarrow> Some r | Inr t' \<Rightarrow> runLoop instrs t')" for t
    by (rule runLoop.simps)
  show "\<exists>n. drive n (iteration instrs) t = Some r" if ret: "runLoop instrs t = Some r" for t r
  proof (rule runLoop.raw_induct
      [where P = "\<lambda>instrs t r. \<exists>n. drive n (iteration instrs) t = Some r", OF _ ret])
    fix go :: "Instruction list \<Rightarrow> Thread \<Rightarrow> outcome option" and instrs t r
    assume IH: "\<And>instrs t r. go instrs t = Some r \<Longrightarrow> \<exists>n. drive n (iteration instrs) t = Some r"
      and eq: "(case iteration instrs t of Inl r \<Rightarrow> Some r | Inr t' \<Rightarrow> go instrs t') = Some r"
    show "\<exists>n. drive n (iteration instrs) t = Some r"
    proof (cases "iteration instrs t")
      case (Inl q)
      with eq have "drive (Suc 0) (iteration instrs) t = Some r" by simp
      then show ?thesis by blast
    next
      case (Inr t')
      with eq have "go instrs t' = Some r" by simp
      with IH obtain n where "drive n (iteration instrs) t' = Some r" by blast
      with Inr have "drive (Suc n) (iteration instrs) t = Some r" by simp
      then show ?thesis by blast
    qed
  qed
qed

section \<open>One iteration\<close>

text \<open>The instructions the loop executes; every other type ends the run with an exception.\<close>

fun supported :: "InstructionType \<Rightarrow> bool" where
  "supported (RV32I t) =
     (t \<in> {LUI, AUIPC, JAL, JALR, BEQ, BNE, BLT, BGE, BLTU, BGEU})"
| "supported _ = False"

definition wf_thread :: "Thread \<Rightarrow> bool" where
  "wf_thread t \<longleftrightarrow> wf_registers (registers t) \<and> wf_fcsr t"

definition reg :: "Thread \<Rightarrow> RegisterIndex \<Rightarrow> Register" where
  "reg t i = (case getRegister (registers t) i of Inl _ \<Rightarrow> 0 | Inr v \<Rightarrow> v)"

definition put :: "RegisterIndex \<Rightarrow> Register \<Rightarrow> Thread \<Rightarrow> Thread" where
  "put i v t = (case setRegister (registers t) i v of Inl _ \<Rightarrow> t | Inr rf \<Rightarrow> t\<lparr>registers := rf\<rparr>)"

lemma wf_thread_init: "wf_thread Thread_init"
  using wf_fcsr_init by (simp add: wf_thread_def) (simp add: Thread_init_def)

lemma wf_thread_updates [simp]:
  "wf_thread (t\<lparr>programCounter := pc\<rparr>) = wf_thread t"
  "wf_thread (t\<lparr>cycleCounter := c\<rparr>) = wf_thread t"
  by (simp_all add: wf_thread_def wf_fcsr_def)

lemma reg_updates [simp]:
  "reg (t\<lparr>programCounter := pc\<rparr>) = reg t" "reg (t\<lparr>cycleCounter := c\<rparr>) = reg t"
  by (simp_all add: reg_def fun_eq_iff)

lemma getRegister_reg:
  "wf_thread t \<Longrightarrow> unat i < registerCount \<Longrightarrow> getRegister (registers t) i = Inr (reg t i)"
  using registers.read_in [of "registers t" i] by (auto simp: wf_thread_def reg_def)

lemma reg_x0: "wf_thread t \<Longrightarrow> reg t 0 = 0"
  by (simp add: reg_def wf_thread_def registers.read_x0)

lemma setDestination_put:
  assumes "wf_thread t" and "unat (destinationRegister i) < registerCount"
  shows "setDestination i v t = Inr (put (destinationRegister i) v t)"
proof -
  obtain rf where "setRegister (registers t) (destinationRegister i) v = Inr rf"
    using registers.write_in assms unfolding wf_thread_def by blast
  then show ?thesis by (simp add: setDestination_def put_def)
qed

lemma wf_put: "wf_thread t \<Longrightarrow> wf_thread (put i v t)"
  by (auto simp: put_def wf_thread_def wf_fcsr_def split: sum.splits intro: registers.write_valid)

lemma put_updates [simp]:
  "programCounter (put i v t) = programCounter t" "cycleCounter (put i v t) = cycleCounter t"
  by (simp_all add: put_def split: sum.split)

lemma reg_put:
  assumes "wf_thread t" and "unat i < registerCount"
  shows "reg (put i v t) j = (if j = i \<and> i \<noteq> 0 then v else reg t j)"
proof -
  have wf: "wf_registers (registers t)" using assms(1) by (simp add: wf_thread_def)
  then obtain rf where rf: "setRegister (registers t) i v = Inr rf"
    using registers.write_in assms(2) by blast
  then show ?thesis using registers.read_write [OF wf rf, of j] by (simp add: reg_def put_def)
qed

text \<open>
  A well-formed supported instruction on a well-formed hart: what \<open>execute\<close> returns, without the
  error paths. \<open>immValue\<close> is the immediate widened to the register width, as the addition does it.
\<close>

definition immValue :: "Instruction \<Rightarrow> Register" where
  "immValue i = (case operand i of Immediate v \<Rightarrow> scast v | FloatOp _ _ \<Rightarrow> 0)"

lemma immediate_value:
  "wf_decoded i \<Longrightarrow> itype i = RV32I k \<Longrightarrow> \<exists>v. immediate i = Inr v \<and> immValue i = scast v"
  by (auto simp: wf_decoded_def immediate_def immValue_def)

fun taken :: "InstructionType \<Rightarrow> Register \<Rightarrow> Register \<Rightarrow> bool" where
  "taken (RV32I BEQ) a b = (a = b)"
| "taken (RV32I BNE) a b = (a \<noteq> b)"
| "taken (RV32I BLT) a b = (a <s b)"
| "taken (RV32I BGE) a b = (b \<le>s a)"
| "taken (RV32I BLTU) a b = (a < b)"
| "taken (RV32I BGEU) a b = (b \<le> a)"
| "taken (RV32I JAL) a b = True"
| "taken (RV32I JALR) a b = True"
| "taken _ a b = False"

lemma wf_decoded_registers:
  assumes "wf_decoded i"
  shows "unat (destinationRegister i) < registerCount" "unat (sourceRegister1 i) < registerCount"
    "unat (sourceRegister2 i) < registerCount"
  using assms by (simp_all add: wf_decoded_def wf_instruction_def)

lemma branchIf_wf:
  assumes "wf_decoded i" and "itype i = RV32I k" and "wf_thread t"
  shows "branchIf cond i t = Inr
    (if cond (reg t (sourceRegister1 i)) (reg t (sourceRegister2 i))
     then t\<lparr>programCounter := programCounter t + immValue i\<rparr> else t)"
  using immediate_value [OF assms(1,2)]
  by (auto simp: branchIf_def addImmediate_def getRegister_reg [OF assms(3)]
      wf_decoded_registers [OF assms(1)])

lemma execute_wf:
  assumes i: "wf_decoded i" and t: "wf_thread t"
  shows "itype i = RV32I LUI \<Longrightarrow>
      execute i (itype i) t = Inr (put (destinationRegister i) (immValue i) t)"
    and "itype i = RV32I AUIPC \<Longrightarrow>
      execute i (itype i) t = Inr (put (destinationRegister i) (programCounter t + immValue i) t)"
    and "itype i = RV32I JAL \<Longrightarrow> execute i (itype i) t =
      Inr ((put (destinationRegister i) (programCounter t + 4) t)
        \<lparr>programCounter := programCounter t + immValue i\<rparr>)"
    and "itype i = RV32I JALR \<Longrightarrow> execute i (itype i) t =
      (let u = put (destinationRegister i) (programCounter t + 4) t in
       Inr (u\<lparr>programCounter := bitand (reg u (sourceRegister1 i) + immValue i) (bitnot 1)\<rparr>))"
  using immediate_value [OF i] wf_decoded_registers [OF i]
  by (auto simp: setDestination_put [OF t] addImmediate_def getNextProgramCounter_def Let_def
      getRegister_reg [OF wf_put [OF t]])

section \<open>The instruction set manual\<close>

text \<open>
  The integer state of a hart in the unprivileged instruction set manual, and what the manual says
  the control transfer and upper-immediate instructions do to it when they raise no exception.
  \<open>None\<close>: not one of these.
\<close>

record IsaState =
  x :: "RegisterIndex \<Rightarrow> Register"
  pc :: Register

definition isa_write :: "RegisterIndex \<Rightarrow> Register \<Rightarrow> IsaState \<Rightarrow> IsaState" where
  "isa_write rd v s = (if rd = 0 then s else s\<lparr>x := (x s)(rd := v)\<rparr>)"

definition isa_jump :: "Register \<Rightarrow> IsaState \<Rightarrow> IsaState" where
  "isa_jump target s = s\<lparr>pc := target\<rparr>"

definition isa_branch :: "bool \<Rightarrow> Register \<Rightarrow> IsaState \<Rightarrow> IsaState" where
  "isa_branch b imm s = isa_jump (if b then pc s + imm else pc s + 4) s"

fun isa_step :: "InstructionType \<Rightarrow> RegisterIndex \<Rightarrow> RegisterIndex \<Rightarrow> RegisterIndex \<Rightarrow> Register
    \<Rightarrow> IsaState \<Rightarrow> IsaState option" where
  "isa_step (RV32I LUI) rd r1 r2 imm s = Some (isa_jump (pc s + 4) (isa_write rd imm s))"
| "isa_step (RV32I AUIPC) rd r1 r2 imm s = Some (isa_jump (pc s + 4) (isa_write rd (pc s + imm) s))"
| "isa_step (RV32I JAL) rd r1 r2 imm s = Some (isa_jump (pc s + imm) (isa_write rd (pc s + 4) s))"
| "isa_step (RV32I JALR) rd r1 r2 imm s =
     Some (isa_jump (bitand (x s r1 + imm) (bitnot 1)) (isa_write rd (pc s + 4) s))"
| "isa_step (RV32I BEQ) rd r1 r2 imm s = Some (isa_branch (x s r1 = x s r2) imm s)"
| "isa_step (RV32I BNE) rd r1 r2 imm s = Some (isa_branch (x s r1 \<noteq> x s r2) imm s)"
| "isa_step (RV32I BLT) rd r1 r2 imm s = Some (isa_branch (x s r1 <s x s r2) imm s)"
| "isa_step (RV32I BGE) rd r1 r2 imm s = Some (isa_branch (x s r2 \<le>s x s r1) imm s)"
| "isa_step (RV32I BLTU) rd r1 r2 imm s = Some (isa_branch (x s r1 < x s r2) imm s)"
| "isa_step (RV32I BGEU) rd r1 r2 imm s = Some (isa_branch (x s r2 \<le> x s r1) imm s)"
| "isa_step _ rd r1 r2 imm s = None"

definition isa_execute :: "Instruction \<Rightarrow> IsaState \<Rightarrow> IsaState option" where
  "isa_execute i s = isa_step (itype i) (destinationRegister i) (sourceRegister1 i)
     (sourceRegister2 i) (immValue i) s"

text \<open>
  A taken jump or branch whose target is not a multiple of four raises an instruction-address-misaligned
  exception on a hart without compressed instructions. \<open>isa_outcome\<close> is the step with this exception;
  \<open>NotCovered\<close> stands for the instructions that \<open>isa_step\<close> leaves out.
\<close>

datatype isa_outcome = Executes IsaState | AddressMisaligned Register | NotCovered

definition isa_outcome :: "Instruction \<Rightarrow> IsaState \<Rightarrow> isa_outcome" where
  "isa_outcome i s = (case isa_execute i s of
     None \<Rightarrow> NotCovered
   | Some s' \<Rightarrow>
       if taken (itype i) (x s (sourceRegister1 i)) (x s (sourceRegister2 i)) \<and> pc s' mod 4 \<noteq> 0
       then AddressMisaligned (pc s') else Executes s')"

definition hart :: "Thread \<Rightarrow> IsaState" where
  "hart t = \<lparr>x = reg t, pc = programCounter t\<rparr>"

text \<open>The register that a \<open>JALR\<close> overwrites before it reads it.\<close>

definition clobbers_source :: "Instruction \<Rightarrow> bool" where
  "clobbers_source i \<longleftrightarrow>
     itype i = RV32I JALR \<and> destinationRegister i = sourceRegister1 i \<and> destinationRegister i \<noteq> 0"

definition jumps :: "Instruction \<Rightarrow> Thread \<Rightarrow> bool" where
  "jumps i t \<longleftrightarrow> taken (itype i) (reg t (sourceRegister1 i)) (reg t (sourceRegister2 i))"

lemma isa_execute_supported: "(\<exists>s'. isa_execute i s = Some s') \<longleftrightarrow> supported (itype i)"
  unfolding isa_execute_def
  by (rule isa_step.cases [of "(itype i, destinationRegister i, sourceRegister1 i, sourceRegister2 i,
        immValue i, s)"]) simp_all

lemma hart_put:
  assumes "wf_thread t" and "unat rd < registerCount"
  shows "hart (put rd v t) = isa_write rd v (hart t)"
  using reg_put [OF assms] by (auto simp: hart_def isa_write_def fun_eq_iff)

lemma hart_updates [simp]:
  "hart (t\<lparr>programCounter := p\<rparr>) = (hart t)\<lparr>pc := p\<rparr>" "hart (t\<lparr>cycleCounter := c\<rparr>) = hart t"
  "pc (hart t) = programCounter t" "x (hart t) = reg t"
  by (simp_all add: hart_def)

lemma supported_cases:
  assumes "supported k"
  obtains "k = RV32I LUI" | "k = RV32I AUIPC" | "k = RV32I JAL" | "k = RV32I JALR"
  | "k = RV32I BEQ" | "k = RV32I BNE" | "k = RV32I BLT" | "k = RV32I BGE" | "k = RV32I BLTU"
  | "k = RV32I BGEU"
  using assms by (cases k) auto

lemma execute_unsupported:
  assumes "\<not> supported (itype i)"
  shows "execute i (itype i) t = Inl (RuntimeError ''Unsupported instruction'')"
proof (cases "itype i")
  case (RV32I k)
  with assms show ?thesis by (cases k) simp_all
qed simp_all

text \<open>
  The body of the loop against the manual: it executes the same instructions, writes the same
  registers, and reaches the manual's program counter, plus four if the instruction jumped.
\<close>

lemma execute_isa:
  assumes i: "wf_decoded i" and t: "wf_thread t" and "supported (itype i)"
    and clobber: "\<not> clobbers_source i"
  obtains t' s' where "execute i (itype i) t = Inr t'" "isa_execute i (hart t) = Some s'"
    "hart (t'\<lparr>programCounter := getNextProgramCounter t'\<rparr>) =
      s'\<lparr>pc := pc s' + (if jumps i t then 4 else 0)\<rparr>" "wf_thread t'" "cycleCounter t' = cycleCounter t"
proof -
  note regs = wf_decoded_registers [OF i]
  note simps = hart_put [OF t] isa_execute_def isa_jump_def isa_branch_def jumps_def
    getNextProgramCounter_def regs wf_put [OF t] t Let_def
  note branch = branchIf_wf [OF i _ t]
  have "\<exists>t' s'. execute i (itype i) t = Inr t' \<and> isa_execute i (hart t) = Some s' \<and>
    hart (t'\<lparr>programCounter := getNextProgramCounter t'\<rparr>) =
      s'\<lparr>pc := pc s' + (if jumps i t then 4 else 0)\<rparr> \<and> wf_thread t' \<and> cycleCounter t' = cycleCounter t"
    using assms(3)
  proof (cases rule: supported_cases)
    case 1
    with execute_wf(1) [OF i t] show ?thesis by (simp add: simps)
  next
    case 2
    with execute_wf(2) [OF i t] show ?thesis by (simp add: simps)
  next
    case 3
    with execute_wf(3) [OF i t] show ?thesis by (simp add: simps)
  next
    case 4
    let ?u = "put (destinationRegister i) (programCounter t + 4) t"
    have "reg ?u (sourceRegister1 i) = reg t (sourceRegister1 i)"
      using clobber 4 reg_put [OF t regs(1)] by (auto simp: clobbers_source_def)
    with 4 execute_wf(4) [OF i t] show ?thesis by (simp add: simps)
  qed (auto simp: simps branch word_sless_alt word_sle_eq)
  then show ?thesis using that by blast
qed

section \<open>The loop\<close>

definition wf_program :: "Instruction list \<Rightarrow> bool" where
  "wf_program instrs \<longleftrightarrow> (\<forall>i \<in> set instrs. wf_decoded i) \<and> 4 * length instrs < 2 ^ 63"

definition current :: "Instruction list \<Rightarrow> Thread \<Rightarrow> Instruction" where
  "current instrs t = instrs ! unat (getInstructionIndex t)"

definition inside :: "Instruction list \<Rightarrow> Thread \<Rightarrow> bool" where
  "inside instrs t \<longleftrightarrow> unat (getInstructionIndex t) < length instrs"

lemma current_wf: "wf_program instrs \<Longrightarrow> inside instrs t \<Longrightarrow> wf_decoded (current instrs t)"
  by (simp add: wf_program_def current_def inside_def)

lemma getInstructionIndex_cycle [simp]:
  "getInstructionIndex (t\<lparr>cycleCounter := c\<rparr>) = getInstructionIndex t"
  by (simp add: getInstructionIndex_def)

lemma iteration_outside: "\<not> inside instrs t \<Longrightarrow> iteration instrs t = Inl (Returned t)"
  by (simp add: iteration_def inside_def)

lemma iteration_inside:
  "inside instrs t \<Longrightarrow> iteration instrs t =
    (let i = current instrs t; t = t\<lparr>cycleCounter := cycleCounter t + 1\<rparr> in
     case execute i (itype i) t of
       Inl e \<Rightarrow> Inl (Threw e t)
     | Inr t \<Rightarrow> Inr (t\<lparr>programCounter := getNextProgramCounter t\<rparr>))"
  by (simp add: iteration_def inside_def current_def Let_def)

lemma iteration_unsupported:
  assumes "inside instrs t" and "\<not> supported (itype (current instrs t))"
  shows "iteration instrs t = Inl (Threw (RuntimeError ''Unsupported instruction'')
    (t\<lparr>cycleCounter := cycleCounter t + 1\<rparr>))"
  using execute_unsupported [OF assms(2)] by (simp add: iteration_inside [OF assms(1)] Let_def)

text \<open>The same for an instruction that does not lose its source register.\<close>

lemma iteration_isa:
  assumes "wf_program instrs" and t: "wf_thread t" and inside: "inside instrs t"
    and i: "i = current instrs t" and "supported (itype i)" and "\<not> clobbers_source i"
  obtains t' s' where "iteration instrs t = Inr t'" "isa_execute i (hart t) = Some s'"
    "hart t' = s'\<lparr>pc := pc s' + (if jumps i t then 4 else 0)\<rparr>" "wf_thread t'"
    "cycleCounter t' = cycleCounter t + 1"
proof -
  let ?t = "t\<lparr>cycleCounter := cycleCounter t + 1\<rparr>"
  have "wf_decoded i" using current_wf [OF assms(1) inside] i by simp
  moreover have "wf_thread ?t" using t by simp
  ultimately obtain u s' where u: "execute i (itype i) ?t = Inr u"
    "isa_execute i (hart ?t) = Some s'"
    "hart (u\<lparr>programCounter := getNextProgramCounter u\<rparr>) =
      s'\<lparr>pc := pc s' + (if jumps i ?t then 4 else 0)\<rparr>" "wf_thread u" "cycleCounter u = cycleCounter ?t"
    using assms(5,6) by (rule execute_isa)
  have jumps: "jumps i ?t = jumps i t" by (simp add: jumps_def)
  show thesis
  proof (rule that)
    show "iteration instrs t = Inr (u\<lparr>programCounter := getNextProgramCounter u\<rparr>)"
      using u(1) i by (simp add: iteration_inside [OF inside] Let_def)
    show "isa_execute i (hart t) = Some s'" using u(2) by simp
    show "hart (u\<lparr>programCounter := getNextProgramCounter u\<rparr>) =
        s'\<lparr>pc := pc s' + (if jumps i t then 4 else 0)\<rparr>" using u(3) unfolding jumps .
    show "wf_thread (u\<lparr>programCounter := getNextProgramCounter u\<rparr>)" using u(4) by simp
    show "cycleCounter (u\<lparr>programCounter := getNextProgramCounter u\<rparr>) = cycleCounter t + 1"
      using u(5) by simp
  qed
qed

text \<open>The instruction that does: it jumps relative to the return address it has just written.\<close>

lemma iteration_clobbers:
  assumes "wf_program instrs" and t: "wf_thread t" and inside: "inside instrs t"
    and i: "i = current instrs t" and clobber: "clobbers_source i"
  obtains t' where "iteration instrs t = Inr t'" "wf_thread t'"
    "hart t' = isa_jump (bitand (programCounter t + 4 + immValue i) (bitnot 1) + 4)
      (isa_write (destinationRegister i) (programCounter t + 4) (hart t))"
    "cycleCounter t' = cycleCounter t + 1"
proof -
  let ?t = "t\<lparr>cycleCounter := cycleCounter t + 1\<rparr>"
  let ?u = "put (destinationRegister i) (programCounter t + 4) ?t"
  have wf: "wf_decoded i" using current_wf [OF assms(1) inside] i by simp
  note regs = wf_decoded_registers [OF wf]
  have t': "wf_thread ?t" using t by simp
  have type: "itype i = RV32I JALR" and r1: "sourceRegister1 i = destinationRegister i"
    and nz: "destinationRegister i \<noteq> 0" using clobber by (auto simp: clobbers_source_def)
  have "reg ?u (sourceRegister1 i) = programCounter t + 4"
    using reg_put [OF t' regs(1)] nz r1 by simp
  then have ex: "execute i (itype i) ?t = Inr (?u\<lparr>programCounter :=
      bitand (programCounter t + 4 + immValue i) (bitnot 1)\<rparr>)"
    using execute_wf(4) [OF wf t' type] by (simp add: Let_def)
  show thesis
  proof (rule that)
    show "iteration instrs t = Inr (?u\<lparr>programCounter :=
        bitand (programCounter t + 4 + immValue i) (bitnot 1) + 4\<rparr>)"
      using ex i by (simp add: iteration_inside [OF inside] Let_def getNextProgramCounter_def)
  qed (use hart_put [OF t' regs(1)] wf_put [OF t'] in \<open>simp_all add: isa_jump_def\<close>)
qed

lemma iteration_supported:
  assumes "wf_program instrs" and "wf_thread t" and "inside instrs t"
    and "supported (itype (current instrs t))"
  shows "\<exists>t'. iteration instrs t = Inr t' \<and> wf_thread t' \<and> cycleCounter t' = cycleCounter t + 1"
proof (cases "clobbers_source (current instrs t)")
  case True
  show ?thesis by (rule iteration_clobbers [OF assms(1-3) refl True]) blast
next
  case False
  show ?thesis by (rule iteration_isa [OF assms(1-3) refl assms(4) False]) blast
qed

text \<open>Every iteration of a well-formed program, with the three ways it can go.\<close>

lemma iteration_cases [consumes 2]:
  assumes "wf_program instrs" and "wf_thread t"
  obtains (outside) "\<not> inside instrs t" "iteration instrs t = Inl (Returned t)"
  | (throws) "inside instrs t" "\<not> supported (itype (current instrs t))"
      "iteration instrs t = Inl (Threw (RuntimeError ''Unsupported instruction'')
        (t\<lparr>cycleCounter := cycleCounter t + 1\<rparr>))"
  | (continues) t' where "inside instrs t" "supported (itype (current instrs t))"
      "iteration instrs t = Inr t'" "wf_thread t'" "cycleCounter t' = cycleCounter t + 1"
  using iteration_outside [of instrs t] iteration_unsupported [of instrs t]
    iteration_supported [OF assms] by blast

lemma iteration_wf:
  assumes "wf_program instrs" and "wf_thread t" and "iteration instrs t = Inr t'"
  shows "wf_thread t'"
  using assms by (cases rule: iteration_cases) auto

lemma run_iff: "run t e = Some r \<longleftrightarrow> (\<exists>n. drive n (iteration (instructions e)) t = Some r)"
  unfolding run_def by (rule loop.go_iff)

lemma run_wf_end:
  assumes "wf_program (instructions e)" and "wf_thread t" and "run t e = Some r"
  shows "\<exists>u. wf_thread u \<and> iteration (instructions e) u = Inl r"
proof (rule loop.go_invariant)
  show "runLoop (instructions e) t = Some r" using assms(3) by (simp add: run_def)
  show "wf_thread t" by fact
  show "\<And>s s'. wf_thread s \<Longrightarrow> iteration (instructions e) s = Inr s' \<Longrightarrow> wf_thread s'"
    by (rule iteration_wf [OF assms(1)])
qed

section \<open>Reachable states\<close>

text \<open>
  \<open>reaches instrs t n u\<close>: after \<open>n\<close> complete iterations that started in \<open>t\<close> the hart is in \<open>u\<close>.
\<close>

inductive reaches :: "Instruction list \<Rightarrow> Thread \<Rightarrow> nat \<Rightarrow> Thread \<Rightarrow> bool" for instrs where
  start: "reaches instrs t 0 t"
| iterate: "iteration instrs t = Inr u \<Longrightarrow> reaches instrs u n v \<Longrightarrow> reaches instrs t (Suc n) v"

inductive_cases reachesE: "reaches instrs t n u"
inductive_simps reaches_0: "reaches instrs t 0 u"
inductive_simps reaches_Suc: "reaches instrs t (Suc n) u"

lemma reaches_wf:
  assumes "reaches instrs t n u" and "wf_program instrs" and "wf_thread t"
  shows "wf_thread u \<and> cycleCounter u = cycleCounter t + of_nat n"
  using assms(1,3)
proof induction
  case start
  then show ?case by simp
next
  case (iterate t u n v)
  from assms(2) iterate.prems show ?case
  proof (cases rule: iteration_cases)
    case (continues t')
    then show ?thesis using iterate by (simp add: add_ac)
  qed (use iterate.hyps(1) in simp_all)
qed

lemma drive_reaches:
  "drive n (iteration instrs) t = Some r \<longleftrightarrow>
    (\<exists>k < n. \<exists>u. reaches instrs t k u \<and> iteration instrs u = Inl r)"
proof (induction n arbitrary: t)
  case 0
  then show ?case by simp
next
  case (Suc n)
  then show ?case
    by (cases "iteration instrs t") (simp_all add: Ex_less_Suc2 reaches_0 reaches_Suc)
qed

text \<open>A run is characterised by the state in which the loop is left.\<close>

lemma run_reaches_iff:
  "run t e = Some r \<longleftrightarrow>
    (\<exists>n u. reaches (instructions e) t n u \<and> iteration (instructions e) u = Inl r)"
  unfolding run_iff drive_reaches by blast

lemma run_outcome:
  assumes "wf_program (instructions e)" and "wf_thread t" and "run t e = Some r"
  obtains n u where "reaches (instructions e) t n u" "wf_thread u"
    "cycleCounter u = cycleCounter t + of_nat n" "\<not> inside (instructions e) u" "r = Returned u"
  | n u where "reaches (instructions e) t n u" "wf_thread u"
    "cycleCounter u = cycleCounter t + of_nat n" "inside (instructions e) u"
    "\<not> supported (itype (current (instructions e) u))"
    "r = Threw (RuntimeError ''Unsupported instruction'') (u\<lparr>cycleCounter := cycleCounter u + 1\<rparr>)"
proof -
  obtain n u where u: "reaches (instructions e) t n u" "iteration (instructions e) u = Inl r"
    using assms(3) run_reaches_iff by blast
  with reaches_wf [OF u(1) assms(1,2)] have wf: "wf_thread u" "cycleCounter u = cycleCounter t + of_nat n"
    by blast+
  from assms(1) wf(1) show thesis
    by (cases rule: iteration_cases) (use that u wf in auto)
qed

lemma run_outside: "\<not> inside (instructions e) t \<Longrightarrow> run t e = Some (Returned t)"
  unfolding run_def by (rule loop.go_leave) (rule iteration_outside)

section \<open>Termination\<close>

text \<open>
  A program without \<open>JALR\<close> whose jumps and branches all go forward leaves the loop, after at most
  one iteration per instruction.
\<close>

definition forward :: "Instruction \<Rightarrow> bool" where
  "forward i \<longleftrightarrow> itype i \<noteq> RV32I JALR \<and>
     (itype i \<in> RV32I ` {JAL, BEQ, BNE, BLT, BGE, BLTU, BGEU} \<longrightarrow> unat (immValue i) < 2 ^ 31)"

lemma jumps_transfer:
  "jumps i t \<Longrightarrow> itype i \<in> RV32I ` {JAL, JALR, BEQ, BNE, BLT, BGE, BLTU, BGEU}"
  unfolding jumps_def
  by (cases "(itype i, reg t (sourceRegister1 i), reg t (sourceRegister2 i))" rule: taken.cases) simp_all

lemma index_of_pc: "unat (getInstructionIndex t) = unat (programCounter t) div 4"
  by (simp add: getInstructionIndex_def unat_div)

lemma unat_add_small:
  fixes a b :: "'a::len word"
  assumes "unat a + unat b < 2 ^ LENGTH('a)"
  shows "unat (a + b) = unat a + unat b"
  using assms by (simp add: unat_word_ariths)

lemma isa_pc:
  assumes "isa_execute i s = Some s'" and "itype i \<noteq> RV32I JALR"
  shows "pc s' = pc s + (if taken (itype i) (x s (sourceRegister1 i)) (x s (sourceRegister2 i))
    then immValue i else 4)"
  using assms unfolding isa_execute_def
  by (cases "(itype i, destinationRegister i, sourceRegister1 i, sourceRegister2 i, immValue i, s)"
      rule: isa_step.cases) (auto simp: isa_jump_def isa_branch_def isa_write_def)

lemma forward_iteration:
  assumes wf: "wf_program instrs" and t: "wf_thread t" and fw: "\<forall>i \<in> set instrs. forward i"
    and it: "iteration instrs t = Inr t'"
  shows "inside instrs t" "wf_thread t'"
    "unat (getInstructionIndex t) < unat (getInstructionIndex t')"
proof -
  have "inside instrs t \<and> supported (itype (current instrs t))"
    using wf t by (cases rule: iteration_cases) (use it in auto)
  then have inside: "inside instrs t" and sup: "supported (itype (current instrs t))" by simp_all
  show "inside instrs t" by fact
  let ?i = "current instrs t"
  have "forward ?i" using fw inside by (simp add: current_def inside_def)
  then have nj: "itype ?i \<noteq> RV32I JALR" and imm: "jumps ?i t \<Longrightarrow> unat (immValue ?i) < 2 ^ 31"
    using jumps_transfer [of ?i t] by (auto simp: forward_def)
  obtain s' where s': "isa_execute ?i (hart t) = Some s'" "wf_thread t'"
    "hart t' = s'\<lparr>pc := pc s' + (if jumps ?i t then 4 else 0)\<rparr>"
    by (rule iteration_isa [OF wf t inside refl sup])
      (use nj it in \<open>auto simp: clobbers_source_def\<close>)
  show "wf_thread t'" by fact
  define d where "d = (if jumps ?i t then immValue ?i + 4 else 4)"
  have s'_pc: "pc s' = programCounter t + (if jumps ?i t then immValue ?i else 4)"
    using isa_pc [OF s'(1) nj] by (simp only: jumps_def hart_updates)
  have "pc (hart t') = pc s' + (if jumps ?i t then 4 else 0)" unfolding s'(3) by simp
  then have pc: "programCounter t' = programCounter t + d"
    unfolding hart_updates s'_pc d_def by (cases "jumps ?i t") simp_all
  have "unat (immValue ?i + 4) = unat (immValue ?i) + 4" if "jumps ?i t"
    using imm [OF that] by (subst unat_add_small) simp_all
  then have d: "4 \<le> unat d" "unat d < 2 ^ 32"
    using imm by (cases "jumps ?i t"; simp add: d_def)+
  have "unat (programCounter t) < 4 * length instrs + 4"
    using inside by (simp add: inside_def index_of_pc)
  then have "unat (programCounter t') = unat (programCounter t) + unat d"
    using wf d by (simp add: pc wf_program_def unat_add_small)
  then show "unat (getInstructionIndex t) < unat (getInstructionIndex t')"
    using d(1) by (simp add: index_of_pc)
qed

lemma forward_terminates:
  assumes "wf_program (instructions e)" and "wf_thread t" and "\<forall>i \<in> set (instructions e). forward i"
  shows "\<exists>r. drive (Suc (length (instructions e))) (iteration (instructions e)) t = Some r"
proof -
  let ?f = "\<lambda>t. length (instructions e) - unat (getInstructionIndex t)"
  have "wf_thread s' \<and> ?f s' < ?f s"
    if "wf_thread s" "iteration (instructions e) s = Inr s'" for s s'
    using forward_iteration [OF assms(1) that(1) assms(3) that(2)] by (auto simp: inside_def)
  then have "\<exists>r. drive (Suc (?f t)) (iteration (instructions e)) t = Some r"
    using loop.drive_terminates [of wf_thread t "instructions e" ?f] assms(2) by blast
  then show ?thesis by (meson Suc_le_mono diff_le_self drive_more)
qed

section \<open>Straight-line programs\<close>

text \<open>
  A program of upper-immediate instructions runs from its first instruction to its last, does what
  the manual says, and returns with the program counter just behind it.
\<close>

definition straight :: "Instruction \<Rightarrow> bool" where
  "straight i \<longleftrightarrow> itype i = RV32I LUI \<or> itype i = RV32I AUIPC"

definition isa_program :: "Instruction list \<Rightarrow> IsaState \<Rightarrow> IsaState" where
  "isa_program instrs s = fold (\<lambda>i s. the (isa_execute i s)) instrs s"

lemma straight_iteration:
  assumes "wf_program instrs" and "wf_thread t" and "inside instrs t" and "straight (current instrs t)"
  obtains t' where "iteration instrs t = Inr t'" "wf_thread t'"
    "hart t' = the (isa_execute (current instrs t) (hart t))"
    "programCounter t' = programCounter t + 4" "cycleCounter t' = cycleCounter t + 1"
proof -
  let ?i = "current instrs t"
  have i: "supported (itype ?i)" "\<not> clobbers_source ?i" "itype ?i \<noteq> RV32I JALR" "\<not> jumps ?i u"
    "\<not> taken (itype ?i) a b" for u a b
    using assms(4) by (auto simp: straight_def clobbers_source_def jumps_def)
  obtain t' s' where t': "iteration instrs t = Inr t'" "isa_execute ?i (hart t) = Some s'"
    "hart t' = s'\<lparr>pc := pc s' + (if jumps ?i t then 4 else 0)\<rparr>" "wf_thread t'"
    "cycleCounter t' = cycleCounter t + 1"
    by (rule iteration_isa [OF assms(1-3) refl i(1,2)])
  have h: "hart t' = s'" unfolding t'(3) using i(4) by simp
  have "pc (hart t') = programCounter t + 4"
    using isa_pc [OF t'(2) i(3)] i(5) unfolding h by simp
  then have "programCounter t' = programCounter t + 4" unfolding hart_updates .
  moreover have "hart t' = the (isa_execute ?i (hart t))" unfolding h t'(2) by simp
  ultimately show thesis using t'(1,4,5) by (intro that)
qed

lemma unat_pc_index:
  assumes "4 * k < 2 ^ 63"
  shows "unat ((4 :: u64) * of_nat k) = 4 * k"
proof -
  have "(4 :: u64) * of_nat k = of_nat (4 * k)" by simp
  moreover have "4 * k < 2 ^ LENGTH(64)" using assms by simp
  ultimately show ?thesis by (metis of_nat_inverse)
qed

lemma straight_prefix:
  assumes "wf_program instrs" and "\<forall>i \<in> set (take n instrs). straight i" and "n \<le> length instrs"
    and "wf_thread t" and "programCounter t = 4 * of_nat k" and "k \<le> n"
  shows "\<exists>u. reaches instrs t (n - k) u \<and>
    hart u = isa_program (drop k (take n instrs)) (hart t) \<and> programCounter u = 4 * of_nat n"
  using assms(4-6)
proof (induction "n - k" arbitrary: k t)
  case 0
  then show ?case using start [of instrs t] by (auto simp: isa_program_def)
next
  case (Suc m)
  then have k: "k < n" "k < length instrs" "m = n - Suc k" using assms(3) by simp_all
  have "4 * k < 2 ^ 63" using k(2) assms(1) by (simp add: wf_program_def)
  then have idx: "unat (getInstructionIndex t) = k"
    using unat_pc_index [of k] Suc.prems(2) by (simp add: index_of_pc)
  then have inside: "inside instrs t" and cur: "current instrs t = take n instrs ! k"
    using k(1,2) by (simp_all add: inside_def current_def)
  have len: "k < length (take n instrs)" using k(1,2) by simp
  have "straight (current instrs t)" using assms(2) nth_mem [OF len] by (simp only: cur)
  then obtain t' where t': "iteration instrs t = Inr t'" "wf_thread t'"
    "hart t' = the (isa_execute (current instrs t) (hart t))"
    "programCounter t' = programCounter t + 4"
    using straight_iteration [OF assms(1) Suc.prems(1) inside] by metis
  have "programCounter t' = 4 * of_nat (Suc k)" using t'(4) Suc.prems(2) by (simp add: algebra_simps)
  with Suc.hyps(1) [OF k(3) t'(2)] k obtain u where u: "reaches instrs t' m u"
    "hart u = isa_program (drop (Suc k) (take n instrs)) (hart t')" "programCounter u = 4 * of_nat n"
    by auto
  have "reaches instrs t (n - k) u"
    using iterate [OF t'(1) u(1)] Suc.hyps(2) by simp
  moreover have "hart u = isa_program (drop k (take n instrs)) (hart t)"
    unfolding u(2) t'(3) cur Cons_nth_drop_Suc [OF len, symmetric] by (simp add: isa_program_def)
  ultimately show ?case using u(3) by blast
qed

lemma outside_end: "wf_program instrs \<Longrightarrow> programCounter u = 4 * of_nat (length instrs) \<Longrightarrow> \<not> inside instrs u"
  using unat_pc_index [of "length instrs"] by (simp add: inside_def index_of_pc wf_program_def)

lemma straight_returns:
  assumes "wf_program (instructions e)" and "\<forall>i \<in> set (instructions e). straight i"
  obtains u where "run Thread_init e = Some (Returned u)"
    "hart u = isa_program (instructions e) (hart Thread_init)"
    "programCounter u = 4 * of_nat (length (instructions e))"
    "cycleCounter u = of_nat (length (instructions e))"
proof -
  let ?is = "instructions e"
  have "programCounter Thread_init = 4 * of_nat 0" by (simp add: Thread_init_def)
  with straight_prefix [OF assms(1), of "length ?is" Thread_init 0] assms(2) obtain u where
    u: "reaches ?is Thread_init (length ?is) u" "hart u = isa_program ?is (hart Thread_init)"
    "programCounter u = 4 * of_nat (length ?is)" by (auto simp: wf_thread_init)
  have "iteration ?is u = Inl (Returned u)"
    by (rule iteration_outside [OF outside_end [OF assms(1) u(3)]])
  then have "run Thread_init e = Some (Returned u)" using u(1) run_reaches_iff by blast
  moreover have "cycleCounter u = of_nat (length ?is)"
    using reaches_wf [OF u(1) assms(1) wf_thread_init] by (simp add: Thread_init_def)
  ultimately show thesis using that u(2,3) by blast
qed

text \<open>An instruction behind them that the loop does not support ends the run with an exception.\<close>

lemma straight_throws:
  assumes "wf_program (instructions e)" and "instructions e = before @ i # after"
    and "\<forall>j \<in> set before. straight j" and "\<not> supported (itype i)"
  obtains u where
    "run Thread_init e = Some (Threw (RuntimeError ''Unsupported instruction'')
      (u\<lparr>cycleCounter := cycleCounter u + 1\<rparr>))"
    "hart u = isa_program before (hart Thread_init)"
    "programCounter u = 4 * of_nat (length before)" "cycleCounter u = of_nat (length before)"
proof -
  let ?is = "instructions e"
  have "programCounter Thread_init = 4 * of_nat 0" by (simp add: Thread_init_def)
  with straight_prefix [OF assms(1), of "length before" Thread_init 0] assms(2,3) obtain u where
    u: "reaches ?is Thread_init (length before) u" "hart u = isa_program before (hart Thread_init)"
    "programCounter u = 4 * of_nat (length before)" by (auto simp: wf_thread_init)
  have "4 * length before < 2 ^ 63" using assms(1,2) by (simp add: wf_program_def)
  then have "unat (getInstructionIndex u) = length before"
    using unat_pc_index [of "length before"] u(3) by (simp add: index_of_pc)
  then have "inside ?is u" and "current ?is u = i"
    by (simp_all add: inside_def current_def assms(2))
  then have "iteration ?is u = Inl (Threw (RuntimeError ''Unsupported instruction'')
      (u\<lparr>cycleCounter := cycleCounter u + 1\<rparr>))"
    using iteration_unsupported [of ?is u] assms(4) by simp
  then have "run Thread_init e = Some (Threw (RuntimeError ''Unsupported instruction'')
      (u\<lparr>cycleCounter := cycleCounter u + 1\<rparr>))"
    using u(1) run_reaches_iff by blast
  moreover have "cycleCounter u = of_nat (length before)"
    using reaches_wf [OF u(1) assms(1) wf_thread_init] by (simp add: Thread_init_def)
  ultimately show thesis using that u(2,3) by blast
qed

section \<open>System call handlers\<close>

text \<open>
  The states an emulator can be brought into through its public interface: \<open>m\<close> is any memory a
  client leaves behind, since \<^verbatim>\<open>memory\<close> is a public member.
\<close>

inductive emulator_state :: "'h Emulator \<Rightarrow> bool" where
  construct: "emulator_state (Emulator_init address bytes now)"
| set_memory: "emulator_state e \<Longrightarrow> emulator_state (e\<lparr>memory := m\<rparr>)"
| set_instructions: "emulator_state e \<Longrightarrow> emulator_state (setInstructions instrs e)"
| register_handler: "emulator_state e \<Longrightarrow> registerCustomSyscallHandler n h e = Inr e' \<Longrightarrow> emulator_state e'"
| unregister_handler: "emulator_state e \<Longrightarrow> emulator_state (unregisterCustomSyscallHandler n e)"

lemma handlers_reserved:
  assumes "emulator_state e" and "customSyscallHandlers e n = Some h"
  shows "n \<le> 127"
  using assms
  by (induction arbitrary: h)
    (auto simp: Emulator_init_def setInstructions_def registerCustomSyscallHandler_def
      unregisterCustomSyscallHandler_def split: if_splits)

lemma register_again:
  assumes "registerCustomSyscallHandler n h e = Inr e'"
  shows "customSyscallHandlers e' n = Some h"
    and "k \<noteq> n \<Longrightarrow> customSyscallHandlers e' k = customSyscallHandlers e k"
    and "unregisterCustomSyscallHandler n e' = unregisterCustomSyscallHandler n e"
  using assms
  by (auto simp: registerCustomSyscallHandler_def unregisterCustomSyscallHandler_def split: if_splits)

end
