(* ===== verification/MachineProperties.thy ===== *)
theory MachineProperties
  imports Emulator
begin

text \<open>
  The properties of the execution loop, of the guest memory and of the utilities below them, with
  an application of each at a concrete input.
\<close>

section \<open>Concrete machines\<close>

text \<open>Instructions and emulators that the applications use.\<close>

definition jal :: "RegisterIndex \<Rightarrow> i32 \<Rightarrow> Instruction" where
  "jal rd offset = Instruction_init\<lparr>operand := Immediate offset, destinationRegister := rd,
     itype := RV32I JAL\<rparr>"

definition jalr :: "RegisterIndex \<Rightarrow> RegisterIndex \<Rightarrow> i32 \<Rightarrow> Instruction" where
  "jalr rd rs offset = Instruction_init\<lparr>operand := Immediate offset, destinationRegister := rd,
     sourceRegister1 := rs, itype := RV32I JALR\<rparr>"

definition lui :: "RegisterIndex \<Rightarrow> i32 \<Rightarrow> Instruction" where
  "lui rd v = Instruction_init\<lparr>operand := Immediate v, destinationRegister := rd, itype := RV32I LUI\<rparr>"

definition emulatorWith :: "Instruction list \<Rightarrow> nat Emulator" where
  "emulatorWith instrs = setInstructions instrs (Emulator_init 0 64 0)"

lemma instructions_emulatorWith [simp]: "instructions (emulatorWith instrs) = instrs"
  by (simp add: emulatorWith_def setInstructions_def)

lemmas small_instructions = jal_def jalr_def lui_def Instruction_init_def

lemma wf_small:
  "unat rd < 32 \<Longrightarrow> wf_decoded (jal rd v)" "unat rd < 32 \<Longrightarrow> unat rs < 32 \<Longrightarrow> wf_decoded (jalr rd rs v)"
  "unat rd < 32 \<Longrightarrow> wf_decoded (lui rd v)"
  by (simp_all add: wf_decoded_def wf_instruction_def small_instructions registerCount_def)

lemma index_init [simp]: "getInstructionIndex Thread_init = 0" "programCounter Thread_init = 0"
    "cycleCounter Thread_init = 0"
  by (simp_all add: getInstructionIndex_def Thread_init_def)

lemma inside_init [simp]: "inside (i # is) Thread_init" "current (i # is) Thread_init = i"
  by (simp_all add: inside_def current_def)

section \<open>Execution\<close>

text \<open>
  C8: One iteration of the execution loop on the instruction that it fetches, against the step of the
  instruction set manual for \<open>LUI\<close>, \<open>AUIPC\<close>, \<open>JAL\<close>, \<open>JALR\<close> and the six branches (other than a \<open>JALR\<close>
  that overwrites its own source, the subject of C9), on a decoded program and a well-formed hart.
  Where the manual executes the instruction, the iteration leaves the manual's registers and program
  counter, except that a jump that is taken lands four bytes behind its target, because \<^verbatim>\<open>continue\<close>
  still runs the increment of the \<^verbatim>\<open>for\<close> statement. Where the manual raises
  instruction-address-misaligned, because the target of a taken jump or branch is not a multiple of
  four, the iteration raises nothing: it writes the link register as if the jump were legal and
  continues four bytes behind the target. An instruction of any other type throws \<^verbatim>\<open>Unsupported
  instruction\<close>, whatever the manual says of it. Each case counts one cycle.
\<close>

theorem iteration_refines_isa:
  assumes "wf_program instrs" and "wf_thread t" and "inside instrs t"
    and "\<not> clobbers_source (current instrs t)"
  shows "case isa_outcome (current instrs t) (hart t) of
      Executes s' \<Rightarrow> \<exists>t'. iteration instrs t = Inr t' \<and>
        hart t' = s'\<lparr>pc := pc s' + (if jumps (current instrs t) t then 4 else 0)\<rparr> \<and>
        wf_thread t' \<and> cycleCounter t' = cycleCounter t + 1
    | AddressMisaligned target \<Rightarrow> \<exists>t' s'. iteration instrs t = Inr t' \<and>
        isa_execute (current instrs t) (hart t) = Some s' \<and> pc s' = target \<and>
        hart t' = s'\<lparr>pc := target + 4\<rparr> \<and> wf_thread t' \<and> cycleCounter t' = cycleCounter t + 1
    | NotCovered \<Rightarrow> iteration instrs t = Inl (Threw (RuntimeError ''Unsupported instruction'')
        (t\<lparr>cycleCounter := cycleCounter t + 1\<rparr>))"
proof (cases "supported (itype (current instrs t))")
  case True
  obtain t' s' where t': "iteration instrs t = Inr t'" "isa_execute (current instrs t) (hart t) = Some s'"
    "hart t' = s'\<lparr>pc := pc s' + (if jumps (current instrs t) t then 4 else 0)\<rparr>"
    "wf_thread t'" "cycleCounter t' = cycleCounter t + 1"
    by (rule iteration_isa [OF assms(1-3) refl True assms(4)])
  show ?thesis
  proof (cases "jumps (current instrs t) t \<and> pc s' mod 4 \<noteq> 0")
    case True
    then have "isa_outcome (current instrs t) (hart t) = AddressMisaligned (pc s')"
      by (simp add: isa_outcome_def t'(2) jumps_def)
    moreover have "hart t' = s'\<lparr>pc := pc s' + 4\<rparr>" unfolding t'(3) using True by simp
    ultimately show ?thesis using t'(1,2,4,5) by simp
  next
    case False
    then have "isa_outcome (current instrs t) (hart t) = Executes s'"
      by (simp add: isa_outcome_def t'(2) jumps_def)
    then show ?thesis using t' by simp
  qed
next
  case False
  then have "isa_execute (current instrs t) (hart t) = None"
    using isa_execute_supported by (metis not_None_eq)
  then have "isa_outcome (current instrs t) (hart t) = NotCovered" by (simp add: isa_outcome_def)
  then show ?thesis using iteration_unsupported [OF assms(3) False] by simp
qed

lemma iteration_refines_isa_witness:
  "(\<exists>t'. iteration [jal 1 8] Thread_init = Inr t' \<and> programCounter t' = 12 \<and> reg t' 1 = 4) \<and>
   (\<exists>t'. iteration [jal 1 2] Thread_init = Inr t' \<and> programCounter t' = 6 \<and> reg t' 1 = 4)"
proof -
  have prog: "wf_program [jal 1 v]" for v by (simp add: wf_program_def wf_small)
  have type: "\<not> clobbers_source (jal 1 v)" "jumps (jal 1 v) t" for t v
    by (simp_all add: jal_def clobbers_source_def jumps_def)
  define s where "s v = isa_jump v (isa_write 1 4 (hart Thread_init))" for v
  have step: "isa_execute (jal 1 v) (hart Thread_init) = Some (s (scast v))" for v
    by (simp add: isa_execute_def jal_def immValue_def s_def)
  have s: "pc (s v) = v" "x (s v) 1 = 4" for v by (simp_all add: s_def isa_jump_def isa_write_def)
  have out: "isa_outcome (jal 1 8) (hart Thread_init) = Executes (s 8)"
    "isa_outcome (jal 1 2) (hart Thread_init) = AddressMisaligned 2"
    using type(2) [unfolded jumps_def] by (simp_all add: isa_outcome_def step s)
  obtain t' where t': "iteration [jal 1 8] Thread_init = Inr t'" "hart t' = (s 8)\<lparr>pc := 12\<rparr>"
    using iteration_refines_isa [OF prog wf_thread_init, of 8] type by (auto simp: out s)
  obtain u' where u': "iteration [jal 1 2] Thread_init = Inr u'" "hart u' = (s 2)\<lparr>pc := 6\<rparr>"
    using iteration_refines_isa [OF prog wf_thread_init, of 2] type by (auto simp: out s step)
  have "programCounter t' = 12" "reg t' 1 = 4"
    using arg_cong [OF t'(2), of pc] arg_cong [OF t'(2), of x] by (simp_all add: s)
  moreover have "programCounter u' = 6" "reg u' 1 = 4"
    using arg_cong [OF u'(2), of pc] arg_cong [OF u'(2), of x] by (simp_all add: s)
  ultimately show ?thesis using t'(1) u'(1) by blast
qed

text \<open>
  C9: A \<open>JALR\<close> whose destination is its own source (other than register 0) does not jump to the
  address in that register: the code writes the return address first and then reads it back, so it
  continues at the return address plus the offset (rounded to even, plus the four bytes of C8).
\<close>

theorem jalr_own_source:
  assumes "wf_program instrs" and "wf_thread t" and "inside instrs t"
    and "clobbers_source (current instrs t)"
  shows "\<exists>t'. iteration instrs t = Inr t' \<and> wf_thread t' \<and>
    programCounter t' =
      bitand (programCounter t + 4 + immValue (current instrs t)) (bitnot 1) + 4 \<and>
    reg t' (destinationRegister (current instrs t)) = programCounter t + 4"
proof -
  let ?i = "current instrs t"
  have nz: "destinationRegister ?i \<noteq> 0" using assms(4) by (auto simp: clobbers_source_def)
  obtain t' where t': "iteration instrs t = Inr t'" "wf_thread t'"
    "hart t' = isa_jump (bitand (programCounter t + 4 + immValue ?i) (bitnot 1) + 4)
      (isa_write (destinationRegister ?i) (programCounter t + 4) (hart t))"
    by (rule iteration_clobbers [OF assms(1-3) refl assms(4)])
  have "pc (hart t') = bitand (programCounter t + 4 + immValue ?i) (bitnot 1) + 4"
    "x (hart t') (destinationRegister ?i) = programCounter t + 4"
    unfolding t'(3) using nz by (simp_all add: isa_jump_def isa_write_def)
  then show ?thesis using t'(1,2) by (simp add: hart_def)
qed

lemma jalr_own_source_witness:
  "\<exists>t'. iteration [jalr 1 1 0] Thread_init = Inr t' \<and> programCounter t' = 8"
proof -
  have "wf_program [jalr 1 1 0]" by (simp add: wf_program_def wf_small)
  moreover have "clobbers_source (jalr 1 1 0)" by (simp add: jalr_def clobbers_source_def)
  moreover have "immValue (jalr 1 1 0) = 0" by (simp add: jalr_def immValue_def)
  ultimately show ?thesis
    using jalr_own_source [of "[jalr 1 1 0]" Thread_init] wf_thread_init by auto
qed

text \<open>
  C10: How a run of a decoded program can end: the program counter leaves the program, and the run
  returns; or the hart reaches an instruction that the loop does not support, and the run throws
  exactly \<^verbatim>\<open>Unsupported instruction\<close>. Both hold in a well-formed hart whose cycle counter has counted
  the iterations. There is no other exception and no undefined behaviour.
\<close>

theorem run_ends:
  assumes "wf_program (instructions e)" and "wf_thread t" and "run t e = Some r"
  shows "\<exists>n u. reaches (instructions e) t n u \<and> wf_thread u \<and>
    cycleCounter u = cycleCounter t + of_nat n \<and>
    (\<not> inside (instructions e) u \<and> r = Returned u \<or>
     inside (instructions e) u \<and> \<not> supported (itype (current (instructions e) u)) \<and>
     r = Threw (RuntimeError ''Unsupported instruction'') (u\<lparr>cycleCounter := cycleCounter u + 1\<rparr>))"
  using run_outcome [OF assms] by metis

lemma run_nop: "run Thread_init (emulatorWith [Instruction_init\<lparr>itype := RV32I ADDI\<rparr>]) =
    Some (Threw (RuntimeError ''Unsupported instruction'') (Thread_init\<lparr>cycleCounter := 1\<rparr>))"
  unfolding run_def instructions_emulatorWith
  by (rule loop.go_leave, subst iteration_unsupported) simp_all

lemma run_ends_witness:
  "\<exists>n u. reaches [Instruction_init\<lparr>itype := RV32I ADDI\<rparr>] Thread_init n u \<and> wf_thread u \<and>
    inside [Instruction_init\<lparr>itype := RV32I ADDI\<rparr>] u \<and>
    Threw (RuntimeError ''Unsupported instruction'') (Thread_init\<lparr>cycleCounter := 1\<rparr>) =
      Threw (RuntimeError ''Unsupported instruction'') (u\<lparr>cycleCounter := cycleCounter u + 1\<rparr>)"
proof -
  have "wf_program (instructions (emulatorWith [Instruction_init\<lparr>itype := RV32I ADDI\<rparr>]))"
    by (simp add: wf_program_def wf_decoded_def) (simp add: Instruction_init_def)
  from run_ends [OF this wf_thread_init run_nop] show ?thesis by auto
qed

text \<open>
  C11: The first unsupported instruction ends the run. If the instructions before it are all \<open>LUI\<close> and
  \<open>AUIPC\<close>, a run from the initial hart throws exactly \<^verbatim>\<open>Unsupported instruction\<close>, with the registers
  that the manual computes for the instructions before it, the program counter still at the
  unsupported instruction, and one cycle counted for each of them and one for the throw. The
  instructions behind it have no effect.
\<close>

theorem unsupported_stops:
  assumes "wf_program (instructions e)" and "instructions e = before @ i # after"
    and "\<forall>j \<in> set before. straight j"
    and "itype i \<notin> RV32I ` {LUI, AUIPC, JAL, JALR, BEQ, BNE, BLT, BGE, BLTU, BGEU}"
  shows "\<exists>u. run Thread_init e = Some (Threw (RuntimeError ''Unsupported instruction'') u) \<and>
    hart u = isa_program before (hart Thread_init) \<and>
    programCounter u = 4 * of_nat (length before) \<and>
    cycleCounter u = of_nat (length before) + 1"
proof -
  have "\<not> supported (itype i)" using assms(4) by (auto elim: supported_cases)
  from straight_throws [OF assms(1-3) this] obtain u where
    "run Thread_init e = Some (Threw (RuntimeError ''Unsupported instruction'')
      (u\<lparr>cycleCounter := cycleCounter u + 1\<rparr>))"
    "hart u = isa_program before (hart Thread_init)"
    "programCounter u = 4 * of_nat (length before)" "cycleCounter u = of_nat (length before)" by metis
  then show ?thesis by (intro exI [of _ "u\<lparr>cycleCounter := cycleCounter u + 1\<rparr>"]) simp
qed

lemma unsupported_stops_witness:
  "\<exists>u. run Thread_init (emulatorWith [lui 1 4096, Instruction_init\<lparr>itype := RV32I ADDI\<rparr>, lui 1 0]) =
      Some (Threw (RuntimeError ''Unsupported instruction'') u) \<and>
    reg u 1 = 4096 \<and> programCounter u = 4 \<and> cycleCounter u = 2"
proof -
  let ?e = "emulatorWith [lui 1 4096, Instruction_init\<lparr>itype := RV32I ADDI\<rparr>, lui 1 0]"
  have "wf_decoded (Instruction_init\<lparr>itype := RV32I ADDI\<rparr>)"
    by (simp add: wf_decoded_def) (simp add: Instruction_init_def)
  then have "wf_program (instructions ?e)" by (simp add: wf_program_def wf_small)
  moreover have "instructions ?e = [lui 1 4096] @ Instruction_init\<lparr>itype := RV32I ADDI\<rparr> # [lui 1 0]" by simp
  moreover have "\<forall>j \<in> set [lui 1 4096]. straight j" by (simp add: straight_def lui_def)
  moreover have "itype (Instruction_init\<lparr>itype := RV32I ADDI\<rparr>) \<notin>
      RV32I ` {LUI, AUIPC, JAL, JALR, BEQ, BNE, BLT, BGE, BLTU, BGEU}" by auto
  ultimately have "\<exists>u. run Thread_init ?e = Some (Threw (RuntimeError ''Unsupported instruction'') u) \<and>
      hart u = isa_program [lui 1 4096] (hart Thread_init) \<and>
      programCounter u = 4 * of_nat (length [lui 1 4096]) \<and>
      cycleCounter u = of_nat (length [lui 1 4096]) + 1" by (rule unsupported_stops)
  then obtain u where u: "run Thread_init ?e = Some (Threw (RuntimeError ''Unsupported instruction'') u)"
    "hart u = isa_program [lui 1 4096] (hart Thread_init)" "programCounter u = 4" "cycleCounter u = 2" by auto
  have "x (hart u) 1 = 4096"
    unfolding u(2) by (simp add: isa_program_def isa_execute_def lui_def immValue_def
        isa_write_def isa_jump_def)
  then show ?thesis using u(1,3,4) by simp
qed

lemma iteration_jal:
  assumes "wf_thread t" and "programCounter t = 0" and "wf_program [jal 0 v]"
  shows "\<exists>t'. iteration [jal 0 v] t = Inr t' \<and> wf_thread t' \<and> programCounter t' = scast v + 4"
proof -
  have here: "inside [jal 0 v] t" "current [jal 0 v] t = jal 0 v"
    using assms(2) by (simp_all add: inside_def current_def getInstructionIndex_def)
  have type: "supported (itype (jal 0 v))" "\<not> clobbers_source (jal 0 v)" "jumps (jal 0 v) t"
    by (simp_all add: jal_def clobbers_source_def jumps_def)
  obtain t' s' where t': "iteration [jal 0 v] t = Inr t'" "isa_execute (jal 0 v) (hart t) = Some s'"
    "hart t' = s'\<lparr>pc := pc s' + (if jumps (jal 0 v) t then 4 else 0)\<rparr>" "wf_thread t'"
    by (rule iteration_isa [OF assms(3,1) here(1) here(2) [symmetric] type(1,2)])
  have "pc s' = scast v"
    using t'(2) assms(2) by (auto simp: isa_execute_def jal_def immValue_def isa_jump_def isa_write_def)
  then have "pc (hart t') = scast v + 4" unfolding t'(3) using type(3) by simp
  then show ?thesis using t'(1,4) by (simp add: hart_def)
qed

text \<open>
  C12: In every state that a run reaches, register 0 reads zero, all 32 registers exist, the exception
  flags fit their five bits and the rounding mode its three, and the cycle counter is the number of
  iterations (modulo \<open>2 ^ 64\<close>).
\<close>

theorem reachable_hart:
  assumes "reaches instrs t n u" and "wf_program instrs" and "wf_thread t"
  shows "getRegister (registers u) 0 = Inr 0 \<and> length (registerArray (registers u)) = 32 \<and>
    floatExceptionFlags u < 32 \<and> dynamicFloatRoundingMode u < 8 \<and>
    cycleCounter u = cycleCounter t + of_nat n"
proof -
  have u: "wf_thread u" "cycleCounter u = cycleCounter t + of_nat n"
    using reaches_wf [OF assms] by blast+
  have "getRegister (registers u) 0 = Inr 0"
    using u(1) registers.read_x0 by (simp add: wf_thread_def)
  moreover have "length (registerArray (registers u)) = 32"
    using u(1) by (simp add: wf_thread_def wf_registers_def registerCount_def)
  moreover have "floatExceptionFlags u < 32" "dynamicFloatRoundingMode u < 8"
    using u(1) less_exp_of_take_bit [of 5 "floatExceptionFlags u"]
      less_exp_of_take_bit [of 3 "dynamicFloatRoundingMode u"]
    by (simp_all add: wf_thread_def wf_fcsr_def)
  ultimately show ?thesis using u(2) by blast
qed

lemma reachable_hart_witness:
  "\<exists>u. reaches [jal 0 8] Thread_init 1 u \<and> getRegister (registers u) 0 = Inr 0 \<and> cycleCounter u = 1"
proof -
  have prog: "wf_program [jal 0 8]" by (simp add: wf_program_def wf_small)
  obtain u where "iteration [jal 0 8] Thread_init = Inr u"
    using iteration_jal [OF wf_thread_init _ prog] by auto
  then have "reaches [jal 0 8] Thread_init 1 u" by (simp add: reaches_Suc reaches_0)
  with reachable_hart [OF this prog wf_thread_init] show ?thesis by auto
qed

text \<open>
  C13: A program whose jumps and branches all go forward (their offsets are not negative; the other
  instructions are arbitrary), and that has no \<open>JALR\<close>, terminates from every well-formed hart: its run is over after at most one iteration per instruction and one more.
\<close>

theorem forward_run_terminates:
  assumes "wf_program (instructions e)" and "wf_thread t"
    and "\<forall>i \<in> set (instructions e). forward i"
  shows "\<exists>r. run t e = Some r \<and>
    drive (Suc (length (instructions e))) (iteration (instructions e)) t = Some r"
  using forward_terminates [OF assms] run_iff by blast

lemma forward_run_terminates_witness: "\<exists>r. run Thread_init (emulatorWith [jal 0 0, lui 1 4096]) = Some r"
proof -
  have "wf_program (instructions (emulatorWith [jal 0 0, lui 1 4096]))" by (simp add: wf_program_def wf_small)
  moreover have "\<forall>i \<in> set (instructions (emulatorWith [jal 0 0, lui 1 4096])). forward i"
    by (simp add: forward_def jal_def lui_def immValue_def)
  ultimately show ?thesis using forward_run_terminates wf_thread_init by blast
qed

text \<open>
  C14: A program of upper-immediate instructions (\<open>LUI\<close>, \<open>AUIPC\<close>) computes what the manual says: the
  run returns with the registers after the manual's steps for all instructions in order, with the
  program counter behind the last one, and with one cycle per instruction.
\<close>

theorem straight_program:
  assumes "wf_program (instructions e)" and "\<forall>i \<in> set (instructions e). straight i"
  shows "\<exists>u. run Thread_init e = Some (Returned u) \<and>
    hart u = isa_program (instructions e) (hart Thread_init) \<and>
    programCounter u = 4 * of_nat (length (instructions e)) \<and>
    cycleCounter u = of_nat (length (instructions e))"
  using straight_returns [OF assms] by metis

lemma straight_program_witness:
  "\<exists>u. run Thread_init (emulatorWith [lui 1 4096, lui 2 8192]) = Some (Returned u) \<and>
    reg u 1 = 4096 \<and> reg u 2 = 8192 \<and> programCounter u = 8"
proof -
  let ?is = "[lui 1 4096, lui 2 8192]"
  have "wf_program (instructions (emulatorWith ?is))" by (simp add: wf_program_def wf_small)
  moreover have "\<forall>i \<in> set (instructions (emulatorWith ?is)). straight i" by (simp add: straight_def lui_def)
  ultimately obtain u where u: "run Thread_init (emulatorWith ?is) = Some (Returned u)"
    "hart u = isa_program ?is (hart Thread_init)" "programCounter u = 4 * of_nat 2"
    using straight_program [of "emulatorWith ?is"] by auto
  have "x (hart u) 1 = 4096" "x (hart u) 2 = 8192"
    unfolding u(2) by (simp_all add: isa_program_def isa_execute_def lui_def immValue_def
        isa_write_def isa_jump_def)
  then show ?thesis using u(1,3) by (simp add: hart_def)
qed

text \<open>
  C15: The two idle loops, exchanged. The manual's jump to itself, \<open>JAL x0, 0\<close>, returns from \<^verbatim>\<open>run\<close> after
  one iteration, because it lands behind itself; the jump four bytes back, \<open>JAL x0, -4\<close>, is a loop
  that never returns.
\<close>

theorem idle_loops:
  "run Thread_init (emulatorWith [jal 0 (- 4)]) = None \<and>
   (\<exists>u. run Thread_init (emulatorWith [jal 0 0]) = Some (Returned u) \<and> programCounter u = 4 \<and>
     reaches [jal 0 0] Thread_init 1 u)"
proof
  have prog: "wf_program [jal 0 (- 4)]" "wf_program [jal 0 0]" by (simp_all add: wf_program_def wf_small)
  show "run Thread_init (emulatorWith [jal 0 (- 4)]) = None"
    unfolding run_def instructions_emulatorWith
  proof (rule loop.go_diverges [where I = "\<lambda>t. wf_thread t \<and> programCounter t = 0"])
    show "wf_thread Thread_init \<and> programCounter Thread_init = 0" using wf_thread_init by simp
    fix t assume "wf_thread t \<and> programCounter t = 0"
    with iteration_jal [OF _ _ prog(1)] show "\<exists>t'. iteration [jal 0 (- 4)] t = Inr t' \<and>
        wf_thread t' \<and> programCounter t' = 0" by fastforce
  qed
  obtain u where u: "iteration [jal 0 0] Thread_init = Inr u" "programCounter u = 4"
    using iteration_jal [OF wf_thread_init _ prog(2)] by auto
  have "reaches [jal 0 0] Thread_init 1 u" using u(1) by (simp add: reaches_Suc reaches_0)
  moreover have "iteration [jal 0 0] u = Inl (Returned u)"
    using u(2) by (intro iteration_outside) (simp add: inside_def getInstructionIndex_def)
  ultimately show "\<exists>u. run Thread_init (emulatorWith [jal 0 0]) = Some (Returned u) \<and> programCounter u = 4 \<and>
      reaches [jal 0 0] Thread_init 1 u"
    using u(2) run_reaches_iff [of Thread_init "emulatorWith [jal 0 0]"] by auto
qed

section \<open>System call handlers\<close>

text \<open>
  C16: Registration of a system call handler succeeds exactly for the numbers up to 127 that are
  reserved for the built-in calls, the opposite of its documentation. So in no state that an
  emulator can be brought into is there a handler for a custom call, and performing one does nothing.
\<close>

theorem custom_syscalls_dead:
  assumes "emulator_state e" and "n > builtinNumber MaxBuiltin"
  shows "customSyscallHandlers e n = None \<and> performCustomSyscall call t n e = (Inr (), t, e) \<and>
    registerCustomSyscallHandler n h e =
      Inl (InvalidArgument ''registered syscall number must be > BuiltinSyscall::Max'') \<and>
    ((\<exists>e'. registerCustomSyscallHandler m h e = Inr e') \<longleftrightarrow> m \<le> builtinNumber MaxBuiltin)"
proof -
  have "\<not> n \<le> 127" using assms(2) by simp
  then have none: "customSyscallHandlers e n = None"
    using handlers_reserved [OF assms(1), of n] by (cases "customSyscallHandlers e n") auto
  moreover have "performCustomSyscall call t n e = (Inr (), t, e)"
    by (simp add: performCustomSyscall_def none)
  moreover have "(\<exists>e'. registerCustomSyscallHandler m h e = Inr e') \<longleftrightarrow> m \<le> builtinNumber MaxBuiltin"
    by (simp add: registerCustomSyscallHandler_def linorder_not_le [symmetric])
  ultimately show ?thesis using assms(2) by (simp add: registerCustomSyscallHandler_def)
qed

lemma custom_syscalls_dead_witness:
  "customSyscallHandlers (emulatorWith []) 128 = None \<and>
    registerCustomSyscallHandler 128 7 (emulatorWith []) =
      Inl (InvalidArgument ''registered syscall number must be > BuiltinSyscall::Max'')"
proof -
  have "emulator_state (emulatorWith [])" unfolding emulatorWith_def by (intro emulator_state.intros)
  from custom_syscalls_dead [OF this, of 128] show ?thesis by simp
qed

section \<open>Guest memory\<close>

text \<open>
  C17: Allocation is exact: \<^verbatim>\<open>allocateRaw\<close> returns the least offset behind the used part at which the
  address is aligned and the object fits into the storage, changes no byte, and keeps the arena's
  invariant; it fails with \<^verbatim>\<open>std::bad_alloc\<close>, changing nothing, exactly when there is no such offset.
\<close>

theorem allocateRaw_exact:
  assumes "wf_arena a" and "0 < al"
  shows "case allocateRaw n al a of
      (Inr p, a') \<Rightarrow> al dvd dataAddress a + p \<and> getFreeOffset a \<le> p \<and> p + n \<le> length (raw a) \<and>
        (\<forall>q. al dvd dataAddress a + q \<and> getFreeOffset a \<le> q \<and> q + n \<le> length (raw a) \<longrightarrow> p \<le> q) \<and>
        raw a' = raw a \<and> wf_arena a'
    | (Inl err, a') \<Rightarrow> err = BadAlloc \<and> a' = a \<and>
        (\<forall>q. al dvd dataAddress a + q \<and> getFreeOffset a \<le> q \<longrightarrow> length (raw a) < q + n)"
proof -
  obtain r a' where al: "allocateRaw n al a = (r, a')" by (cases "allocateRaw n al a")
  show ?thesis
  proof (cases r)
    case (Inl err)
    have "err = BadAlloc" "a' = a" using arena.alloc_fail al Inl by blast+
    moreover have "\<not> (\<exists>q. al dvd dataAddress a + q \<and> getFreeOffset a \<le> q \<and> q + n \<le> length (raw a))"
      using arena.alloc_fail_iff [OF assms, of n] al Inl calculation by simp
    ultimately show ?thesis using al Inl by (auto simp: not_le)
  next
    case (Inr p)
    note ok = al [unfolded Inr]
    show ?thesis
      using arena.alloc_aligned [OF assms ok] arena.alloc_bounds [OF assms ok]
        arena.alloc_least [OF assms ok] arena.alloc_frame [OF assms ok] arena.alloc_valid [OF assms ok]
      by (simp add: al Inr)
  qed
qed

lemma allocateRaw_exact_witness:
  "case allocateRaw 4 4 (Arena_init 2 16) of (Inr p, a') \<Rightarrow> p = 2 \<and> wf_arena a' | (Inl err, a') \<Rightarrow> False"
proof -
  have wf: "wf_arena (Arena_init 2 16)" by (rule wf_arena_init) simp
  have "fst (allocateRaw 4 4 (Arena_init 2 16)) = Inr 2"
    by (simp add: allocateRaw_def std_align_def Arena_init_def getFreeOffset_def Let_def)
  then show ?thesis
    using allocateRaw_exact [OF wf, of 4 4] by (auto split: prod.splits)
qed

text \<open>
  C18: Allocated memory stays free. After a successful allocation the next request that fits (and
  whose alignment divides the first one) is given the same pointer, so two live objects share their
  bytes: \<^verbatim>\<open>std::align\<close> takes only the padding off the free space, and the size is never taken off.
\<close>

theorem allocations_alias:
  assumes "wf_arena a" and "0 < al" and "allocateRaw n al a = (Inr p, a')"
    and "al' dvd al" and "p + m \<le> length (raw a)"
  shows "\<exists>a''. allocateRaw m al' a' = (Inr p, a'') \<and> wf_arena a''"
proof -
  obtain a'' where a'': "allocateRaw m al' a' = (Inr p, a'')"
    using arena.alloc_again [OF assms] by blast
  have "0 < al'" using assms(2,4) by (cases al') auto
  then show ?thesis using a'' arena.alloc_valid [OF arena.alloc_valid [OF assms(1-3)] _ a''] by blast
qed

lemma allocations_alias_witness:
  "\<exists>a' a''. allocateRaw 8 8 (Arena_init 0 64) = (Inr 0, a') \<and> allocateRaw 4 4 a' = (Inr 0, a'')"
proof -
  have wf: "wf_arena (Arena_init 0 64)" by (rule wf_arena_init) simp
  obtain a' where a': "allocateRaw 8 8 (Arena_init 0 64) = (Inr 0, a')"
    by (simp add: allocateRaw_def std_align_def Arena_init_def getFreeOffset_def Let_def)
  have "(4 :: nat) dvd 8" by presburger
  from allocations_alias [OF wf _ a' this, of 4] a' show ?thesis by (auto simp: raw_def Arena_init_def)
qed

text \<open>
  C19: When the constructor of item \<open>k\<close> of an array throws, the items \<open>0\<close> to \<open>k - 1\<close> have been
  constructed, but the \<^verbatim>\<open>catch\<close> clause destroys the items \<open>k\<close> down to \<open>1\<close>: it destroys one that was
  never constructed and leaves out the first one. The exception itself is passed on.
\<close>

theorem array_cleanup_range:
  assumes "wf_arena a" and "0 < al" and "sz * n < 2 ^ 64"
    and "allocateRaw (sz * n) al a = (Inr p, a')"
    and "k < n" and "construct k = Inl err" and "isException err"
    and "\<forall>j < k. construct j = Inr (items j) \<and> length (items j) = sz"
  shows "\<exists>a''. allocateArray sz al construct n a = (Inl err, rev [1..<Suc k], a'') \<and>
    slice_of p (k * sz) (raw a'') = concat (map items [0..<k])"
proof -
  let ?cs = "concat (map items [0..<k])"
  have len: "length ?cs = k * sz"
    using assms(8) by (subst length_concat_const [where sz = sz]) auto
  have "p + sz * n \<le> length (storage a)" using allocateRaw_Inr(3) [OF assms(1,2,4)] .
  moreover have "k * sz \<le> sz * n" using assms(5) by (simp add: mult.commute)
  ultimately have "p + k * sz \<le> length (storage a)" by linarith
  then have "slice_of p (k * sz) (overwrite p ?cs (storage a)) = ?cs"
    using slice_of_overwrite_same [of p ?cs "storage a"] len by simp
  then show ?thesis
    using allocateArray_throws [where f = construct and k = k and e = err and items = items,
        OF assms(1-7)] assms(8) by (simp add: raw_def)
qed

lemma array_cleanup_range_witness:
  "fst (snd (allocateArray 1 1 (\<lambda>k. if k = 2 then Inl BadAlloc else Inr [7]) 4 (Arena_init 0 8))) = [2, 1]"
proof -
  let ?f = "\<lambda>k :: nat. if k = 2 then Inl BadAlloc else Inr [7 :: u8]"
  have wf: "wf_arena (Arena_init 0 8)" by (rule wf_arena_init) simp
  obtain a' where raw: "allocateRaw (1 * 4) 1 (Arena_init 0 8) = (Inr 0, a')"
    by (simp add: allocateRaw_def std_align_def Arena_init_def getFreeOffset_def Let_def)
  have "rev [1..<Suc 2] = [2, 1 :: nat]" by (simp add: numeral_2_eq_2)
  then show ?thesis
    using array_cleanup_range [OF wf _ _ raw, of 2 ?f BadAlloc "\<lambda>_. [7]"] by auto
qed

text \<open>
  C20: \<^verbatim>\<open>getFreeOffsetAlignedTo\<close> predicts the allocator: it returns the offset that the next allocation of
  that type gets, and the size of the storage exactly when that allocation fails.
\<close>

theorem free_offset_predicts:
  assumes "wf_arena a" and "0 < al" and "0 < n"
  shows "(fst (allocateRaw n al a) = Inr p \<longleftrightarrow> getFreeOffsetAlignedTo al n a = p \<and> p < length (raw a)) \<and>
    (fst (allocateRaw n al a) = Inl BadAlloc \<longleftrightarrow> getFreeOffsetAlignedTo al n a = length (raw a))"
proof -
  obtain r a' where al: "allocateRaw n al a = (r, a')" by (cases "allocateRaw n al a")
  show ?thesis
  proof (cases r)
    case (Inl err)
    then have "err = BadAlloc" using arena.alloc_fail al by blast
    then show ?thesis using al Inl getFreeOffsetAlignedTo_next [OF assms(1), of al n] by auto
  next
    case (Inr q)
    have "q + n \<le> length (raw a)" using arena.alloc_bounds [OF assms(1,2) al [unfolded Inr]] by simp
    then show ?thesis using al Inr assms(3) getFreeOffsetAlignedTo_next [OF assms(1), of al n] by auto
  qed
qed

lemma free_offset_predicts_witness:
  "fst (allocateRaw 8 8 (Arena_init 0 7)) = Inl BadAlloc \<and>
    getFreeOffsetAlignedTo 8 8 (Arena_init 0 7) = length (raw (Arena_init 0 7))"
proof -
  have wf: "wf_arena (Arena_init 0 7)" by (rule wf_arena_init) simp
  have "fst (allocateRaw 8 8 (Arena_init 0 7)) = Inl BadAlloc"
    by (simp add: allocateRaw_def std_align_def Arena_init_def getFreeOffset_def Let_def)
  then show ?thesis using free_offset_predicts [OF wf, of 8 8] by auto
qed

section \<open>Loads and stores\<close>

text \<open>
  C21: For the three widths and on hosts of either endianness: a store succeeds exactly when its bytes
  end inside the memory, and is undefined behaviour otherwise; a value that was stored is loaded
  back; and a load of the same width that does not overlap the store is not affected.
\<close>

theorem load_after_store:
  "((\<exists>m'. storeU64 nl m p v = Inr m') \<longleftrightarrow> p + 8 \<le> length m) \<and>
   ((\<exists>m'. storeU32 nl m p w = Inr m') \<longleftrightarrow> p + 4 \<le> length m) \<and>
   ((\<exists>m'. storeU16 nl m p h = Inr m') \<longleftrightarrow> p + 2 \<le> length m) \<and>
   (storeU64 nl m p v = Inl err64 \<longrightarrow> err64 = UndefinedBehaviour ''out-of-bounds write'') \<and>
   (storeU32 nl m p w = Inl err32 \<longrightarrow> err32 = UndefinedBehaviour ''out-of-bounds write'') \<and>
   (storeU16 nl m p h = Inl err16 \<longrightarrow> err16 = UndefinedBehaviour ''out-of-bounds write'') \<and>
   (\<forall>m'. storeU64 nl m p v = Inr m' \<longrightarrow> loadU64 nl' m' p = Inr v \<and>
      (\<forall>q. q + 8 \<le> p \<or> p + 8 \<le> q \<longrightarrow> loadU64 nl m' q = loadU64 nl m q)) \<and>
   (\<forall>m'. storeU32 nl m p w = Inr m' \<longrightarrow> loadU32 nl' m' p = Inr w \<and>
      (\<forall>q. q + 4 \<le> p \<or> p + 4 \<le> q \<longrightarrow> loadU32 nl m' q = loadU32 nl m q)) \<and>
   (\<forall>m'. storeU16 nl m p h = Inr m' \<longrightarrow> loadU16 nl' m' p = Inr h \<and>
      (\<forall>q. q + 2 \<le> p \<or> p + 2 \<le> q \<longrightarrow> loadU16 nl m' q = loadU16 nl m q))"
proof -
  have same: "loadU64 nl' = loadU64 nl" "loadU32 nl' = loadU32 nl" "loadU16 nl' = loadU16 nl"
    by (simp_all only: codec_forms)
  show ?thesis
    unfolding same
    by (intro conjI allI impI; (rule u64.store_Inr_iff u32.store_Inr_iff u16.store_Inr_iff |
        erule u64.store_InlD u32.store_InlD u16.store_InlD | erule u64.load_store u32.load_store
        u16.load_store | erule (1) u64.load_store_disjoint u32.load_store_disjoint
        u16.load_store_disjoint))
qed

lemma load_after_store_witness:
  "loadU16 True [0x34, 0x12, 9] 0 = Inr 0x1234"
proof -
  have "storeU16 False [0, 0, 9] 0 0x1234 = Inr [0x34, 0x12, 9]"
    by (simp add: storeU16_def writeBytes_def overwrite_def)
  then show ?thesis
    using load_after_store [of False "[0, 0, 9]" 0 0 0 "0x1234" _ _ _ True] by blast
qed

text \<open>
  C22: The two branches of each of the six routines of \<^verbatim>\<open>memory.hpp\<close> agree: copying the object on a
  little-endian host and assembling it byte by byte on a big-endian one give the same result on
  every memory, every address and every value.
\<close>

theorem endian_branches_agree:
  "loadU16 False m p = loadU16 True m p \<and> loadU32 False m p = loadU32 True m p \<and>
   loadU64 False m p = loadU64 True m p \<and>
   storeU16 False m p a = storeU16 True m p a \<and> storeU32 False m p b = storeU32 True m p b \<and>
   storeU64 False m p c = storeU64 True m p c"
  using loadU16_branches loadU32_branches loadU64_branches store_branches by blast

section \<open>Bit fields and the status register\<close>

text \<open>
  C23: \<^verbatim>\<open>getBits\<close> of the bits \<open>f\<close> to \<open>l\<close> is division by \<open>2 ^ f\<close> modulo \<open>2 ^ (l - f + 1)\<close> where its two
  shifts are defined, and undefined behaviour where one of them is not (a shift by the width of the
  promoted type or more, or, for a type that is promoted to \<^verbatim>\<open>int\<close>, a one shifted into the sign bit);
  \<^verbatim>\<open>signExtend\<close> from bit \<open>s\<close> gives the value modulo \<open>2 ^ (s + 1)\<close>, less \<open>2 ^ (s + 1)\<close> if bit \<open>s\<close> is set.
\<close>

theorem bit_fields_arithmetic:
  fixes v :: "'a::len word"
  assumes "unat f \<le> unat l" and "unat l < 255" and "unat s < LENGTH('a)"
  shows "(if unat f < max 32 LENGTH('a) \<and> unat l - unat f + 1 < max 31 LENGTH('a)
      then \<exists>w. getBits v f l = Inr w \<and> uint w = uint v div 2 ^ unat f mod 2 ^ (unat l - unat f + 1)
      else getBits v f l = Inl (UndefinedBehaviour ''shift'')) \<and>
    sint (signExtend v s) = uint v mod 2 ^ (unat s + 1) - (if hasBit v s then 2 ^ (unat s + 1) else 0)"
proof -
  have "unat (l - f) = unat l - unat f" using assms(1) by (simp add: unat_sub word_le_nat_alt)
  moreover have "unat (l - f + 1) = unat (l - f) + 1"
    using assms(2) calculation by (subst unat_add_small) simp_all
  ultimately have count: "unat (l - f + 1) = unat l - unat f + 1" by simp
  have "if field_defined v f l
      then \<exists>w. getBits v f l = Inr w \<and> uint w = uint v div 2 ^ unat f mod 2 ^ unat (l - f + 1)
      else getBits v f l = Inl (UndefinedBehaviour ''shift'')"
    using getBits_bitsAt [of v f l] uint_bitsAt [of v f l] by (auto simp: getBits_result)
  then have "if unat f < max 32 LENGTH('a) \<and> unat l - unat f + 1 < max 31 LENGTH('a)
      then \<exists>w. getBits v f l = Inr w \<and> uint w = uint v div 2 ^ unat f mod 2 ^ (unat l - unat f + 1)
      else getBits v f l = Inl (UndefinedBehaviour ''shift'')"
    unfolding field_defined_def count .
  moreover have "sint (signExtend v s) = uint v mod 2 ^ (unat s + 1) - (if hasBit v s then 2 ^ (unat s + 1) else 0)"
  proof -
    have "sint (signExtend v s) = signed_take_bit (unat s) (uint v)"
      using assms(3) by (intro bit_eqI) (auto simp: signExtend_eq bit_sint_iff bit_signed_take_bit_iff
          Bit_Operations.bit_signed_take_bit_iff bit_uint_iff min_def dest: bit_imp_le_length)
    then show ?thesis
      by (simp add: signed_take_bit_eq_take_bit_minus hasBit_iff take_bit_eq_mod bit_uint_iff assms(3))
  qed
  ultimately show ?thesis by blast
qed

lemma bit_fields_arithmetic_witness:
  "(\<exists>w. getBits (0xB5 :: u8) 2 5 = Inr w \<and> uint w = 13) \<and> sint (signExtend (0x15 :: u8) 4) = - 11 \<and>
   getBits (1 :: u32) 0 31 = Inl (UndefinedBehaviour ''shift'')"
  using bit_fields_arithmetic [of 2 5 4 "0xB5 :: u8"] bit_fields_arithmetic [of 2 5 4 "0x15 :: u8"]
    bit_fields_arithmetic [of 0 31 0 "1 :: u32"]
  by (simp add: hasBit_def)

text \<open>
  C24: The floating-point control and status register: reading it after writing it gives back the low
  eight bits of what was written, writing back what was read changes nothing in a hart whose fields
  are in range, and each exception flag can be set and cleared without touching the others or the
  rounding mode.
\<close>

theorem fcsr_roundtrip:
  "getFloatControlStatusRegister (setFloatControlStatusRegister t v) = take_bit 8 v \<and>
   (wf_fcsr t \<longrightarrow> setFloatControlStatusRegister t (getFloatControlStatusRegister t) = t) \<and>
   (getFloatExceptionFlag (setFloatExceptionFlag t f b) g \<longleftrightarrow> (if g = f then b else getFloatExceptionFlag t g)) \<and>
   dynamicFloatRoundingMode (setFloatExceptionFlag t f b) = dynamicFloatRoundingMode t"
proof (intro conjI impI)
  have range: "unat (7 - 5 + 1 :: u8) = 3" "unat (4 - 0 + 1 :: u8) = 5" by simp_all
  show "getFloatControlStatusRegister (setFloatControlStatusRegister t v) = take_bit 8 v"
    by (rule word_eq_bitsI) (auto simp: fcsr_bits setFloatControlStatusRegister_def bit_ucast_iff
        bit_take_bit_iff bit_bitsAt_iff range)
  show "getFloatExceptionFlag (setFloatExceptionFlag t f b) g \<longleftrightarrow>
      (if g = f then b else getFloatExceptionFlag t g)"
    by (auto simp: getFloatExceptionFlag_def setFloatExceptionFlag_def byte_flags.has_raise
        byte_flags.has_lower flagIndex_eq_iff)
  show "dynamicFloatRoundingMode (setFloatExceptionFlag t f b) = dynamicFloatRoundingMode t"
    by (simp add: setFloatExceptionFlag_def)
  assume wf: "wf_fcsr t"
  have "ucast (bitsAt (getFloatControlStatusRegister t) 5 7) = dynamicFloatRoundingMode t"
    using wf by (intro word_eq_bitsI) (auto simp: fcsr_bits bit_ucast_iff bit_bitsAt_iff range wf_fcsr_iff)
  moreover have "ucast (bitsAt (getFloatControlStatusRegister t) 0 4) = floatExceptionFlags t"
    using wf by (intro word_eq_bitsI) (auto simp: fcsr_bits bit_ucast_iff bit_bitsAt_iff range wf_fcsr_iff)
  ultimately show "setFloatControlStatusRegister t (getFloatControlStatusRegister t) = t"
    by (simp add: setFloatControlStatusRegister_def)
qed

lemma fcsr_roundtrip_witness:
  "setFloatControlStatusRegister Thread_init (getFloatControlStatusRegister Thread_init) = Thread_init"
  using fcsr_roundtrip [of Thread_init] wf_fcsr_init by blast

end
