(* ===== verification/Elf.thy ===== *)
theory Elf
  imports Emulator "HOL-Library.Multiset"
begin

text \<open>
  The ELF loader, \<^verbatim>\<open>src/src/riscv/elf.cpp\<close>: reading and checking the headers, sorting the loadable
  segments, copying the data segments into guest memory and decoding the code segments.

  The file is a byte list. Every sum of two 64-bit fields is taken as the code takes it, modulo
  \<open>2 ^ 64\<close>, and every access through a pointer is checked against the array it points into:
  an access outside is \<open>UndefinedBehaviour\<close>. Three parameters stand for what the sources leave to the
  implementation: \<open>nl\<close> (the host is little-endian), \<open>hostLimit\<close> (the largest vector the host can
  provide) and \<open>srt\<close> (the permutation that \<^verbatim>\<open>std::sort\<close> chooses; \<open>std_sort\<close> is its specification).
\<close>

section \<open>The file header\<close>

record ElfHeader =
  magic :: u32
  elfClass :: u8
  elfData :: u8
  elfVersion :: u8
  osABI :: u8
  elfType :: u16
  machine :: u16
  entry :: u64
  programHeaderOffset :: u64
  programHeaderEntrySize :: u16
  programHeaderEntryCount :: u16

definition elfHeaderSize :: nat where "elfHeaderSize = 64"
definition elfMagic :: u32 where "elfMagic = 0x464c457f"
definition elfClass64 :: u8 where "elfClass64 = 2"
definition elfDataLittleEndian :: u8 where "elfDataLittleEndian = 1"
definition elfVersion1 :: u8 where "elfVersion1 = 1"
definition osABISystemV :: u8 where "osABISystemV = 0"
definition elfTypeExecutable :: u8 where "elfTypeExecutable = 2"
definition elfMachineRISCV :: u16 where "elfMachineRISCV = 243"
definition entrypointStart :: u64 where "entrypointStart = 0"
definition elfProgramHeaderEntrySize64 :: u16 where "elfProgramHeaderEntrySize64 = 56"

lemmas elf_constants = elfMagic_def elfClass64_def elfDataLittleEndian_def
  elfVersion1_def osABISystemV_def elfTypeExecutable_def elfMachineRISCV_def entrypointStart_def
  elfProgramHeaderEntrySize64_def

definition readByte :: "u8 list \<Rightarrow> nat \<Rightarrow> u8 result" where
  "readByte source p = bind_result (readBytes source p 1) (\<lambda>bs. Inr (bs ! 0))"

definition ElfHeader_validate :: "ElfHeader \<Rightarrow> u8 list \<Rightarrow> unit result" where
  "ElfHeader_validate h source =
     bind_result (throw_if (\<not> (magic h = elfMagic \<and> elfClass h = elfClass64
          \<and> elfData h = elfDataLittleEndian \<and> elfVersion h = elfVersion1 \<and> osABI h = osABISystemV
          \<and> elfType h = ucast elfTypeExecutable \<and> machine h = elfMachineRISCV
          \<and> programHeaderEntrySize h = elfProgramHeaderEntrySize64))
        (RuntimeError ''invalid ELF executable header'')) (\<lambda>_.
     bind_result (throw_if (entry h \<noteq> entrypointStart)
        (RuntimeError ''ELF executable entry point must be 0'')) (\<lambda>_.
     throw_if (unat (programHeaderOffset h
            + ucast (programHeaderEntryCount h) * ucast (programHeaderEntrySize h)) > length source)
        (RuntimeError ''ELF program headers are out of file bounds'')))"

definition ElfHeader_read :: "bool \<Rightarrow> u8 list \<Rightarrow> ElfHeader result" where
  "ElfHeader_read nl source =
     (if length source < elfHeaderSize then Inl (RuntimeError ''ELF file too small'')
      else
        bind_result (loadU32 nl source 0) (\<lambda>vmagic.
        bind_result (readByte source 4) (\<lambda>vclass.
        bind_result (readByte source 5) (\<lambda>vdata.
        bind_result (readByte source 6) (\<lambda>vversion.
        bind_result (readByte source 7) (\<lambda>vosABI.
        bind_result (loadU16 nl source 16) (\<lambda>vtype.
        bind_result (loadU16 nl source 18) (\<lambda>vmachine.
        bind_result (loadU64 nl source 24) (\<lambda>ventry.
        bind_result (loadU64 nl source 32) (\<lambda>voffset.
        bind_result (loadU16 nl source 54) (\<lambda>vsize.
        bind_result (loadU16 nl source 56) (\<lambda>vcount.
        let h = \<lparr>magic = vmagic, elfClass = vclass, elfData = vdata, elfVersion = vversion,
              osABI = vosABI, elfType = vtype, machine = vmachine, entry = ventry,
              programHeaderOffset = voffset, programHeaderEntrySize = vsize,
              programHeaderEntryCount = vcount\<rparr> in
        bind_result (ElfHeader_validate h source) (\<lambda>_. Inr h)))))))))))))"

section \<open>Segment headers\<close>

record SegmentHeader =
  segmentType :: u32
  flags :: u32
  sourceStart :: u64
  destinationStart :: u64
  sourceSize :: u64
  destinationSize :: u64

definition typeLoad :: u32 where "typeLoad = 1"
definition flagExecutable :: u32 where "flagExecutable = 1"

definition sourceEnd :: "SegmentHeader \<Rightarrow> u64" where
  "sourceEnd h = sourceStart h + sourceSize h"

definition destinationEnd :: "SegmentHeader \<Rightarrow> u64" where
  "destinationEnd h = destinationStart h + destinationSize h"

definition SegmentHeader_read :: "bool \<Rightarrow> u8 list \<Rightarrow> u64 \<Rightarrow> SegmentHeader result" where
  "SegmentHeader_read nl source offset = (let header = unat offset in
     bind_result (loadU32 nl source (header + 0)) (\<lambda>vtype.
     bind_result (loadU32 nl source (header + 4)) (\<lambda>vflags.
     bind_result (loadU64 nl source (header + 8)) (\<lambda>vsource.
     bind_result (loadU64 nl source (header + 16)) (\<lambda>vdestination.
     bind_result (loadU64 nl source (header + 32)) (\<lambda>vsourceSize.
     bind_result (loadU64 nl source (header + 40)) (\<lambda>vdestinationSize.
     Inr \<lparr>segmentType = vtype, flags = vflags, sourceStart = vsource,
       destinationStart = vdestination, sourceSize = vsourceSize,
       destinationSize = vdestinationSize\<rparr>)))))))"

definition headerOffset :: "ElfHeader \<Rightarrow> nat \<Rightarrow> u64" where
  "headerOffset h i = programHeaderOffset h + of_nat i * ucast (programHeaderEntrySize h)"

text \<open>
  The loop over the program headers, for the indices still to visit, with the two vectors.
  Idealisation: \<^verbatim>\<open>push_back\<close> always finds memory (its \<^verbatim>\<open>std::bad_alloc\<close> is not modelled).
\<close>

fun readSegmentLoop :: "bool \<Rightarrow> ElfHeader \<Rightarrow> u8 list \<Rightarrow> nat list
    \<Rightarrow> SegmentHeader list \<Rightarrow> SegmentHeader list
    \<Rightarrow> (SegmentHeader list \<times> SegmentHeader list) result" where
  "readSegmentLoop nl elfHeader source [] dataHeaders codeHeaders = Inr (dataHeaders, codeHeaders)"
| "readSegmentLoop nl elfHeader source (i # is) dataHeaders codeHeaders =
     bind_result (SegmentHeader_read nl source (headerOffset elfHeader i)) (\<lambda>header.
     if segmentType header \<noteq> typeLoad
     then readSegmentLoop nl elfHeader source is dataHeaders codeHeaders
     else if sourceSize header = 0 \<and> destinationSize header = 0
     then readSegmentLoop nl elfHeader source is dataHeaders codeHeaders
     else if unat (sourceEnd header) > length source
     then Inl (RuntimeError ''ELF segment is out of file bounds'')
     else if bitand (flags header) flagExecutable \<noteq> 0
     then readSegmentLoop nl elfHeader source is dataHeaders (codeHeaders @ [header])
     else readSegmentLoop nl elfHeader source is (dataHeaders @ [header]) codeHeaders)"

definition readSegmentHeaders ::
    "bool \<Rightarrow> ElfHeader \<Rightarrow> u8 list \<Rightarrow> (SegmentHeader list \<times> SegmentHeader list) result" where
  "readSegmentHeaders nl elfHeader source =
     readSegmentLoop nl elfHeader source [0..<unat (programHeaderEntryCount elfHeader)] [] []"

text \<open>
  What \<^verbatim>\<open>sortHeadersBySegmentAddresses\<close> relies on: \<^verbatim>\<open>std::sort\<close> permutes its range into ascending
  order; the order of equal elements is unspecified.
\<close>

definition std_sort :: "(SegmentHeader list \<Rightarrow> SegmentHeader list) \<Rightarrow> bool" where
  "std_sort srt \<longleftrightarrow> (\<forall>hs. mset (srt hs) = mset hs \<and> sorted (map destinationStart (srt hs)))"

section \<open>Checks on the sorted segments\<close>

fun neighbours :: "(SegmentHeader \<Rightarrow> SegmentHeader \<Rightarrow> bool) \<Rightarrow> SegmentHeader list \<Rightarrow> bool" where
  "neighbours bad (a # b # hs) = (bad a b \<or> neighbours bad (b # hs))"
| "neighbours bad _ = False"

definition validateDataHeaders :: "SegmentHeader list \<Rightarrow> unit result" where
  "validateDataHeaders headers =
     bind_result (throw_if (\<exists>header \<in> set headers. sourceSize header > destinationSize header)
       (RuntimeError ''ELF data segments must not be truncated when loaded into memory'')) (\<lambda>_.
     throw_if (neighbours (\<lambda>a b. destinationEnd a > destinationStart b) headers)
       (RuntimeError ''ELF data segments must not overlap''))"

definition validateCodeHeaders :: "SegmentHeader list \<Rightarrow> unit result" where
  "validateCodeHeaders headers =
     bind_result (throw_if (headers = []) (RuntimeError ''ELF executable contains no code segments'')) (\<lambda>_.
     bind_result (throw_if (\<exists>header \<in> set headers. destinationSize header \<noteq> sourceSize header)
       (RuntimeError ''ELF code segments must not be truncated or padded when loaded into memory'')) (\<lambda>_.
     bind_result (throw_if (destinationStart (headers ! 0) \<noteq> 0)
       (RuntimeError ''ELF code segments must be placed into memory starting at offset 0'')) (\<lambda>_.
     throw_if (neighbours (\<lambda>a b. destinationEnd a \<noteq> destinationStart b) headers)
       (RuntimeError ''ELF code segments must be contiguous''))))"

section \<open>Mapping\<close>

text \<open>
  \<^verbatim>\<open>std::memcpy\<close> between two arrays. The destination span of the copy starts at \<open>base\<close> in its array.
\<close>

definition memcpy :: "u8 list \<Rightarrow> nat \<Rightarrow> u8 list \<Rightarrow> nat \<Rightarrow> nat \<Rightarrow> u8 list result" where
  "memcpy dest destOffset src srcOffset n =
     bind_result (readBytes src srcOffset n) (\<lambda>bs. writeBytes dest destOffset bs)"

fun copySegments :: "SegmentHeader list \<Rightarrow> u8 list \<Rightarrow> nat \<Rightarrow> u8 list \<Rightarrow> u8 list result" where
  "copySegments [] source base destination = Inr destination"
| "copySegments (header # headers) source base destination =
     bind_result (memcpy destination (base + unat (destinationStart header))
         source (unat (sourceStart header)) (unat (sourceSize header))) (\<lambda>destination.
     copySegments headers source base destination)"

definition allocateBytes :: "nat \<Rightarrow> Arena \<Rightarrow> (nat \<times> nat) result \<times> nat list \<times> Arena" where
  "allocateBytes n = allocateArray 1 1 (zeroItem 1) n"

definition mapDataSegments ::
    "SegmentHeader list \<Rightarrow> u8 list \<Rightarrow> 'h Emulator \<Rightarrow> unit result \<times> 'h Emulator" where
  "mapDataSegments headers source e =
     (if headers = [] then (Inr (), e)
      else let totalDataSize = unat (destinationEnd (last headers)) in
        case allocateBytes totalDataSize (memory e) of
          (Inl err, _, arena) \<Rightarrow>
            (Inl (if err = BadAlloc
                  then RuntimeError ''could not allocate emulator memory to load ELF data segments''
                  else err), e\<lparr>memory := arena\<rparr>)
        | (Inr (ptr, n), _, arena) \<Rightarrow>
            (case copySegments headers source ptr (storage arena) of
               Inl err \<Rightarrow> (Inl err, e\<lparr>memory := arena\<rparr>)
             | Inr bytes \<Rightarrow> (Inr (), e\<lparr>memory := arena\<lparr>storage := bytes\<rparr>\<rparr>)))"

text \<open>The vector constructor: value-initialised bytes, or what the host's allocation throws.\<close>

definition newVector :: "nat \<Rightarrow> nat \<Rightarrow> u8 list result" where
  "newVector hostLimit n =
     (if n > 2 ^ 63 - 1 then Inl LengthError
      else if n > hostLimit then Inl BadAlloc
      else Inr (replicate n 0))"

definition mapCodeSegments ::
    "bool \<Rightarrow> nat \<Rightarrow> SegmentHeader list \<Rightarrow> u8 list \<Rightarrow> 'h Emulator \<Rightarrow> unit result \<times> 'h Emulator" where
  "mapCodeSegments nl hostLimit headers source e =
     (let totalCodeSize = unat (destinationEnd (last headers)) in
      case bind_result (newVector hostLimit totalCodeSize) (\<lambda>codeMemory.
           bind_result (copySegments headers source 0 codeMemory) (\<lambda>codeMemory.
           decodeInstructions nl codeMemory)) of
        Inl err \<Rightarrow> (Inl err, e)
      | Inr instrs \<Rightarrow> (Inr (), setInstructions instrs e))"

section \<open>Loading\<close>

text \<open>The first half of \<^verbatim>\<open>loadElf\<close>, up to the point where it starts to change the emulator.\<close>

definition elfSegments :: "bool \<Rightarrow> (SegmentHeader list \<Rightarrow> SegmentHeader list) \<Rightarrow> u8 list
    \<Rightarrow> (SegmentHeader list \<times> SegmentHeader list) result" where
  "elfSegments nl srt source =
     bind_result (ElfHeader_read nl source) (\<lambda>elfHeader.
     bind_result (readSegmentHeaders nl elfHeader source) (\<lambda>(dataHeaders, codeHeaders).
     let dataHeaders = srt dataHeaders; codeHeaders = srt codeHeaders in
     bind_result (validateDataHeaders dataHeaders) (\<lambda>_.
     bind_result (validateCodeHeaders codeHeaders) (\<lambda>_.
     Inr (dataHeaders, codeHeaders)))))"

definition loadElf :: "bool \<Rightarrow> nat \<Rightarrow> (SegmentHeader list \<Rightarrow> SegmentHeader list)
    \<Rightarrow> u8 list \<Rightarrow> 'h Emulator \<Rightarrow> unit result \<times> 'h Emulator" where
  "loadElf nl hostLimit srt source e =
     (case elfSegments nl srt source of
        Inl err \<Rightarrow> (Inl err, e)
      | Inr (dataHeaders, codeHeaders) \<Rightarrow>
          (case mapDataSegments dataHeaders source e of
             (Inl err, e) \<Rightarrow> (Inl err, e)
           | (Inr _, e) \<Rightarrow> mapCodeSegments nl hostLimit codeHeaders source e))"

end
