(* ===== verification/ElfHeaders.thy ===== *)
theory ElfHeaders
  imports Elf
begin

text \<open>
  What the loader's checks let through: the accepted file headers in terms of the bytes of the file,
  the segments it keeps, and the layout that its checks of the sorted segments establish when no
  end address wraps around.
\<close>

section \<open>The file header\<close>

text \<open>The header that the bytes of a file of at least 64 bytes hold.\<close>

definition headerFields :: "u8 list \<Rightarrow> ElfHeader" where
  "headerFields source = \<lparr>
     magic = objectOfBytes (slice_of 0 4 source),
     elfClass = source ! 4, elfData = source ! 5, elfVersion = source ! 6, osABI = source ! 7,
     elfType = objectOfBytes (slice_of 16 2 source),
     machine = objectOfBytes (slice_of 18 2 source),
     entry = objectOfBytes (slice_of 24 8 source),
     programHeaderOffset = objectOfBytes (slice_of 32 8 source),
     programHeaderEntrySize = objectOfBytes (slice_of 54 2 source),
     programHeaderEntryCount = objectOfBytes (slice_of 56 2 source)\<rparr>"

lemma load_slice:
  "p + 2 \<le> length m \<Longrightarrow> loadU16 nl m p = Inr (objectOfBytes (slice_of p 2 m))"
  "p + 4 \<le> length m \<Longrightarrow> loadU32 nl m p = Inr (objectOfBytes (slice_of p 4 m))"
  "p + 8 \<le> length m \<Longrightarrow> loadU64 nl m p = Inr (objectOfBytes (slice_of p 8 m))"
  by (simp_all add: codec_forms readBytes_def)

lemma readByte_nth: "p < length m \<Longrightarrow> readByte m p = Inr (m ! p)"
  using nth_slice_of [of p 1 m 0] by (simp add: readByte_def readBytes_def)

lemma ElfHeader_read_eq:
  assumes "64 \<le> length source"
  shows "ElfHeader_read nl source =
    bind_result (ElfHeader_validate (headerFields source) source) (\<lambda>_. Inr (headerFields source))"
  using assms
  by (simp add: ElfHeader_read_def elfHeaderSize_def load_slice readByte_nth headerFields_def Let_def)

lemma ElfHeader_read_small:
  "length source < 64 \<Longrightarrow> ElfHeader_read nl source = Inl (RuntimeError ''ELF file too small'')"
  by (simp add: ElfHeader_read_def elfHeaderSize_def)

lemma object_eq_iff:
  fixes w :: "'a::len word"
  assumes "LENGTH('a) = 8 * n" and "length bs = n"
  shows "objectOfBytes bs = w \<longleftrightarrow> bs = bytesOfObject n w"
proof
  assume "objectOfBytes bs = w"
  then show "bs = bytesOfObject n w"
    using bytesOfObject_objectOfBytes [of bs, where 'a = 'a] assms by simp
next
  assume "bs = bytesOfObject n w"
  then show "objectOfBytes bs = w"
    using objectOfBytes_bytesOfObject [of n w] assms(1) by (simp add: take_bit_word_eq_self)
qed

lemma bytesOfObject_numeral:
  "bytesOfObject (numeral k) w = ucast w # bytesOfObject (pred_numeral k) (drop_bit 8 w)"
  by (simp add: numeral_eq_Suc)

lemma replicate_numeral: "replicate (numeral k) v = v # replicate (pred_numeral k) v"
  by (simp add: numeral_eq_Suc)

lemma header_bytes:
  "bytesOfObject 4 (elfMagic :: u32) = [0x7f, 0x45, 0x4c, 0x46]"
  "bytesOfObject 2 (ucast elfTypeExecutable :: u16) = [2, 0]"
  "bytesOfObject 2 (elfMachineRISCV :: u16) = [0xf3, 0]"
  "bytesOfObject 2 (elfProgramHeaderEntrySize64 :: u16) = [56, 0]"
  "bytesOfObject 8 (0 :: u64) = replicate 8 0"
  by (simp_all add: elf_constants bytesOfObject_numeral replicate_numeral)

lemma slice_of_append:
  "p + m + n \<le> length xs \<Longrightarrow> slice_of p (m + n) xs = slice_of p m xs @ slice_of (p + m) n xs"
  by (simp add: slice_of_def take_add add.commute)

text \<open>The file header in bytes: the loader accepts these files and no others.\<close>

definition acceptedHeader :: "u8 list \<Rightarrow> bool" where
  "acceptedHeader source \<longleftrightarrow> 64 \<le> length source \<and>
     slice_of 0 8 source = [0x7f, 0x45, 0x4c, 0x46, 2, 1, 1, 0] \<and>
     slice_of 16 4 source = [2, 0, 0xf3, 0] \<and>
     slice_of 24 8 source = replicate 8 0 \<and>
     slice_of 54 2 source = [56, 0] \<and>
     unat ((objectOfBytes (slice_of 32 8 source) :: u64)
       + ucast (objectOfBytes (slice_of 56 2 source) :: u16) * 56) \<le> length source"

lemma slice_8_4:
  assumes "64 \<le> length source"
  shows "slice_of 0 8 source = slice_of 0 4 source @ [source ! 4, source ! 5, source ! 6, source ! 7]"
proof -
  have "slice_of 4 4 source = [source ! 4, source ! 5, source ! 6, source ! 7]"
    using assms by (intro nth_equalityI) (auto simp: nth_slice_of less_Suc_eq numeral_eq_Suc)
  then show ?thesis using slice_of_append [of 0 4 4 source] assms by simp
qed

lemma header_conditions:
  assumes "64 \<le> length source"
  shows "magic (headerFields source) = elfMagic \<longleftrightarrow> slice_of 0 4 source = [0x7f, 0x45, 0x4c, 0x46]"
    "elfType (headerFields source) = ucast elfTypeExecutable \<longleftrightarrow> slice_of 16 2 source = [2, 0]"
    "machine (headerFields source) = elfMachineRISCV \<longleftrightarrow> slice_of 18 2 source = [0xf3, 0]"
    "entry (headerFields source) = entrypointStart \<longleftrightarrow> slice_of 24 8 source = replicate 8 0"
    "programHeaderEntrySize (headerFields source) = elfProgramHeaderEntrySize64 \<longleftrightarrow>
      slice_of 54 2 source = [56, 0]"
  using assms header_bytes
  by (simp_all add: headerFields_def object_eq_iff [where n = 4] object_eq_iff [where n = 2]
      object_eq_iff [where n = 8] entrypointStart_def del: objectOfBytes.simps bytesOfObject.simps)

lemma ElfHeader_validate_iff:
  "ElfHeader_validate h source = Inr () \<longleftrightarrow>
    magic h = elfMagic \<and> elfClass h = 2 \<and> elfData h = 1 \<and> elfVersion h = 1 \<and> osABI h = 0 \<and>
    elfType h = ucast elfTypeExecutable \<and> machine h = elfMachineRISCV \<and>
    programHeaderEntrySize h = elfProgramHeaderEntrySize64 \<and> entry h = entrypointStart \<and>
    unat (programHeaderOffset h + ucast (programHeaderEntryCount h) * 56) \<le> length source"
  by (auto simp: ElfHeader_validate_def bind_result_Inr_iff linorder_not_less elfClass64_def
      elfDataLittleEndian_def elfVersion1_def osABISystemV_def elfProgramHeaderEntrySize64_def)

lemma headerFields_plain:
  "elfClass (headerFields source) = source ! 4" "elfData (headerFields source) = source ! 5"
  "elfVersion (headerFields source) = source ! 6" "osABI (headerFields source) = source ! 7"
  "programHeaderOffset (headerFields source) = objectOfBytes (slice_of 32 8 source)"
  "programHeaderEntryCount (headerFields source) = objectOfBytes (slice_of 56 2 source)"
  by (simp_all add: headerFields_def)

lemma ElfHeader_read_accepts:
  "(\<exists>h. ElfHeader_read nl source = Inr h) \<longleftrightarrow> acceptedHeader source"
proof (cases "64 \<le> length source")
  case True
  have s8: "slice_of 0 8 source = [0x7f, 0x45, 0x4c, 0x46, 2, 1, 1, 0] \<longleftrightarrow>
    slice_of 0 4 source = [0x7f, 0x45, 0x4c, 0x46] \<and> source ! 4 = 2 \<and> source ! 5 = 1 \<and>
    source ! 6 = 1 \<and> source ! 7 = 0"
    using slice_8_4 [OF True] True length_4_conv [of "slice_of 0 4 source"] by auto
  have s4: "slice_of 16 4 source = [2, 0, 0xf3, 0] \<longleftrightarrow>
    slice_of 16 2 source = [2, 0] \<and> slice_of 18 2 source = [0xf3, 0]"
    using slice_of_append [of 16 2 2 source] True length_2_conv [of "slice_of 16 2 source"] by auto
  have "(\<exists>h. ElfHeader_read nl source = Inr h) \<longleftrightarrow> ElfHeader_validate (headerFields source) source = Inr ()"
    unfolding ElfHeader_read_eq [OF True] by (auto simp: bind_result_Inr_iff)
  also have "\<dots> \<longleftrightarrow> acceptedHeader source"
    unfolding acceptedHeader_def s8 s4 ElfHeader_validate_iff header_conditions [OF True]
      headerFields_plain
    using True by blast
  finally show ?thesis .
next
  case False
  then show ?thesis by (simp add: ElfHeader_read_small acceptedHeader_def)
qed

section \<open>The segments that are kept\<close>

definition segmentFields :: "u8 list \<Rightarrow> nat \<Rightarrow> SegmentHeader" where
  "segmentFields source p = \<lparr>
     segmentType = objectOfBytes (slice_of p 4 source),
     flags = objectOfBytes (slice_of (p + 4) 4 source),
     sourceStart = objectOfBytes (slice_of (p + 8) 8 source),
     destinationStart = objectOfBytes (slice_of (p + 16) 8 source),
     sourceSize = objectOfBytes (slice_of (p + 32) 8 source),
     destinationSize = objectOfBytes (slice_of (p + 40) 8 source)\<rparr>"

lemma SegmentHeader_read_inside:
  "unat offset + 48 \<le> length source \<Longrightarrow>
    SegmentHeader_read nl source offset = Inr (segmentFields source (unat offset))"
  by (simp add: SegmentHeader_read_def segmentFields_def Let_def load_slice)

definition loadable :: "SegmentHeader \<Rightarrow> bool" where
  "loadable h \<longleftrightarrow> segmentType h = typeLoad \<and> \<not> (sourceSize h = 0 \<and> destinationSize h = 0)"

definition executable :: "SegmentHeader \<Rightarrow> bool" where
  "executable h \<longleftrightarrow> bitand (flags h) flagExecutable \<noteq> 0"

definition isData :: "SegmentHeader \<Rightarrow> bool" where
  "isData h \<longleftrightarrow> loadable h \<and> \<not> executable h"

definition isCode :: "SegmentHeader \<Rightarrow> bool" where
  "isCode h \<longleftrightarrow> loadable h \<and> executable h"

lemma readSegmentLoop_step:
  assumes "SegmentHeader_read nl source (headerOffset h i) = Inr s"
  shows "readSegmentLoop nl h source (i # is) d c =
    (if \<not> loadable s then readSegmentLoop nl h source is d c
     else if unat (sourceEnd s) > length source
     then Inl (RuntimeError ''ELF segment is out of file bounds'')
     else readSegmentLoop nl h source is (if executable s then d else d @ [s])
       (if executable s then c @ [s] else c))"
  using assms by (cases "sourceSize s = 0 \<and> destinationSize s = 0") (auto simp: loadable_def executable_def)

text \<open>Reading all headers first and filtering them afterwards gives the same two vectors.\<close>

lemma readSegmentLoop_read:
  assumes "map_result (\<lambda>i. SegmentHeader_read nl source (headerOffset h i)) is = Inr hs"
  shows "readSegmentLoop nl h source is d c =
    (if \<exists>s \<in> set hs. loadable s \<and> unat (sourceEnd s) > length source
     then Inl (RuntimeError ''ELF segment is out of file bounds'')
     else Inr (d @ filter isData hs, c @ filter isCode hs))"
  using assms
proof (induction "is" arbitrary: hs d c)
  case Nil
  then show ?case by simp
next
  case (Cons i "is")
  then obtain s ss where read: "SegmentHeader_read nl source (headerOffset h i) = Inr s"
    "map_result (\<lambda>i. SegmentHeader_read nl source (headerOffset h i)) is = Inr ss" "hs = s # ss"
    by (auto simp: bind_result_Inr_iff)
  show ?case
    unfolding readSegmentLoop_step [OF read(1)] Cons.IH [OF read(2)] read(3)
    by (cases "loadable s"; cases "executable s") (simp_all add: isData_def [of s] isCode_def [of s])
qed

text \<open>The headers of the file, when the check of \<^verbatim>\<open>validate\<close> did not wrap around.\<close>

definition headersInside :: "ElfHeader \<Rightarrow> u8 list \<Rightarrow> bool" where
  "headersInside h source \<longleftrightarrow>
     unat (programHeaderOffset h) + unat (programHeaderEntryCount h) * 56 \<le> length source"

definition fileSegments :: "ElfHeader \<Rightarrow> u8 list \<Rightarrow> SegmentHeader list" where
  "fileSegments h source = map (\<lambda>i. segmentFields source (unat (programHeaderOffset h) + i * 56))
     [0..<unat (programHeaderEntryCount h)]"

lemma headerOffset_nat:
  assumes "headersInside h source" and "length source < 2 ^ 64"
    and "programHeaderEntrySize h = 56" and "i < unat (programHeaderEntryCount h)"
  shows "unat (headerOffset h i) = unat (programHeaderOffset h) + i * 56"
    "unat (programHeaderOffset h) + i * 56 + 56 \<le> length source"
proof -
  have i: "i * 56 + 56 \<le> unat (programHeaderEntryCount h) * 56" using assms(4) by simp
  then show inside: "unat (programHeaderOffset h) + i * 56 + 56 \<le> length source"
    using assms(1) by (simp add: headersInside_def)
  have "headerOffset h i = of_nat (unat (programHeaderOffset h) + i * 56)"
    using assms(3) by (simp add: headerOffset_def)
  moreover have "unat (programHeaderOffset h) + i * 56 < 2 ^ LENGTH(64)"
    using inside assms(2) by simp
  ultimately show "unat (headerOffset h i) = unat (programHeaderOffset h) + i * 56"
    by (metis of_nat_inverse)
qed

lemma readSegmentHeaders_inside:
  assumes "headersInside h source" and "length source < 2 ^ 64" and "programHeaderEntrySize h = 56"
  shows "readSegmentHeaders nl h source =
    (if \<exists>s \<in> set (fileSegments h source). loadable s \<and> unat (sourceEnd s) > length source
     then Inl (RuntimeError ''ELF segment is out of file bounds'')
     else Inr (filter isData (fileSegments h source), filter isCode (fileSegments h source)))"
proof -
  have "SegmentHeader_read nl source (headerOffset h i) =
      Inr (segmentFields source (unat (programHeaderOffset h) + i * 56))"
    if "i < unat (programHeaderEntryCount h)" for i
    using headerOffset_nat [OF assms that] SegmentHeader_read_inside [of "headerOffset h i" source nl]
    by simp
  then have "map_result (\<lambda>i. SegmentHeader_read nl source (headerOffset h i))
      [0..<unat (programHeaderEntryCount h)] = Inr (fileSegments h source)"
    unfolding map_result_Inr_iff fileSegments_def by (simp add: list_all2_conv_all_nth)
  from readSegmentLoop_read [OF this, of "[]" "[]"] show ?thesis
    by (simp add: readSegmentHeaders_def)
qed

section \<open>The layout of the sorted segments\<close>

text \<open>Two sums per segment decide everything; \<open>noWrap\<close> says that neither leaves 64 bits.\<close>

definition noWrap :: "SegmentHeader \<Rightarrow> bool" where
  "noWrap h \<longleftrightarrow> unat (sourceStart h) + unat (sourceSize h) < 2 ^ 64 \<and>
     unat (destinationStart h) + unat (destinationSize h) < 2 ^ 64"

definition segmentStart :: "SegmentHeader \<Rightarrow> nat" where
  "segmentStart h = unat (destinationStart h)"

definition segmentStop :: "SegmentHeader \<Rightarrow> nat" where
  "segmentStop h = unat (destinationStart h) + unat (destinationSize h)"

definition separated :: "SegmentHeader list \<Rightarrow> bool" where
  "separated hs \<longleftrightarrow> sorted_wrt (\<lambda>a b. segmentStop a \<le> segmentStart b) hs"

fun contiguousFrom :: "nat \<Rightarrow> SegmentHeader list \<Rightarrow> bool" where
  "contiguousFrom n [] = True"
| "contiguousFrom n (h # hs) \<longleftrightarrow> segmentStart h = n \<and> contiguousFrom (segmentStop h) hs"

lemma noWrap_ends:
  assumes "noWrap h"
  shows "unat (sourceEnd h) = unat (sourceStart h) + unat (sourceSize h)"
    "unat (destinationEnd h) = segmentStop h"
  using assms by (simp_all add: noWrap_def sourceEnd_def destinationEnd_def segmentStop_def unat_add_small)

lemma segmentStart_le_stop: "segmentStart h \<le> segmentStop h"
  by (simp add: segmentStart_def segmentStop_def)

lemma neighbours_successively: "neighbours bad hs \<longleftrightarrow> \<not> successively (\<lambda>a b. \<not> bad a b) hs"
  by (induction bad hs rule: neighbours.induct) auto

lemma separated_successively:
  "successively (\<lambda>a b. segmentStop a \<le> segmentStart b) hs \<longleftrightarrow> separated hs"
proof -
  have "transp (\<lambda>a b. segmentStop a \<le> segmentStart b)"
  proof (rule transpI)
    fix a b c
    assume "segmentStop a \<le> segmentStart b" "segmentStop b \<le> segmentStart c"
    then show "segmentStop a \<le> segmentStart c" using segmentStart_le_stop [of b] by linarith
  qed
  then show ?thesis unfolding separated_def by (rule successively_conv_sorted_wrt)
qed

lemma successively_noWrap:
  assumes "\<forall>h \<in> set hs. noWrap h"
  shows "successively (\<lambda>a b. \<not> destinationEnd a > destinationStart b) hs \<longleftrightarrow>
      successively (\<lambda>a b. segmentStop a \<le> segmentStart b) hs"
    and "successively (\<lambda>a b. \<not> destinationEnd a \<noteq> destinationStart b) hs \<longleftrightarrow>
      successively (\<lambda>a b. segmentStop a = segmentStart b) hs"
proof -
  have "destinationEnd a > destinationStart b \<longleftrightarrow> \<not> segmentStop a \<le> segmentStart b"
    "destinationEnd a = destinationStart b \<longleftrightarrow> segmentStop a = segmentStart b"
    if "a \<in> set hs" for a b
    using noWrap_ends(2) [of a] assms that
    by (auto simp: word_less_nat_alt word_unat_eq_iff segmentStart_def linorder_not_less)
  then show "successively (\<lambda>a b. \<not> destinationEnd a > destinationStart b) hs \<longleftrightarrow>
      successively (\<lambda>a b. segmentStop a \<le> segmentStart b) hs"
    "successively (\<lambda>a b. \<not> destinationEnd a \<noteq> destinationStart b) hs \<longleftrightarrow>
      successively (\<lambda>a b. segmentStop a = segmentStart b) hs"
    by (auto intro!: successively_cong)
qed

lemma separated_last:
  assumes "separated hs" and "h \<in> set hs"
  shows "segmentStop h \<le> segmentStop (last hs)"
proof (cases "h = last hs")
  case False
  obtain as where hs: "hs = as @ [last hs]"
    using assms(2) by (metis append_butlast_last_id empty_iff empty_set)
  then have "h \<in> set as" using assms(2) False by (metis UnE empty_iff insertE list.set set_append)
  then have "segmentStop h \<le> segmentStart (last hs)"
    using assms(1) hs unfolding separated_def by (metis sorted_wrt_append list.set_intros(1))
  then show ?thesis using segmentStart_le_stop order_trans by blast
qed simp

lemma validateDataHeaders_iff:
  assumes "\<forall>h \<in> set hs. noWrap h"
  shows "validateDataHeaders hs = Inr () \<longleftrightarrow>
    (\<forall>h \<in> set hs. sourceSize h \<le> destinationSize h) \<and> separated hs"
  unfolding validateDataHeaders_def neighbours_successively successively_noWrap(1) [OF assms]
    separated_successively [symmetric]
  by (auto simp: bind_result_Inr_iff linorder_not_less)

lemma contiguous_successively:
  assumes "segmentStart (hd hs) = n"
  shows "successively (\<lambda>a b. segmentStop a = segmentStart b) hs \<longleftrightarrow> contiguousFrom n hs"
  using assms
proof (induction hs arbitrary: n)
  case Nil
  then show ?case by simp
next
  case (Cons a hs)
  then show ?case by (cases hs) auto
qed

lemma validateCodeHeaders_iff:
  assumes "\<forall>h \<in> set hs. noWrap h"
  shows "validateCodeHeaders hs = Inr () \<longleftrightarrow>
    hs \<noteq> [] \<and> (\<forall>h \<in> set hs. destinationSize h = sourceSize h) \<and> contiguousFrom 0 hs"
proof (cases "hs = []")
  case False
  then have hd: "hs ! 0 = hd hs" by (simp add: hd_conv_nth)
  show ?thesis
  proof (cases "segmentStart (hd hs) = 0")
    case True
    then have "destinationStart (hd hs) = 0" by (simp add: segmentStart_def unat_eq_zero)
    with False hd show ?thesis
      unfolding validateCodeHeaders_def neighbours_successively successively_noWrap(2) [OF assms]
        contiguous_successively [OF True]
      by (auto simp: bind_result_Inr_iff)
  next
    case nz: False
    then have "\<not> contiguousFrom 0 hs" using False by (cases hs) auto
    moreover have "destinationStart (hd hs) \<noteq> 0" using nz by (auto simp: segmentStart_def)
    ultimately show ?thesis using hd by (auto simp: validateCodeHeaders_def bind_result_Inr_iff)
  qed
qed (simp add: validateCodeHeaders_def)

lemma contiguous_separated:
  "contiguousFrom n hs \<Longrightarrow> separated hs \<and> (\<forall>h \<in> set hs. n \<le> segmentStart h)"
proof (induction hs arbitrary: n)
  case Nil
  then show ?case by (simp add: separated_def)
next
  case (Cons h hs)
  then have "separated hs" "\<forall>k \<in> set hs. segmentStop h \<le> segmentStart k" "segmentStart h = n" by auto
  then show ?case using segmentStart_le_stop [of h] by (auto simp: separated_def)
qed

end
