(* ===== verification/ElfLoad.thy ===== *)
theory ElfLoad
  imports ElfHeaders
begin

text \<open>
  What the loader does with a file whose headers do not wrap around: no access leaves its array, the
  data segments are in guest memory with cleared gaps and tails, the instructions are the decoding
  of the concatenated code segments, and the order in which \<^verbatim>\<open>std::sort\<close> leaves equal elements is
  irrelevant. The last section shows that the first claim needs its hypothesis.
\<close>

section \<open>Copying\<close>

definition segmentBytes :: "u8 list \<Rightarrow> SegmentHeader \<Rightarrow> u8 list" where
  "segmentBytes source h = slice_of (unat (sourceStart h)) (unat (sourceSize h)) source"

definition inSource :: "u8 list \<Rightarrow> SegmentHeader \<Rightarrow> bool" where
  "inSource source h \<longleftrightarrow> unat (sourceStart h) + unat (sourceSize h) \<le> length source"

lemma length_segmentBytes [simp]:
  "inSource source h \<Longrightarrow> length (segmentBytes source h) = unat (sourceSize h)"
  by (simp add: inSource_def segmentBytes_def)

lemma memcpy_inside:
  assumes "inSource source h" and "p + unat (sourceSize h) \<le> length dest"
  shows "memcpy dest p source (unat (sourceStart h)) (unat (sourceSize h)) =
    Inr (overwrite p (segmentBytes source h) dest)"
  using assms
  by (simp add: memcpy_def readBytes_def writeBytes_def inSource_def segmentBytes_def)

definition covers :: "nat \<Rightarrow> SegmentHeader \<Rightarrow> nat \<Rightarrow> bool" where
  "covers base h k \<longleftrightarrow> base + segmentStart h \<le> k \<and> k < base + segmentStart h + unat (sourceSize h)"

lemma copySegments_inside:
  assumes "\<forall>h \<in> set hs. inSource source h \<and>
    base + segmentStart h + unat (sourceSize h) \<le> length dest"
  shows "\<exists>dest'. copySegments hs source base dest = Inr dest' \<and> length dest' = length dest \<and>
    (\<forall>k < length dest. (\<forall>h \<in> set hs. \<not> covers base h k) \<longrightarrow> dest' ! k = dest ! k)"
  using assms
proof (induction hs arbitrary: dest)
  case Nil
  then show ?case by simp
next
  case (Cons h hs)
  let ?d = "overwrite (base + segmentStart h) (segmentBytes source h) dest"
  have h: "inSource source h" "base + segmentStart h + unat (sourceSize h) \<le> length dest"
    using Cons.prems by simp_all
  then have len: "length ?d = length dest" by simp
  with Cons.prems Cons.IH [of ?d] obtain dest' where d: "copySegments hs source base ?d = Inr dest'"
    "length dest' = length dest"
    "\<forall>k < length dest. (\<forall>h \<in> set hs. \<not> covers base h k) \<longrightarrow> dest' ! k = ?d ! k" by auto
  have "copySegments (h # hs) source base dest = Inr dest'"
    using memcpy_inside [OF h] d(1) by (simp add: segmentStart_def)
  moreover have "dest' ! k = dest ! k"
    if "k < length dest" "\<forall>h \<in> set (h # hs). \<not> covers base h k" for k
    using d(3) that h by (auto simp: covers_def nth_overwrite)
  ultimately show ?case using d(2) by blast
qed

lemma copySegments_contents:
  assumes "copySegments hs source base dest = Inr dest'"
    and "\<forall>h \<in> set hs. inSource source h \<and> base + segmentStart h + unat (sourceSize h) \<le> length dest"
    and "separated hs" and "\<forall>h \<in> set hs. sourceSize h \<le> destinationSize h" and "h \<in> set hs"
  shows "slice_of (base + segmentStart h) (unat (sourceSize h)) dest' = segmentBytes source h"
  using assms
proof (induction hs arbitrary: dest)
  case Nil
  then show ?case by simp
next
  case (Cons a hs)
  let ?d = "overwrite (base + segmentStart a) (segmentBytes source a) dest"
  have a: "inSource source a" "base + segmentStart a + unat (sourceSize a) \<le> length dest"
    using Cons.prems(2) by simp_all
  then have len: "length ?d = length dest" by simp
  have rest: "copySegments hs source base ?d = Inr dest'"
    using Cons.prems(1) memcpy_inside [OF a] by (simp add: segmentStart_def)
  have inside: "\<forall>h \<in> set hs. inSource source h \<and>
      base + segmentStart h + unat (sourceSize h) \<le> length ?d"
    using Cons.prems(2) len by simp
  show ?case
  proof (cases "h \<in> set hs")
    case True
    show ?thesis
      by (rule Cons.IH [OF rest inside]) (use Cons.prems True in \<open>simp_all add: separated_def\<close>)
  next
    case False
    then have h: "h = a" using Cons.prems(5) by simp
    obtain dest'' where d: "copySegments hs source base ?d = Inr dest''" "length dest'' = length ?d"
      "\<forall>k < length ?d. (\<forall>h \<in> set hs. \<not> covers base h k) \<longrightarrow> dest'' ! k = ?d ! k"
      using copySegments_inside [OF inside] by blast
    have "unat (sourceSize a) \<le> unat (destinationSize a)"
      using Cons.prems(4) by (simp add: word_le_nat_alt)
    then have free: "\<not> covers base b k"
      if "b \<in> set hs" "k < base + segmentStart a + unat (sourceSize a)" for b k
      using Cons.prems(3) that by (auto simp: separated_def covers_def segmentStop_def segmentStart_def)
    have "slice_of (base + segmentStart a) (unat (sourceSize a)) dest'' =
        slice_of (base + segmentStart a) (unat (sourceSize a)) ?d"
      using a len d(2,3) free by (intro nth_equalityI) (simp_all add: nth_slice_of)
    also have "\<dots> = segmentBytes source a"
      using slice_of_overwrite_same [of "base + segmentStart a" "segmentBytes source a" dest] a by simp
    finally show ?thesis using d(1) rest h by simp
  qed
qed

definition totalSize :: "SegmentHeader list \<Rightarrow> nat" where
  "totalSize hs = sum_list (map (\<lambda>h. unat (sourceSize h)) hs)"

lemma contiguous_stop:
  assumes "contiguousFrom n hs" and "hs \<noteq> []" and "\<forall>h \<in> set hs. destinationSize h = sourceSize h"
  shows "segmentStop (last hs) = n + totalSize hs"
  using assms
proof (induction hs arbitrary: n)
  case Nil
  then show ?case by simp
next
  case (Cons h hs)
  then show ?case
    by (cases "hs = []") (auto simp: totalSize_def segmentStop_def segmentStart_def)
qed

lemma copySegments_contiguous:
  assumes "contiguousFrom (length pre) hs"
    and "\<forall>h \<in> set hs. inSource source h \<and> destinationSize h = sourceSize h"
  shows "copySegments hs source 0 (pre @ replicate (totalSize hs) 0) =
    Inr (pre @ concat (map (segmentBytes source) hs))"
  using assms
proof (induction hs arbitrary: pre)
  case Nil
  then show ?case by (simp add: totalSize_def)
next
  case (Cons h hs)
  let ?bs = "segmentBytes source h"
  let ?dest = "pre @ replicate (totalSize (h # hs)) 0"
  have h: "inSource source h" "destinationSize h = sourceSize h" and start: "segmentStart h = length pre"
    using Cons.prems by simp_all
  have total: "totalSize (h # hs) = unat (sourceSize h) + totalSize hs" by (simp add: totalSize_def)
  have "memcpy ?dest (segmentStart h) source (unat (sourceStart h)) (unat (sourceSize h)) =
      Inr (overwrite (segmentStart h) ?bs ?dest)"
    using h(1) by (intro memcpy_inside) (simp_all add: start total)
  moreover have "overwrite (segmentStart h) ?bs ?dest = (pre @ ?bs) @ replicate (totalSize hs) 0"
    using h(1) by (simp add: overwrite_def start total)
  moreover have "copySegments hs source 0 ((pre @ ?bs) @ replicate (totalSize hs) 0) =
      Inr ((pre @ ?bs) @ concat (map (segmentBytes source) hs))"
    using Cons.prems h start
    by (intro Cons.IH) (auto simp: segmentStop_def segmentStart_def)
  ultimately show ?case by (simp add: segmentStart_def)
qed

section \<open>Reading the headers\<close>

text \<open>
  The files whose header table and loadable segments have end addresses of 64 bits (when the file
  header is accepted, so that the loader comes to look at them).
\<close>

definition fileNoWrap :: "u8 list \<Rightarrow> bool" where
  "fileNoWrap source \<longleftrightarrow> length source < 2 ^ 64 \<and> (acceptedHeader source \<longrightarrow>
     unat (programHeaderOffset (headerFields source))
       + unat (programHeaderEntryCount (headerFields source)) * 56 < 2 ^ 64 \<and>
     (\<forall>h \<in> set (fileSegments (headerFields source) source). loadable h \<longrightarrow> noWrap h))"

lemma accepted_inside:
  assumes "fileNoWrap source" and "acceptedHeader source"
  shows "headersInside (headerFields source) source"
proof -
  let ?h = "headerFields source"
  have count: "unat (ucast (programHeaderEntryCount ?h) * 56 :: u64) = unat (programHeaderEntryCount ?h) * 56"
  proof -
    have "unat (programHeaderEntryCount ?h) < 2 ^ 16"
      using unat_less_exp [of 16 "programHeaderEntryCount ?h"] by simp
    then show ?thesis by (simp add: unat_word_ariths unsigned_ucast_eq take_bit_nat_eq_self)
  qed
  have "unat (programHeaderOffset ?h + ucast (programHeaderEntryCount ?h) * 56) \<le> length source"
    using assms(2) by (simp add: acceptedHeader_def headerFields_plain)
  moreover have "unat (programHeaderOffset ?h) + unat (programHeaderEntryCount ?h) * 56 < 2 ^ 64"
    using assms by (simp add: fileNoWrap_def)
  ultimately show ?thesis
    using count by (simp add: headersInside_def unat_add_small)
qed

definition goodData :: "u8 list \<Rightarrow> SegmentHeader list \<Rightarrow> bool" where
  "goodData source D \<longleftrightarrow> (\<forall>h \<in> set D. noWrap h \<and> inSource source h \<and> sourceSize h \<le> destinationSize h)
     \<and> separated D"

definition goodCode :: "u8 list \<Rightarrow> SegmentHeader list \<Rightarrow> bool" where
  "goodCode source C \<longleftrightarrow> (\<forall>h \<in> set C. noWrap h \<and> inSource source h \<and> destinationSize h = sourceSize h)
     \<and> contiguousFrom 0 C \<and> C \<noteq> []"

lemma validate_errors:
  "validateDataHeaders hs = Inl err \<Longrightarrow> \<exists>m. err = RuntimeError m"
  "validateCodeHeaders hs = Inl err \<Longrightarrow> \<exists>m. err = RuntimeError m"
  "ElfHeader_validate h source = Inl err \<Longrightarrow> \<exists>m. err = RuntimeError m"
  by (auto simp: validateDataHeaders_def validateCodeHeaders_def ElfHeader_validate_def
      bind_result_Inl_iff)

lemma ElfHeader_read_Inr:
  "ElfHeader_read nl source = Inr h \<Longrightarrow> h = headerFields source \<and> 64 \<le> length source \<and>
    programHeaderEntrySize h = 56"
  by (cases "64 \<le> length source")
    (auto simp: ElfHeader_read_eq ElfHeader_read_small bind_result_Inr_iff ElfHeader_validate_iff
      elfProgramHeaderEntrySize64_def)

lemma ElfHeader_read_Inl:
  "ElfHeader_read nl source = Inl err \<Longrightarrow> \<exists>m. err = RuntimeError m"
  by (cases "64 \<le> length source")
    (auto simp: ElfHeader_read_eq ElfHeader_read_small bind_result_Inl_iff dest: validate_errors)

text \<open>With such a file, the segments that the first half of \<^verbatim>\<open>loadElf\<close> collects before it sorts them.\<close>

definition dataSegments :: "u8 list \<Rightarrow> SegmentHeader list" where
  "dataSegments source = filter isData (fileSegments (headerFields source) source)"

definition codeSegments :: "u8 list \<Rightarrow> SegmentHeader list" where
  "codeSegments source = filter isCode (fileSegments (headerFields source) source)"

definition segmentsInside :: "u8 list \<Rightarrow> bool" where
  "segmentsInside source \<longleftrightarrow>
     (\<forall>s \<in> set (fileSegments (headerFields source) source). loadable s \<longrightarrow> unat (sourceEnd s) \<le> length source)"

lemma elfSegments_eq:
  assumes "fileNoWrap source"
  shows "elfSegments nl srt source =
    bind_result (ElfHeader_read nl source) (\<lambda>_.
    bind_result (throw_if (\<not> segmentsInside source) (RuntimeError ''ELF segment is out of file bounds'')) (\<lambda>_.
    bind_result (validateDataHeaders (srt (dataSegments source))) (\<lambda>_.
    bind_result (validateCodeHeaders (srt (codeSegments source))) (\<lambda>_.
    Inr (srt (dataSegments source), srt (codeSegments source))))))"
proof (cases "ElfHeader_read nl source")
  case (Inr h)
  then have h: "h = headerFields source" "programHeaderEntrySize h = 56"
    using ElfHeader_read_Inr by blast+
  have "acceptedHeader source" using Inr ElfHeader_read_accepts by blast
  then have wrap: "headersInside h source" "length source < 2 ^ 64"
    using accepted_inside [OF assms] assms h by (simp_all add: fileNoWrap_def)
  have cond: "(\<exists>s \<in> set (fileSegments h source). loadable s \<and> unat (sourceEnd s) > length source)
      \<longleftrightarrow> \<not> segmentsInside source"
    using h(1) by (auto simp: segmentsInside_def linorder_not_le)
  have "readSegmentHeaders nl h source = bind_result (throw_if (\<not> segmentsInside source)
      (RuntimeError ''ELF segment is out of file bounds'')) (\<lambda>_. Inr (dataSegments source, codeSegments source))"
    unfolding readSegmentHeaders_inside [OF wrap h(2)] cond
    by (cases "segmentsInside source") (simp_all add: dataSegments_def codeSegments_def h(1))
  then show ?thesis by (simp add: elfSegments_def Inr Let_def bind_result_assoc)
qed (simp add: elfSegments_def)

lemma sort_set: "std_sort srt \<Longrightarrow> set (srt hs) = set hs"
  unfolding std_sort_def by (metis set_mset_mset)

lemma segments_noWrap:
  assumes "fileNoWrap source" and "acceptedHeader source" and "segmentsInside source"
    and "h \<in> set (dataSegments source) \<union> set (codeSegments source)"
  shows "noWrap h" and "inSource source h"
proof -
  have h: "h \<in> set (fileSegments (headerFields source) source)" "loadable h"
    using assms(4) by (auto simp: dataSegments_def codeSegments_def isData_def isCode_def)
  then show "noWrap h" using assms(1,2) by (simp add: fileNoWrap_def)
  with h assms(3) show "inSource source h"
    by (auto simp: segmentsInside_def inSource_def noWrap_ends(1))
qed

lemma elfSegments_Inr_iff:
  assumes fine: "fileNoWrap source" and srt: "std_sort srt"
  shows "elfSegments nl srt source = Inr (D, C) \<longleftrightarrow>
    acceptedHeader source \<and> segmentsInside source \<and>
    D = srt (dataSegments source) \<and> C = srt (codeSegments source) \<and> goodData source D \<and> goodCode source C"
proof (cases "acceptedHeader source \<and> segmentsInside source")
  case True
  let ?D = "srt (dataSegments source)" and ?C = "srt (codeSegments source)"
  have D: "\<forall>h \<in> set ?D. noWrap h" "\<forall>h \<in> set ?D. inSource source h"
    and C: "\<forall>h \<in> set ?C. noWrap h" "\<forall>h \<in> set ?C. inSource source h"
    using segments_noWrap [OF fine] True by (simp_all add: sort_set [OF srt])
  have "elfSegments nl srt source = Inr (D, C) \<longleftrightarrow> (\<exists>h. ElfHeader_read nl source = Inr h) \<and>
      validateDataHeaders ?D = Inr () \<and> validateCodeHeaders ?C = Inr () \<and> D = ?D \<and> C = ?C"
    unfolding elfSegments_eq [OF fine] using True by (auto simp: bind_result_Inr_iff)
  also have "\<dots> \<longleftrightarrow> acceptedHeader source \<and> D = ?D \<and> C = ?C \<and> goodData source ?D \<and> goodCode source ?C"
    unfolding ElfHeader_read_accepts validateDataHeaders_iff [OF D(1)] validateCodeHeaders_iff [OF C(1)]
      goodData_def goodCode_def using C D by blast
  finally show ?thesis using True by blast
next
  case False
  then show ?thesis
    unfolding elfSegments_eq [OF fine] ElfHeader_read_accepts [of nl, symmetric]
    by (cases "ElfHeader_read nl source") simp_all
qed

lemma elfSegments_Inl:
  assumes "fileNoWrap source" and "elfSegments nl srt source = Inl err"
  shows "\<exists>m. err = RuntimeError m"
  using assms(2) unfolding elfSegments_eq [OF assms(1)]
  by (auto simp: bind_result_Inl_iff bind_result_Inr_iff dest: validate_errors ElfHeader_read_Inl)

section \<open>Mapping\<close>

lemma mapDataSegments_good:
  assumes wf: "wf_arena (memory e)" and D: "goodData source D"
  obtains "D = []" "mapDataSegments D source e = (Inr (), e)"
  | "D \<noteq> []" "mapDataSegments D source e =
      (Inl (RuntimeError ''could not allocate emulator memory to load ELF data segments''), e)"
  | p arena mem where "D \<noteq> []"
      "allocateBytes (segmentStop (last D)) (memory e) = (Inr (p, segmentStop (last D)), [], arena)"
      "copySegments D source p (storage arena) = Inr mem"
      "\<forall>h \<in> set D. p + segmentStart h + unat (sourceSize h) \<le> length (storage arena)"
      "mapDataSegments D source e = (Inr (), e\<lparr>memory := arena\<lparr>storage := mem\<rparr>\<rparr>)"
proof (cases "D = []")
  case True
  then show thesis using that(1) by (simp add: mapDataSegments_def)
next
  case False
  then have "noWrap (last D)" using D by (simp add: goodData_def)
  then have total: "unat (destinationEnd (last D)) = segmentStop (last D)"
    and small: "1 * segmentStop (last D) < 2 ^ 64"
    by (simp_all add: noWrap_ends(2)) (simp add: noWrap_def segmentStop_def)
  obtain r d arena where al: "allocateBytes (segmentStop (last D)) (memory e) = (r, d, arena)"
    by (cases "allocateBytes (segmentStop (last D)) (memory e)")
  show thesis
  proof (cases r)
    case (Inl err)
    with bytes.alloc_Inl [OF wf small, of err d arena] al
    have "err = BadAlloc" "arena = memory e" by (simp_all add: allocateBytes_def)
    then show thesis using that(2) False total al Inl by (simp add: mapDataSegments_def)
  next
    case (Inr pm)
    obtain p m where pm: "pm = (p, m)" by (cases pm)
    have ok: "m = segmentStop (last D)" "d = []" "p + segmentStop (last D) \<le> length (raw arena)"
      using bytes.alloc_Inr [OF wf small, of p m d arena] al Inr pm by (auto simp: allocateBytes_def)
    have inside: "\<forall>h \<in> set D. inSource source h \<and>
        p + segmentStart h + unat (sourceSize h) \<le> length (storage arena)"
    proof
      fix h assume h: "h \<in> set D"
      have "segmentStop h \<le> segmentStop (last D)"
        using D h by (intro separated_last) (simp_all add: goodData_def)
      moreover have "unat (sourceSize h) \<le> unat (destinationSize h)"
        using D h by (simp add: goodData_def word_le_nat_alt)
      ultimately show "inSource source h \<and>
          p + segmentStart h + unat (sourceSize h) \<le> length (storage arena)"
        using ok(3) D h by (simp add: goodData_def raw_def segmentStop_def segmentStart_def)
    qed
    then obtain mem where mem: "copySegments D source p (storage arena) = Inr mem"
      using copySegments_inside by blast
    show thesis
      using that(3) [OF False _ mem] inside al Inr pm ok total False mem
      by (simp add: mapDataSegments_def)
  qed
qed

lemma decodeWord_Inl:
  assumes "decodeWord w = Inl err"
  shows "(\<exists>m. err = RuntimeError m) \<or> (\<exists>c. err = UnknownInstructionException c w) \<or>
    (\<exists>c. err = UnknownInstructionPointer c w)"
  using assms decodeInstruction_error [OF fresh_init, of w err]
  by (auto simp: decodeWord_def split: if_splits)

lemma decodeInstructions_Inl:
  assumes "decodeInstructions nl program = Inl err"
  shows "(\<exists>m. err = RuntimeError m) \<or> (\<exists>c w. err = UnknownInstructionException c w) \<or>
    (\<exists>c w. err = UnknownInstructionPointer c w)"
proof (cases "length program mod 4 = 0")
  case True
  then obtain n where n: "length program = 4 * n" by (metis mod_0_imp_dvd dvdE)
  show ?thesis
    using assms decodeWord_Inl unfolding decodeInstructions_words [OF n] map_result_Inl_iff by blast
next
  case False
  then show ?thesis using assms by (auto simp: decodeInstructions_def)
qed

lemma mapCodeSegments_good:
  assumes C: "goodCode source C"
  shows "mapCodeSegments nl hostLimit C source e =
    (case bind_result (newVector hostLimit (totalSize C)) (\<lambda>_.
        decodeInstructions nl (concat (map (segmentBytes source) C))) of
       Inl err \<Rightarrow> (Inl err, e) | Inr instrs \<Rightarrow> (Inr (), setInstructions instrs e))"
proof -
  have ne: "C \<noteq> []" and cont: "contiguousFrom 0 C" using C by (simp_all add: goodCode_def)
  have inside: "\<forall>h \<in> set C. inSource source h \<and> destinationSize h = sourceSize h"
    using C by (simp add: goodCode_def)
  have "unat (destinationEnd (last C)) = totalSize C"
    using contiguous_stop [OF cont ne] C ne by (simp add: goodCode_def noWrap_ends(2))
  moreover have "copySegments C source 0 (replicate (totalSize C) 0) =
      Inr (concat (map (segmentBytes source) C))"
    using copySegments_contiguous [of "[]" C source] cont inside by simp
  ultimately show ?thesis
    by (auto simp: mapCodeSegments_def newVector_def Let_def)
qed

section \<open>Loading\<close>

text \<open>
  The errors that stop the loader; none of them is undefined behaviour.
\<close>

fun loaderError :: "error \<Rightarrow> bool" where
  "loaderError (UndefinedBehaviour _) = False"
| "loaderError (InvalidArgument _) = False"
| "loaderError _ = True"

lemma newVector_cases:
  obtains "newVector hostLimit n = Inr (replicate n 0)" "n < 2 ^ 63"
  | "newVector hostLimit n = Inl LengthError" | "newVector hostLimit n = Inl BadAlloc"
proof -
  consider "2 ^ 63 - 1 < n" | "n \<le> 2 ^ 63 - 1" "hostLimit < n" | "n \<le> 2 ^ 63 - 1" "n \<le> hostLimit"
    by linarith
  then show thesis by cases (use that in \<open>simp_all add: newVector_def\<close>)
qed

text \<open>
  The outcomes of a load: rejected before anything changed, no room for the data, data in memory but
  no instructions, or a complete load.
\<close>

lemma loadElf_cases:
  assumes fine: "fileNoWrap source" and srt: "std_sort srt" and wf: "wf_arena (memory e)"
  defines "D \<equiv> srt (dataSegments source)" and "C \<equiv> srt (codeSegments source)"
  obtains (rejected) m where "loadElf nl hostLimit srt source e = (Inl (RuntimeError m), e)"
  | (failed) err arena where "loadElf nl hostLimit srt source e = (Inl err, e\<lparr>memory := arena\<rparr>)"
      "loaderError err" "goodData source D" "goodCode source C"
      "mapDataSegments D source e = (Inr (), e\<lparr>memory := arena\<rparr>)"
  | (loaded) arena instrs where
      "loadElf nl hostLimit srt source e = (Inr (), e\<lparr>memory := arena, instructions := instrs\<rparr>)"
      "goodData source D" "goodCode source C" "acceptedHeader source"
      "mapDataSegments D source e = (Inr (), e\<lparr>memory := arena\<rparr>)"
      "decodeInstructions nl (concat (map (segmentBytes source) C)) = Inr instrs" "totalSize C < 2 ^ 63"
proof (cases "elfSegments nl srt source")
  case (Inl err)
  with elfSegments_Inl [OF fine Inl] rejected show thesis by (auto simp: loadElf_def)
next
  case (Inr DC)
  obtain D' C' where DC: "DC = (D', C')" by (cases DC)
  with Inr elfSegments_Inr_iff [OF fine srt, of nl D' C'] have good: "D' = D" "C' = C"
    "goodData source D" "goodCode source C" "acceptedHeader source" by (auto simp: D_def C_def)
  note seg = Inr [unfolded DC good(1,2)]
  have code: thesis if map: "mapDataSegments D source e = (Inr (), e\<lparr>memory := arena\<rparr>)" for arena
  proof -
    have load: "loadElf nl hostLimit srt source e =
        mapCodeSegments nl hostLimit C source (e\<lparr>memory := arena\<rparr>)"
      by (simp add: loadElf_def seg map)
    note load' = load [unfolded mapCodeSegments_good [OF good(4)]]
    show thesis
    proof (cases rule: newVector_cases [of hostLimit "totalSize C"])
      case 1
      show thesis
      proof (cases "decodeInstructions nl (concat (map (segmentBytes source) C))")
        case (Inl err)
        then have "loaderError err" using decodeInstructions_Inl by fastforce
        then show thesis
          using failed [of err arena] load' 1 Inl good map by simp
      next
        case (Inr instrs)
        then show thesis
          using loaded [of instrs arena] load' 1 good map
          by (simp add: setInstructions_def)
      qed
    qed (use failed [of _ arena] load' good map in simp_all)
  qed
  from wf good(3) show thesis
  proof (cases rule: mapDataSegments_good)
    case 1
    then show thesis using code [of "memory e"] by simp
  next
    case 2
    then show thesis using rejected by (simp add: loadElf_def seg)
  next
    case (3 p arena mem)
    then show thesis using code [of "arena\<lparr>storage := mem\<rparr>"] by simp
  qed
qed

lemma goodData_covers:
  assumes "goodData source D" and "h \<in> set D" and "covers p h k"
  shows "p \<le> k \<and> k < p + segmentStop (last D)"
proof -
  have "segmentStop h \<le> segmentStop (last D)"
    using assms by (intro separated_last) (simp_all add: goodData_def)
  moreover have "unat (sourceSize h) \<le> unat (destinationSize h)"
    using assms by (simp add: goodData_def word_le_nat_alt)
  ultimately show ?thesis using assms(3) by (simp add: covers_def segmentStop_def segmentStart_def)
qed

lemma copySegments_frame:
  assumes "copySegments hs source base dest = Inr dest'"
    and "\<forall>h \<in> set hs. inSource source h \<and> base + segmentStart h + unat (sourceSize h) \<le> length dest"
  shows "length dest' = length dest"
    and "\<forall>k < length dest. (\<forall>h \<in> set hs. \<not> covers base h k) \<longrightarrow> dest' ! k = dest ! k"
  using copySegments_inside [OF assms(2)] assms(1) by auto

text \<open>The memory after a load: what each byte of the arena is.\<close>

lemma mapDataSegments_memory:
  assumes wf: "wf_arena (memory e)" and D: "goodData source D" and ne: "D \<noteq> []"
    and map: "mapDataSegments D source e = (Inr (), e')"
  obtains p where "p = getFreeOffset (memory e)" "getFreeOffset (memory e') = p"
    "p + segmentStop (last D) \<le> length (raw (memory e))"
    "length (raw (memory e')) = length (raw (memory e))" "wf_arena (memory e')"
    "\<forall>h \<in> set D. slice_of (p + segmentStart h) (unat (sourceSize h)) (raw (memory e')) = segmentBytes source h"
    "\<forall>k. p \<le> k \<and> k < p + segmentStop (last D) \<and> (\<forall>h \<in> set D. \<not> covers p h k) \<longrightarrow> raw (memory e') ! k = 0"
    "\<forall>k < length (raw (memory e)). k < p \<or> p + segmentStop (last D) \<le> k \<longrightarrow>
      raw (memory e') ! k = raw (memory e) ! k"
proof -
  let ?n = "segmentStop (last D)"
  have small: "1 * ?n < 2 ^ 64" using D ne by (simp add: goodData_def noWrap_def segmentStop_def)
  obtain p arena mem where al: "allocateBytes ?n (memory e) = (Inr (p, ?n), [], arena)"
    and mem: "copySegments D source p (storage arena) = Inr mem"
    and inside: "\<forall>h \<in> set D. p + segmentStart h + unat (sourceSize h) \<le> length (storage arena)"
    and e': "e' = e\<lparr>memory := arena\<lparr>storage := mem\<rparr>\<rparr>"
    by (rule mapDataSegments_good [OF wf D]) (use ne map in auto)
  note al' = al [unfolded allocateBytes_def]
  have range: "p + ?n \<le> length (storage arena)" "length (storage arena) = length (raw (memory e))"
    "wf_arena arena"
    using bytes.alloc_range [OF wf small al'] by (simp_all add: raw_def)
  have good: "\<forall>h \<in> set D. inSource source h \<and> p + segmentStart h + unat (sourceSize h) \<le> length (storage arena)"
    using inside D by (simp add: goodData_def)
  note frame = copySegments_frame [OF mem good]
  have data: "slice_of (p + segmentStart h) (unat (sourceSize h)) mem = segmentBytes source h"
    if "h \<in> set D" for h
    by (rule copySegments_contents [OF mem good]) (use D that in \<open>simp_all add: goodData_def\<close>)
  show thesis
  proof (rule that)
    show "p = getFreeOffset (memory e)"
      using zeroing_position(2,3) [OF wf _ small al'] by simp
    show "getFreeOffset (memory e') = p"
      using zeroing_position(4) [OF wf _ small al'] frame(1) by (simp add: e' getFreeOffset_def)
    show "p + ?n \<le> length (raw (memory e))" using range(1,2) by simp
    show "length (raw (memory e')) = length (raw (memory e))"
      using range(2) frame(1) by (simp add: e' raw_def)
    show "wf_arena (memory e')" using range(3) frame(1) by (simp add: e' wf_arena_def)
    show "\<forall>h \<in> set D. slice_of (p + segmentStart h) (unat (sourceSize h)) (raw (memory e')) =
        segmentBytes source h" using data by (simp add: e' raw_def)
    show "\<forall>k. p \<le> k \<and> k < p + ?n \<and> (\<forall>h \<in> set D. \<not> covers p h k) \<longrightarrow> raw (memory e') ! k = 0"
      using bytes.alloc_zeroed [OF wf small al'] frame(2) range(1) by (auto simp: e' raw_def)
    show "\<forall>k < length (raw (memory e)). k < p \<or> p + ?n \<le> k \<longrightarrow> raw (memory e') ! k = raw (memory e) ! k"
    proof (intro allI impI)
      fix k assume k: "k < length (raw (memory e))" "k < p \<or> p + ?n \<le> k"
      then have "\<forall>h \<in> set D. \<not> covers p h k" using goodData_covers [OF D] by (meson not_le)
      then have "mem ! k = storage arena ! k" using frame(2) k(1) range(2) by simp
      then show "raw (memory e') ! k = raw (memory e) ! k"
        using bytes.alloc_frame [OF wf small al', of k] k by (simp add: e' raw_def)
    qed
  qed
qed

text \<open>A loaded program is one that the emulator can run safely.\<close>

lemma decoded_wf_program:
  assumes "decodeInstructions nl program = Inr instrs" and "length program < 2 ^ 63"
  shows "wf_program instrs" and "length program = 4 * length instrs"
proof -
  have "length program mod 4 = 0"
    using assms(1) by (auto simp: decodeInstructions_def split: if_splits)
  then obtain n where n: "length program = 4 * n" by (metis mod_0_imp_dvd dvdE)
  then show len: "length program = 4 * length instrs"
    using decodeInstructions_Inr_iff [OF n] assms(1) by simp
  show "wf_program instrs"
    using decodeInstructions_wf [OF assms(1)] assms(2) len by (simp add: wf_program_def)
qed

lemma length_codeBytes:
  "goodCode source C \<Longrightarrow> length (concat (map (segmentBytes source) C)) = totalSize C"
  by (simp add: goodCode_def length_concat totalSize_def o_def cong: map_cong)

lemma contiguous_slices:
  assumes "contiguousFrom (length pre) C"
    and "\<forall>h \<in> set C. inSource source h \<and> destinationSize h = sourceSize h" and "h \<in> set C"
  shows "slice_of (segmentStart h) (unat (sourceSize h)) (pre @ concat (map (segmentBytes source) C)) =
    segmentBytes source h"
  using assms
proof (induction C arbitrary: pre)
  case (Cons a C)
  let ?bs = "segmentBytes source a"
  have a: "inSource source a" "segmentStart a = length pre" "length ?bs = unat (destinationSize a)"
    using Cons.prems by simp_all
  show ?case
  proof (cases "h = a")
    case True
    then show ?thesis using a Cons.prems(2) by (simp add: slice_of_def)
  next
    case False
    then have "slice_of (segmentStart h) (unat (sourceSize h))
        ((pre @ ?bs) @ concat (map (segmentBytes source) C)) = segmentBytes source h"
      using Cons.prems a
      by (intro Cons.IH) (auto simp: segmentStop_def segmentStart_def)
    then show ?thesis by simp
  qed
qed simp

lemma codeBytes_slices:
  "goodCode source C \<Longrightarrow> h \<in> set C \<Longrightarrow>
    slice_of (segmentStart h) (unat (sourceSize h)) (concat (map (segmentBytes source) C)) =
    segmentBytes source h"
  using contiguous_slices [of "[]" C source h] by (simp add: goodCode_def)

lemma totalSize_sort: "std_sort srt \<Longrightarrow> totalSize (srt hs) = totalSize hs"
proof -
  assume "std_sort srt"
  then have "mset (map (\<lambda>h. unat (sourceSize h)) (srt hs)) = mset (map (\<lambda>h. unat (sourceSize h)) hs)"
    by (simp add: std_sort_def)
  then show ?thesis unfolding totalSize_def by (metis sum_mset_sum_list)
qed

section \<open>The order of equal elements\<close>

text \<open>
  Segments that pass the checks have different addresses, so there is only one way to sort them; and
  the checks that fail do so with the same message for every order.
\<close>

lemma sorted_separated_unique:
  assumes sep: "separated xs" and pos: "\<forall>h \<in> set xs. segmentStart h < segmentStop h"
    and "mset ys = mset xs" and "sorted (map destinationStart xs)" and "sorted (map destinationStart ys)"
  shows "ys = xs"
proof -
  have "sorted_wrt (\<lambda>a b. destinationStart a \<noteq> destinationStart b) xs"
    using sep pos unfolding separated_def sorted_wrt_iff_nth_less
    by (metis nth_mem order.strict_trans2 less_trans order_less_irrefl segmentStart_def)
  then have dist: "distinct (map destinationStart xs)"
    by (auto simp: distinct_conv_nth sorted_wrt_iff_nth_less nat_neq_iff) metis
  then have inj: "inj_on destinationStart (set xs \<union> set ys)"
    using assms(3) by (metis distinct_map set_mset_mset sup.idem)
  have "mset (map destinationStart ys) = mset (map destinationStart xs)" using assms(3) by simp
  then have "map destinationStart ys = map destinationStart xs"
    using assms(4,5) by (metis properties_for_sort)
  then show ?thesis using inj by (metis inj_on_map_eq_map Un_commute)
qed

lemma sort_unique:
  assumes "std_sort srt" and "std_sort srt'" and "separated (srt hs)"
    and "\<forall>h \<in> set hs. segmentStart h < segmentStop h"
  shows "srt' hs = srt hs"
  by (rule sorted_separated_unique [OF assms(3)])
    (use assms sort_set [OF assms(1)] in \<open>auto simp: std_sort_def\<close>)

lemma sort_key_same:
  assumes "std_sort srt" and "std_sort srt'"
  shows "map destinationStart (srt hs) = map destinationStart (srt' hs)"
proof -
  have "mset (map destinationStart (srt hs)) = mset (map destinationStart (srt' hs))"
    using assms by (simp add: std_sort_def)
  moreover have "sorted (map destinationStart (srt hs))" "sorted (map destinationStart (srt' hs))"
    using assms by (simp_all add: std_sort_def)
  ultimately show ?thesis by (metis properties_for_sort)
qed

lemma loadable_positive:
  assumes "loadable h" and "noWrap h" and "sourceSize h \<le> destinationSize h"
  shows "segmentStart h < segmentStop h"
proof -
  have "destinationSize h \<noteq> 0" using assms(1,3) by (auto simp: loadable_def)
  then show ?thesis by (simp add: segmentStart_def segmentStop_def unat_gt_0)
qed

lemma validateDataHeaders_same:
  assumes srt: "std_sort srt" "std_sort srt'" and hs: "\<forall>h \<in> set hs. noWrap h \<and> loadable h"
  shows "validateDataHeaders (srt' hs) = validateDataHeaders (srt hs)"
    and "validateDataHeaders (srt hs) = Inr () \<Longrightarrow> srt' hs = srt hs"
proof -
  have wrap: "\<forall>h \<in> set (srt hs). noWrap h" "\<forall>h \<in> set (srt' hs). noWrap h"
    using hs by (simp_all add: sort_set srt)
  have eq: "srt' hs = srt hs"
    if "\<forall>h \<in> set hs. sourceSize h \<le> destinationSize h" "separated (srt hs) \<or> separated (srt' hs)"
  proof -
    have pos: "\<forall>h \<in> set hs. segmentStart h < segmentStop h" using that(1) hs loadable_positive by blast
    from that(2) show ?thesis
      using sort_unique [OF srt _ pos] sort_unique [OF srt(2,1) _ pos] by auto
  qed
  show "srt' hs = srt hs" if "validateDataHeaders (srt hs) = Inr ()"
    using that eq unfolding validateDataHeaders_iff [OF wrap(1)] by (simp add: sort_set srt)
  show "validateDataHeaders (srt' hs) = validateDataHeaders (srt hs)"
  proof (cases "\<forall>h \<in> set hs. sourceSize h \<le> destinationSize h")
    case True
    then show ?thesis
      using eq [OF True] unfolding validateDataHeaders_def neighbours_successively
        successively_noWrap(1) [OF wrap(1)] successively_noWrap(1) [OF wrap(2)] separated_successively
        sort_set [OF srt(1)] sort_set [OF srt(2)]
      by (cases "separated (srt hs) \<or> separated (srt' hs)") simp_all
  next
    case False
    then have "\<exists>h \<in> set hs. sourceSize h > destinationSize h" by (auto simp: linorder_not_le)
    then show ?thesis unfolding validateDataHeaders_def sort_set [OF srt(1)] sort_set [OF srt(2)] by simp
  qed
qed

lemma validateCodeHeaders_same:
  assumes srt: "std_sort srt" "std_sort srt'" and hs: "\<forall>h \<in> set hs. noWrap h \<and> loadable h"
  shows "validateCodeHeaders (srt' hs) = validateCodeHeaders (srt hs)"
    and "validateCodeHeaders (srt hs) = Inr () \<Longrightarrow> srt' hs = srt hs"
proof -
  have wrap: "\<forall>h \<in> set (srt hs). noWrap h" "\<forall>h \<in> set (srt' hs). noWrap h"
    using hs by (simp_all add: sort_set srt)
  have eq: "srt' hs = srt hs"
    if ok: "validateCodeHeaders (srt hs) = Inr () \<or> validateCodeHeaders (srt' hs) = Inr ()"
  proof -
    have sizes: "\<forall>h \<in> set hs. destinationSize h = sourceSize h"
      and sep: "separated (srt hs) \<or> separated (srt' hs)"
      using ok contiguous_separated
      unfolding validateCodeHeaders_iff [OF wrap(1)] validateCodeHeaders_iff [OF wrap(2)]
      by (auto simp: sort_set srt)
    then have pos: "\<forall>h \<in> set hs. segmentStart h < segmentStop h" using hs loadable_positive by simp
    from sep show ?thesis
      using sort_unique [OF srt _ pos] sort_unique [OF srt(2,1) _ pos] by auto
  qed
  then show "srt' hs = srt hs" if "validateCodeHeaders (srt hs) = Inr ()" using that by blast
  have nil: "srt hs = [] \<longleftrightarrow> hs = []" "srt' hs = [] \<longleftrightarrow> hs = []"
    using sort_set [OF srt(1), of hs] sort_set [OF srt(2), of hs] by auto
  have first: "destinationStart (srt hs ! 0) = destinationStart (srt' hs ! 0)" if "hs \<noteq> []"
    using sort_key_same [OF srt, of hs] that nil by (metis length_greater_0_conv map_is_Nil_conv nth_map)
  show "validateCodeHeaders (srt' hs) = validateCodeHeaders (srt hs)"
  proof (cases "validateCodeHeaders (srt hs) = Inr () \<or> validateCodeHeaders (srt' hs) = Inr ()")
    case True
    then show ?thesis using eq by simp
  next
    case False
    then show ?thesis
      using first unfolding validateCodeHeaders_def nil sort_set [OF srt(1)] sort_set [OF srt(2)]
      by (cases "hs = []"; cases "\<exists>h \<in> set hs. destinationSize h \<noteq> sourceSize h";
          cases "destinationStart (srt hs ! 0) = 0") (auto simp: throw_if_def split: if_splits)
  qed
qed

lemma elfSegments_same:
  assumes fine: "fileNoWrap source" and srt: "std_sort srt" "std_sort srt'"
  shows "elfSegments nl srt' source = elfSegments nl srt source"
proof (cases "acceptedHeader source")
  case True
  then have D: "\<forall>h \<in> set (dataSegments source). noWrap h \<and> loadable h"
    and C: "\<forall>h \<in> set (codeSegments source). noWrap h \<and> loadable h"
    using fine by (auto simp: fileNoWrap_def dataSegments_def codeSegments_def isData_def isCode_def)
  note data = validateDataHeaders_same [OF srt D] and code = validateCodeHeaders_same [OF srt C]
  show ?thesis
    unfolding elfSegments_eq [OF fine] data(1) code(1)
    using data(2) code(2)
    by (cases "validateDataHeaders (srt (dataSegments source))";
        cases "validateCodeHeaders (srt (codeSegments source))") simp_all
next
  case False
  then obtain err where "ElfHeader_read nl source = Inl err"
    using ElfHeader_read_accepts [of nl source] by (cases "ElfHeader_read nl source") auto
  then show ?thesis by (simp add: elfSegments_def)
qed

lemma loadElf_sort:
  assumes "fileNoWrap source" and "std_sort srt" and "std_sort srt'"
  shows "loadElf nl hostLimit srt' source e = loadElf nl hostLimit srt source e"
  unfolding loadElf_def elfSegments_same [OF assms] ..

text \<open>Neither is the endianness of the host visible.\<close>

lemma endianness_invisible:
  "SegmentHeader_read nl = SegmentHeader_read nl'" "ElfHeader_read nl = ElfHeader_read nl'"
  by (intro ext; simp add: SegmentHeader_read_def ElfHeader_read_def codec_forms)+

lemma readSegmentLoop_endianness:
  "readSegmentLoop nl h source is d c = readSegmentLoop nl' h source is d c"
proof (induction "is" arbitrary: d c)
  case (Cons i "is")
  then show ?case
    using endianness_invisible(1) [of nl nl']
    by (cases "SegmentHeader_read nl' source (headerOffset h i)") simp_all
qed simp

lemma decodeInstructions_endianness: "decodeInstructions nl = decodeInstructions nl'"
proof
  fix program
  show "decodeInstructions nl program = decodeInstructions nl' program"
  proof (cases "length program mod 4 = 0")
    case True
    then obtain n where "length program = 4 * n" by (metis mod_0_imp_dvd dvdE)
    then show ?thesis by (simp add: decodeInstructions_words)
  qed (simp add: decodeInstructions_def)
qed

lemma loadElf_endianness: "loadElf nl hostLimit srt source e = loadElf nl' hostLimit srt source e"
proof -
  have code: "mapCodeSegments nl = mapCodeSegments nl'"
    by (intro ext) (simp add: mapCodeSegments_def decodeInstructions_endianness [of nl nl'])
  have segments: "elfSegments nl srt source = elfSegments nl' srt source"
    unfolding elfSegments_def readSegmentHeaders_def endianness_invisible(2) [of nl nl']
      readSegmentLoop_endianness [of nl _ _ _ _ _ nl'] ..
  show ?thesis unfolding loadElf_def code segments ..
qed

section \<open>Addresses that wrap around\<close>

text \<open>
  A file of 64 bytes whose header table lies \<open>56\<close> bytes below \<open>2 ^ 64\<close>: the sum that \<^verbatim>\<open>validate\<close>
  compares with the file size is zero, and the first read of a segment header is outside the file.
\<close>

definition wrapFile :: "u8 list" where
  "wrapFile = [0x7f, 0x45, 0x4c, 0x46, 2, 1, 1, 0] @ replicate 8 0 @ [2, 0, 0xf3, 0, 1, 0, 0, 0]
     @ replicate 8 0 @ 0xc8 # replicate 7 0xff @ replicate 14 0 @ [56, 0, 1, 0] @ replicate 6 0"

lemma wrapFile_bytes:
  "wrapFile = [127, 69, 76, 70, 2, 1, 1, 0, 0, 0, 0, 0, 0, 0, 0, 0, 2, 0, 243, 0, 1, 0, 0, 0,
    0, 0, 0, 0, 0, 0, 0, 0, 200, 255, 255, 255, 255, 255, 255, 255, 0, 0, 0, 0, 0, 0, 0, 0, 0, 0, 0, 0, 0, 0,
    56, 0, 1, 0, 0, 0, 0, 0, 0, 0]"
  by (simp add: wrapFile_def replicate_numeral)

lemma wrapFile_slices:
  "slice_of 0 8 wrapFile = [0x7f, 0x45, 0x4c, 0x46, 2, 1, 1, 0]"
  "slice_of 16 4 wrapFile = [2, 0, 0xf3, 0]" "slice_of 24 8 wrapFile = replicate 8 0"
  "slice_of 32 8 wrapFile = [200, 255, 255, 255, 255, 255, 255, 255]"
  "slice_of 54 2 wrapFile = [56, 0]" "slice_of 56 2 wrapFile = [1, 0]"
  by (simp_all add: wrapFile_bytes slice_of_def replicate_numeral)

lemma wrap_offset: "objectOfBytes [200, 255, 255, 255, 255, 255, 255, 255] = (- 56 :: u64)"
  by simp

lemma wrapFile_header:
  "length wrapFile = 64" "acceptedHeader wrapFile"
  "programHeaderOffset (headerFields wrapFile) = - 56"
  "programHeaderEntryCount (headerFields wrapFile) = 1"
proof -
  show len: "length wrapFile = 64" by (simp add: wrapFile_def)
  show offset: "programHeaderOffset (headerFields wrapFile) = - 56"
    unfolding headerFields_plain wrapFile_slices by (rule wrap_offset)
  show count: "programHeaderEntryCount (headerFields wrapFile) = 1"
    unfolding headerFields_plain wrapFile_slices by simp
  show "acceptedHeader wrapFile"
    unfolding acceptedHeader_def wrapFile_slices wrap_offset len by simp
qed

lemma loadElf_wrapFile:
  "fst (loadElf nl hostLimit srt wrapFile e) = Inl (UndefinedBehaviour ''out-of-bounds read'')"
proof -
  obtain h where read: "ElfHeader_read nl wrapFile = Inr h"
    using wrapFile_header(2) ElfHeader_read_accepts by blast
  then have h: "programHeaderOffset h = - 56" "programHeaderEntryCount h = 1"
    using ElfHeader_read_Inr wrapFile_header(3,4) by blast+
  have "headerOffset h 0 = - 56" by (simp add: headerOffset_def h)
  moreover have "unat (- 56 :: u64) = 2 ^ 64 - 56" by simp
  ultimately have "SegmentHeader_read nl wrapFile (headerOffset h 0) =
      Inl (UndefinedBehaviour ''out-of-bounds read'')"
    by (simp add: SegmentHeader_read_def codec_forms readBytes_def wrapFile_header(1) Let_def)
  then have "readSegmentHeaders nl h wrapFile = Inl (UndefinedBehaviour ''out-of-bounds read'')"
    by (simp add: readSegmentHeaders_def h)
  then show ?thesis by (simp add: loadElf_def elfSegments_def read)
qed

text \<open>
  A segment of sixteen bytes at address \<open>2 ^ 64 - 8\<close> ends, modulo \<open>2 ^ 64\<close>, at address eight. The
  checks accept it, eight bytes are allocated for it, and the copy starts far outside of them.
\<close>

definition wrapSegment :: SegmentHeader where
  "wrapSegment = \<lparr>segmentType = 1, flags = 0, sourceStart = 0, destinationStart = - 8,
     sourceSize = 16, destinationSize = 16\<rparr>"

lemma mapDataSegments_wrapSegment:
  assumes wf: "wf_arena (memory e)" and room: "8 \<le> freeSpace (memory e)" and "16 \<le> length source"
  shows "validateDataHeaders [wrapSegment] = Inr () \<and> isData wrapSegment \<and>
    unat (sourceEnd wrapSegment) \<le> length source \<and>
    fst (mapDataSegments [wrapSegment] source e) = Inl (UndefinedBehaviour ''out-of-bounds write'')"
proof -
  have seg: "validateDataHeaders [wrapSegment] = Inr ()" "isData wrapSegment"
    "unat (sourceEnd wrapSegment) = 16" "unat (destinationEnd wrapSegment) = 8"
    "unat (destinationStart wrapSegment) = 2 ^ 64 - 8" "unat (sourceStart wrapSegment) = 0"
    "unat (sourceSize wrapSegment) = 16"
    by (simp_all add: wrapSegment_def validateDataHeaders_def isData_def loadable_def executable_def
        typeLoad_def flagExecutable_def sourceEnd_def destinationEnd_def)
  have "1 dvd dataAddress (memory e) + getFreeOffset (memory e)" by simp
  moreover have "getFreeOffset (memory e) + 8 \<le> length (raw (memory e))"
    using wf room by (simp add: wf_arena_def getFreeOffset_def raw_def)
  ultimately obtain p a' where "allocateRaw 8 1 (memory e) = (Inr p, a')"
    using arena.alloc_fits [OF wf, of 1 "getFreeOffset (memory e)" 8] by auto
  then have al: "allocateBytes 8 (memory e) = (Inr (p, 8), [],
      a'\<lparr>storage := overwrite p (replicate 8 0) (storage (memory e))\<rparr>)"
    using allocateArray_zero [OF wf, of 1 1 8 p a'] by (simp add: allocateBytes_def)
  have "length (overwrite p (replicate 8 0) (storage (memory e))) < 2 ^ 64"
    using allocateArray_wf [OF wf _ al [unfolded allocateBytes_def]] by (simp add: wf_arena_def)
  then have "copySegments [wrapSegment] source p (overwrite p (replicate 8 0) (storage (memory e))) =
      Inl (UndefinedBehaviour ''out-of-bounds write'')"
    using assms(3) seg by (simp add: memcpy_def readBytes_def writeBytes_def)
  then have "fst (mapDataSegments [wrapSegment] source e) = Inl (UndefinedBehaviour ''out-of-bounds write'')"
    using al seg by (simp add: mapDataSegments_def)
  with seg assms(3) show ?thesis by simp
qed

end
