(* ===== verification/LoaderExample.thy ===== *)
theory LoaderExample
  imports ElfLoad
begin

text \<open>
  A small executable, on which the properties of the loader and of the application are applied: one
  code segment of one instruction, given by its four bytes, and one data segment with two bytes in
  the file and two more in memory, at address eight. \<open>goodFile\<close> holds the instruction \<open>LUI x1, 1\<close>.
\<close>

definition exampleFile :: "u8 \<Rightarrow> u8 \<Rightarrow> u8 \<Rightarrow> u8 \<Rightarrow> u8 list" where
  "exampleFile a b c d = [0x7f, 0x45, 0x4c, 0x46, 2, 1, 1, 0, 0, 0, 0, 0, 0, 0, 0, 0, 2, 0, 0xf3, 0, 1, 0, 0, 0,
     0, 0, 0, 0, 0, 0, 0, 0, 64, 0, 0, 0, 0, 0, 0, 0, 0, 0, 0, 0, 0, 0, 0, 0, 0, 0, 0, 0, 64, 0,
     56, 0, 2, 0, 0, 0, 0, 0, 0, 0,
     1, 0, 0, 0, 5, 0, 0, 0, 176, 0, 0, 0, 0, 0, 0, 0, 0, 0, 0, 0, 0, 0, 0, 0, 0, 0, 0, 0, 0, 0, 0, 0,
     4, 0, 0, 0, 0, 0, 0, 0, 4, 0, 0, 0, 0, 0, 0, 0, 0, 0, 0, 0, 0, 0, 0, 0,
     1, 0, 0, 0, 6, 0, 0, 0, 180, 0, 0, 0, 0, 0, 0, 0, 8, 0, 0, 0, 0, 0, 0, 0, 0, 0, 0, 0, 0, 0, 0, 0,
     2, 0, 0, 0, 0, 0, 0, 0, 4, 0, 0, 0, 0, 0, 0, 0, 0, 0, 0, 0, 0, 0, 0, 0,
     a, b, c, d, 0xAA, 0xBB]"

abbreviation goodFile :: "u8 list" where
  "goodFile \<equiv> exampleFile 0xb7 0x10 0 0"

definition codeSegment :: SegmentHeader where
  "codeSegment = \<lparr>segmentType = 1, flags = 5, sourceStart = 176, destinationStart = 0,
     sourceSize = 4, destinationSize = 4\<rparr>"

definition dataSegment :: SegmentHeader where
  "dataSegment = \<lparr>segmentType = 1, flags = 6, sourceStart = 180, destinationStart = 8,
     sourceSize = 2, destinationSize = 4\<rparr>"

definition stableSort :: "SegmentHeader list \<Rightarrow> SegmentHeader list" where
  "stableSort = sort_key destinationStart"

lemma std_sort_stable: "std_sort stableSort"
  by (simp add: std_sort_def stableSort_def)

lemma exampleFile_slices:
  "length (exampleFile a b c d) = 182"
  "slice_of 0 8 (exampleFile a b c d) = [0x7f, 0x45, 0x4c, 0x46, 2, 1, 1, 0]"
  "slice_of 16 4 (exampleFile a b c d) = [2, 0, 0xf3, 0]" "slice_of 24 8 (exampleFile a b c d) = replicate 8 0"
  "slice_of 32 8 (exampleFile a b c d) = [64, 0, 0, 0, 0, 0, 0, 0]"
  "slice_of 54 2 (exampleFile a b c d) = [56, 0]" "slice_of 56 2 (exampleFile a b c d) = [2, 0]"
  by (simp_all add: exampleFile_def slice_of_def replicate_numeral)

lemma exampleFile_segments:
  "slice_of 64 4 (exampleFile a b c d) = [1, 0, 0, 0]" "slice_of 68 4 (exampleFile a b c d) = [5, 0, 0, 0]"
  "slice_of 72 8 (exampleFile a b c d) = [176, 0, 0, 0, 0, 0, 0, 0]" "slice_of 80 8 (exampleFile a b c d) = [0, 0, 0, 0, 0, 0, 0, 0]"
  "slice_of 96 8 (exampleFile a b c d) = [4, 0, 0, 0, 0, 0, 0, 0]" "slice_of 104 8 (exampleFile a b c d) = [4, 0, 0, 0, 0, 0, 0, 0]"
  "slice_of 120 4 (exampleFile a b c d) = [1, 0, 0, 0]" "slice_of 124 4 (exampleFile a b c d) = [6, 0, 0, 0]"
  "slice_of 128 8 (exampleFile a b c d) = [180, 0, 0, 0, 0, 0, 0, 0]" "slice_of 136 8 (exampleFile a b c d) = [8, 0, 0, 0, 0, 0, 0, 0]"
  "slice_of 152 8 (exampleFile a b c d) = [2, 0, 0, 0, 0, 0, 0, 0]" "slice_of 160 8 (exampleFile a b c d) = [4, 0, 0, 0, 0, 0, 0, 0]"
  "slice_of 176 4 (exampleFile a b c d) = [a, b, c, d]" "slice_of 180 2 (exampleFile a b c d) = [0xAA, 0xBB]"
  by (simp_all add: exampleFile_def slice_of_def)

lemma exampleFile_header:
  "programHeaderOffset (headerFields (exampleFile a b c d)) = 64" "programHeaderEntryCount (headerFields (exampleFile a b c d)) = 2"
  "acceptedHeader (exampleFile a b c d)"
  by (simp_all add: headerFields_plain acceptedHeader_def exampleFile_slices)

lemma exampleFile_read: "fileSegments (headerFields (exampleFile a b c d)) (exampleFile a b c d) = [codeSegment, dataSegment]"
proof -
  have two: "[0..<unat (2 :: u16)] = [0, 1]" by (simp add: upt_conv_Cons)
  have "segmentFields (exampleFile a b c d) 64 = codeSegment" "segmentFields (exampleFile a b c d) 120 = dataSegment"
    by (simp_all add: segmentFields_def codeSegment_def dataSegment_def exampleFile_segments)
  then show ?thesis unfolding fileSegments_def exampleFile_header two by simp
qed

lemma segments_kind:
  "isCode codeSegment" "\<not> isData codeSegment" "isData dataSegment" "\<not> isCode dataSegment"
  "noWrap codeSegment" "noWrap dataSegment" "loadable codeSegment" "loadable dataSegment"
  by (simp_all add: isCode_def isData_def loadable_def executable_def flagExecutable_def typeLoad_def
      codeSegment_def dataSegment_def noWrap_def)

lemma exampleFile_fine: "fileNoWrap (exampleFile a b c d)"
  by (simp add: fileNoWrap_def exampleFile_slices(1) exampleFile_header exampleFile_read
      segments_kind)

lemma exampleFile_parts:
  "dataSegments (exampleFile a b c d) = [dataSegment]" "codeSegments (exampleFile a b c d) = [codeSegment]"
  "segmentsInside (exampleFile a b c d)"
  by (simp_all add: dataSegments_def codeSegments_def segmentsInside_def exampleFile_read segments_kind
      exampleFile_slices(1) noWrap_ends(1)) (simp_all add: codeSegment_def dataSegment_def)

lemma exampleFile_checked: "goodData (exampleFile a b c d) [dataSegment]" "goodCode (exampleFile a b c d) [codeSegment]"
  by (simp_all add: goodData_def goodCode_def segments_kind inSource_def exampleFile_slices(1)
      separated_def segmentStart_def)
    (simp_all add: codeSegment_def dataSegment_def)

lemma std_sort_single: "std_sort srt \<Longrightarrow> srt [h] = [h]"
  unfolding std_sort_def by (metis mset_single_iff_right mset.simps(1) mset.simps(2) add_mset_eq_single)

lemma goodFile_decode: "decodeInstructions nl [0xb7, 0x10, 0, 0] =
    Inr [Instruction_init\<lparr>operand := Immediate 4096, destinationRegister := 1\<rparr>]"
proof -
  have "programWord [0xb7, 0x10, 0, 0] 0 = 0x10b7"
    by (simp add: programWord_def slice_of_def)
  then have "decodeWord (programWord [0xb7, 0x10, 0, 0] 0) =
      Inr (Instruction_init\<lparr>operand := Immediate 4096, destinationRegister := 1\<rparr>)"
    by (simp add: decodeWord_def decodeInstruction_def opcodeValue.simps getOpcode_def bitsAt_eq
        readFieldsU_def typed_def getImmediateU_def getDestinationRegister_def setImmediate_def
        Instruction_init_def take_bit_eq_mod drop_bit_eq_div)
  then show ?thesis using decodeInstructions_words [of "[0xb7, 0x10, 0, 0]" 1 nl] by simp
qed

end
