(* ===== verification/LoaderProperties.thy ===== *)
theory LoaderProperties
  imports LoaderExample
begin

text \<open>
  The properties of the ELF loader, with an application of each to the executable of
  \<open>LoaderExample\<close> or to the two wrapped addresses of \<open>ElfLoad\<close>.
\<close>

section \<open>When loading succeeds\<close>

lemma copySegments_error: "copySegments D source p bs = Inl err \<Longrightarrow> err \<noteq> RuntimeError r"
  by (induction D arbitrary: bs)
    (auto simp: bind_result_Inl_iff memcpy_def readBytes_def writeBytes_def split: if_splits)

lemma mapDataSegments_iff:
  assumes wf: "wf_arena (memory e)" and D: "goodData source D"
  shows "fst (mapDataSegments D source e) = Inr () \<longleftrightarrow>
    (D \<noteq> [] \<longrightarrow> getFreeOffset (memory e) + segmentStop (last D) \<le> length (raw (memory e)))"
  using wf D
proof (cases rule: mapDataSegments_good)
  case 1
  then show ?thesis by simp
next
  case 2
  let ?t = "segmentStop (last D)"
  have "\<not> getFreeOffset (memory e) + ?t \<le> length (raw (memory e))"
  proof
    assume fits: "getFreeOffset (memory e) + ?t \<le> length (raw (memory e))"
    have "1 dvd dataAddress (memory e) + getFreeOffset (memory e)" by simp
    then obtain p a' where raw: "allocateRaw ?t 1 (memory e) = (Inr p, a')"
      using arena.alloc_fits [OF wf, of 1 "getFreeOffset (memory e)" ?t] fits by auto
    have small: "?t < 2 ^ 64" using D 2(1) by (simp add: goodData_def noWrap_def segmentStop_def)
    have total: "unat (destinationEnd (last D)) = ?t"
      using D 2(1) by (simp add: goodData_def noWrap_ends(2))
    obtain m where al: "allocateBytes ?t (memory e) = (Inr (p, ?t), [], m)"
      using allocateArray_zero [OF wf, of 1 1 ?t p a'] small raw by (simp add: allocateBytes_def)
    have "fst (mapDataSegments D source e) \<noteq>
        Inl (RuntimeError ''could not allocate emulator memory to load ELF data segments'')"
      using 2(1) total al copySegments_error
      by (auto simp: mapDataSegments_def split: sum.splits)
    then show False using 2(2) by simp
  qed
  then show ?thesis using 2 by simp
next
  case (3 p arena mem)
  have map: "mapDataSegments D source e = (Inr (), e\<lparr>memory := arena\<lparr>storage := mem\<rparr>\<rparr>)" by fact
  have "getFreeOffset (memory e) + segmentStop (last D) \<le> length (raw (memory e))"
    by (rule mapDataSegments_memory [OF wf D 3(1) map]) simp
  then show ?thesis using map by simp
qed

lemma newVector_Inr_iff: "(\<exists>v. newVector limit n = Inr v) \<longleftrightarrow> n < 2 ^ 63 \<and> n \<le> limit"
  by (cases "n \<le> 2 ^ 63 - 1"; cases "n \<le> limit") (simp_all add: newVector_def)

text \<open>The conditions under which a file is loaded.\<close>

definition loads :: "bool \<Rightarrow> nat \<Rightarrow> (SegmentHeader list \<Rightarrow> SegmentHeader list) \<Rightarrow> u8 list
    \<Rightarrow> 'h Emulator \<Rightarrow> bool" where
  "loads nl hostLimit srt source e \<longleftrightarrow> (let D = srt (dataSegments source); C = srt (codeSegments source) in
     acceptedHeader source \<and> segmentsInside source \<and> goodData source D \<and> goodCode source C \<and>
     (D \<noteq> [] \<longrightarrow> getFreeOffset (memory e) + segmentStop (last D) \<le> length (raw (memory e))) \<and>
     totalSize C < 2 ^ 63 \<and> totalSize C \<le> hostLimit \<and>
     (\<exists>instrs. decodeInstructions nl (concat (map (segmentBytes source) C)) = Inr instrs))"

lemma loads_iff:
  assumes fine: "fileNoWrap source" and srt: "std_sort srt" and wf: "wf_arena (memory e)"
  shows "fst (loadElf nl hostLimit srt source e) = Inr () \<longleftrightarrow> loads nl hostLimit srt source e"
proof (cases "elfSegments nl srt source")
  case (Inl err)
  then have "\<not> loads nl hostLimit srt source e"
    using elfSegments_Inr_iff [OF fine srt, of nl] by (auto simp: loads_def Let_def)
  then show ?thesis using Inl by (simp add: loadElf_def)
next
  case (Inr DC)
  obtain D C where DC: "DC = (D, C)" by (cases DC)
  have good: "D = srt (dataSegments source)" "C = srt (codeSegments source)" "goodData source D"
    "goodCode source C" "acceptedHeader source" "segmentsInside source"
    using Inr DC elfSegments_Inr_iff [OF fine srt, of nl D C] by auto
  obtain r e' where map: "mapDataSegments D source e = (r, e')" by (cases "mapDataSegments D source e")
  have fits: "r = Inr () \<longleftrightarrow>
      (D \<noteq> [] \<longrightarrow> getFreeOffset (memory e) + segmentStop (last D) \<le> length (raw (memory e)))"
    using mapDataSegments_iff [OF wf good(3)] map by simp
  have "fst (mapCodeSegments nl hostLimit C source e') = Inr () \<longleftrightarrow>
      (\<exists>v. newVector hostLimit (totalSize C) = Inr v) \<and>
      (\<exists>instrs. decodeInstructions nl (concat (map (segmentBytes source) C)) = Inr instrs)"
    unfolding mapCodeSegments_good [OF good(4)] by (auto simp: bind_result_def split: sum.splits)
  moreover have "fst (loadElf nl hostLimit srt source e) = Inr () \<longleftrightarrow>
      r = Inr () \<and> fst (mapCodeSegments nl hostLimit C source e') = Inr ()"
    by (cases r) (auto simp: loadElf_def Inr DC map)
  moreover have "loads nl hostLimit srt source e \<longleftrightarrow>
      r = Inr () \<and> totalSize C < 2 ^ 63 \<and> totalSize C \<le> hostLimit \<and>
      (\<exists>instrs. decodeInstructions nl (concat (map (segmentBytes source) C)) = Inr instrs)"
    using good(3-6) fits unfolding loads_def Let_def good(1,2) [symmetric] by simp
  ultimately show ?thesis unfolding newVector_Inr_iff by blast
qed

text \<open>
  C25: Exactly these files are loaded (of those whose end addresses do not wrap around): the header is
  accepted, the loadable segments are inside the file, the data segments neither overlap nor shrink,
  the code segments are contiguous from address 0 and keep their sizes, the data fits into the free
  guest memory, the code fits into a vector of the host, and every word of the code decodes.
\<close>

theorem load_succeeds_iff:
  assumes "fileNoWrap source" and "std_sort srt" and "wf_arena (memory e)"
  shows "fst (loadElf nl hostLimit srt source e) = Inr () \<longleftrightarrow> loads nl hostLimit srt source e"
  using assms by (rule loads_iff)

lemma goodFile_loads:
  assumes "std_sort srt" and "getFreeOffset (memory e) + 12 \<le> length (raw (memory e))" and "4 \<le> hostLimit"
  shows "loads nl hostLimit srt goodFile e"
proof -
  have bytes: "segmentBytes goodFile codeSegment = [0xb7, 0x10, 0, 0]"
    by (simp add: segmentBytes_def) (simp add: codeSegment_def exampleFile_segments)
  have sizes: "segmentStop dataSegment = 12" "totalSize [codeSegment] = 4"
    by (simp_all add: segmentStop_def totalSize_def dataSegment_def codeSegment_def)
  show ?thesis
    using assms exampleFile_checked goodFile_decode [of nl]
    by (simp add: loads_def exampleFile_parts std_sort_single exampleFile_header(3) bytes sizes)
qed

definition smallEmulator :: "nat Emulator" where
  "smallEmulator = Emulator_init 0 64 0"

lemma smallEmulator_facts:
  "wf_arena (memory smallEmulator)" "getFreeOffset (memory smallEmulator) = 0"
  "length (raw (memory smallEmulator)) = 64" "raw (memory smallEmulator) = replicate 64 0"
  by (simp_all add: smallEmulator_def Emulator_init_def wf_arena_init)
    (simp_all add: Arena_init_def getFreeOffset_def raw_def)

lemma load_succeeds_iff_witness:
  "fst (loadElf True 1000 stableSort goodFile smallEmulator) = Inr ()"
  using load_succeeds_iff [OF exampleFile_fine std_sort_stable smallEmulator_facts(1), of True 1000]
    goodFile_loads [OF std_sort_stable, of smallEmulator 1000 True] smallEmulator_facts by simp

section \<open>What a load leaves behind\<close>

text \<open>
  C26: A load that fails throws one of the exceptions of the loader or of the decoder, and has no
  undefined behaviour (for files whose end addresses do not wrap around). It leaves the instructions
  and the handlers of the emulator as they were; the guest memory is as it was, or already holds the
  data segments, when the failure was in the code segments.
\<close>

theorem load_errors:
  assumes "fileNoWrap source" and "std_sort srt" and "wf_arena (memory e)"
    and "loadElf nl hostLimit srt source e = (Inl err, e')"
  shows "(\<forall>s. err \<noteq> UndefinedBehaviour s) \<and> (\<forall>s. err \<noteq> InvalidArgument s) \<and>
    instructions e' = instructions e \<and> customSyscallHandlers e' = customSyscallHandlers e \<and>
    (e' = e \<or> mapDataSegments (srt (dataSegments source)) source e = (Inr (), e'))"
  using assms(1-3)
  by (cases rule: loadElf_cases [where nl = nl and hostLimit = hostLimit]) (use assms(4) in auto)

lemma emptyFile_fine: "fileNoWrap []"
  by (simp add: fileNoWrap_def acceptedHeader_def)

lemma load_errors_witness:
  "loadElf True 1000 stableSort [] smallEmulator = (Inl (RuntimeError ''ELF file too small''), smallEmulator) \<and>
   instructions smallEmulator = instructions smallEmulator"
proof -
  have load: "loadElf True 1000 stableSort [] smallEmulator =
      (Inl (RuntimeError ''ELF file too small''), smallEmulator)"
    by (simp add: loadElf_def elfSegments_def ElfHeader_read_def elfHeaderSize_def)
  show ?thesis
    using load load_errors [OF emptyFile_fine std_sort_stable smallEmulator_facts(1) load] by simp
qed

text \<open>
  C27: After a successful load of a file with data segments (whose end addresses do not wrap around:
  \<open>fileNoWrap\<close>), each of them is in guest memory at its address (relative to the first free byte, where it was before the load), every byte between and
  behind the file contents, up to the end of the last segment, is zero, and every other byte of the
  memory is unchanged.
\<close>

theorem loaded_memory:
  assumes "fileNoWrap source" and "std_sort srt" and "wf_arena (memory e)"
    and "loadElf nl hostLimit srt source e = (Inr (), e')" and "dataSegments source \<noteq> []"
    and "p = getFreeOffset (memory e)" and "stop = p + segmentStop (last (srt (dataSegments source)))"
  shows "length (raw (memory e')) = length (raw (memory e)) \<and> stop \<le> length (raw (memory e)) \<and>
    (\<forall>h \<in> set (dataSegments source). p + segmentStop h \<le> stop \<and>
       slice_of (p + segmentStart h) (unat (sourceSize h)) (raw (memory e')) = segmentBytes source h) \<and>
    (\<forall>k. p \<le> k \<and> k < stop \<and> (\<forall>h \<in> set (dataSegments source). \<not> covers p h k) \<longrightarrow>
       raw (memory e') ! k = 0) \<and>
    (\<forall>k < length (raw (memory e)). k < p \<or> stop \<le> k \<longrightarrow> raw (memory e') ! k = raw (memory e) ! k)"
  using assms(1-3)
proof (cases rule: loadElf_cases [where nl = nl and hostLimit = hostLimit])
  case (loaded a instrs)
  let ?D = "srt (dataSegments source)"
  have eq: "memory e' = memory (e\<lparr>memory := a\<rparr>)" using loaded(1) assms(4) by simp
  have set: "set ?D = set (dataSegments source)" by (rule sort_set [OF assms(2)])
  then have ne: "?D \<noteq> []" using assms(5) by auto
  have last: "segmentStop h \<le> segmentStop (last ?D)" if "h \<in> set (dataSegments source)" for h
    using loaded(2) that by (intro separated_last) (simp_all add: goodData_def set)
  show ?thesis
    by (rule mapDataSegments_memory [OF assms(3) loaded(2) ne loaded(5)])
      (use last in \<open>simp add: eq set assms(6,7)\<close>)
qed (use assms(4) in simp_all)

lemma goodFile_load:
  obtains e' where "loadElf True 1000 stableSort goodFile smallEmulator = (Inr (), e')"
proof -
  have "fst (loadElf True 1000 stableSort goodFile smallEmulator) = Inr ()"
    using loads_iff [OF exampleFile_fine std_sort_stable smallEmulator_facts(1), of True 1000]
      goodFile_loads [OF std_sort_stable, of smallEmulator 1000 True] smallEmulator_facts by simp
  then show thesis using that by (metis prod.collapse)
qed

lemma loaded_memory_witness:
  "\<exists>e'. loadElf True 1000 stableSort goodFile smallEmulator = (Inr (), e') \<and>
     slice_of 8 2 (raw (memory e')) = [0xAA, 0xBB] \<and> raw (memory e') ! 10 = 0"
proof -
  obtain e' where load: "loadElf True 1000 stableSort goodFile smallEmulator = (Inr (), e')"
    by (rule goodFile_load)
  have bytes: "segmentBytes goodFile dataSegment = [0xAA, 0xBB]"
    by (simp add: segmentBytes_def) (simp add: dataSegment_def exampleFile_segments)
  have covers: "\<not> covers 0 dataSegment 10" and start: "segmentStart dataSegment = 8"
    and size: "unat (sourceSize dataSegment) = 2" and stop: "segmentStop dataSegment = 12"
    by (simp_all add: covers_def segmentStart_def segmentStop_def dataSegment_def)
  have last: "stableSort (dataSegments goodFile) = [dataSegment]"
    using std_sort_single [OF std_sort_stable] by (simp add: exampleFile_parts)
  have "slice_of (0 + segmentStart dataSegment) (unat (sourceSize dataSegment)) (raw (memory e')) =
      segmentBytes goodFile dataSegment \<and> raw (memory e') ! 10 = 0"
    using loaded_memory [OF exampleFile_fine std_sort_stable smallEmulator_facts(1) load, of 0 12]
      covers last stop by (auto simp: exampleFile_parts smallEmulator_facts)
  then show ?thesis using load bytes start size by auto
qed

text \<open>
  C28: After a successful load of a file whose end addresses do not wrap around (\<open>fileNoWrap\<close>), the
  instructions are the decoding of a code image that holds every code segment at its address and
  nothing else; the emulator can run them safely; and handlers and start time are unchanged.
\<close>

theorem loaded_program:
  assumes "fileNoWrap source" and "std_sort srt" and "wf_arena (memory e)"
    and "loadElf nl hostLimit srt source e = (Inr (), e')"
  shows "(\<exists>image. length image = totalSize (codeSegments source) \<and>
      (\<forall>h \<in> set (codeSegments source).
         slice_of (segmentStart h) (unat (sourceSize h)) image = segmentBytes source h) \<and>
      decodeInstructions nl image = Inr (instructions e')) \<and>
    4 * length (instructions e') = totalSize (codeSegments source) \<and> wf_program (instructions e') \<and>
    customSyscallHandlers e' = customSyscallHandlers e \<and> startTime e' = startTime e"
  using assms(1-3)
proof (cases rule: loadElf_cases [where nl = nl and hostLimit = hostLimit])
  case (loaded a instrs)
  let ?C = "srt (codeSegments source)"
  let ?image = "concat (map (segmentBytes source) ?C)"
  have eq: "e' = e\<lparr>memory := a, instructions := instrs\<rparr>" using loaded(1) assms(4) by simp
  have total: "totalSize ?C = totalSize (codeSegments source)"
    by (rule totalSize_sort [OF assms(2)])
  have len: "length ?image = totalSize ?C" by (rule length_codeBytes [OF loaded(3)])
  have "\<forall>h \<in> set (codeSegments source).
      slice_of (segmentStart h) (unat (sourceSize h)) ?image = segmentBytes source h"
    using codeBytes_slices [OF loaded(3)] sort_set [OF assms(2)] by simp
  moreover have "wf_program instrs" "length ?image = 4 * length instrs"
    using decoded_wf_program [OF loaded(6)] len loaded(7) by simp_all
  ultimately show ?thesis using loaded(6) len total by (auto simp: eq)
qed (use assms(4) in simp_all)

lemma loaded_program_witness:
  "\<exists>e'. loadElf True 1000 stableSort goodFile smallEmulator = (Inr (), e') \<and>
     4 * length (instructions e') = 4 \<and> wf_program (instructions e')"
proof -
  obtain e' where load: "loadElf True 1000 stableSort goodFile smallEmulator = (Inr (), e')"
    by (rule goodFile_load)
  have "totalSize (codeSegments goodFile) = 4"
    by (simp add: exampleFile_parts totalSize_def) (simp add: codeSegment_def)
  then show ?thesis
    using load loaded_program [OF exampleFile_fine std_sort_stable smallEmulator_facts(1) load] by auto
qed

section \<open>Independence of the host\<close>

text \<open>
  C29: The host does not show. Whatever the endianness of the host, and in whatever order its
  \<^verbatim>\<open>std::sort\<close> leaves segments with equal addresses, a file whose end addresses do not wrap around
  (\<open>fileNoWrap\<close>) loads with the same result into the same emulator.
\<close>

theorem load_host_independent:
  assumes "fileNoWrap source" and "std_sort srt" and "std_sort srt'"
  shows "loadElf nl' hostLimit srt' source e = loadElf nl hostLimit srt source e"
  using loadElf_sort [OF assms] loadElf_endianness by metis

definition reverseSort :: "SegmentHeader list \<Rightarrow> SegmentHeader list" where
  "reverseSort hs = sort_key destinationStart (rev hs)"

lemma load_host_independent_witness:
  "loadElf False 1000 reverseSort goodFile smallEmulator = loadElf True 1000 stableSort goodFile smallEmulator"
proof -
  have "std_sort reverseSort" by (simp add: std_sort_def reverseSort_def)
  then show ?thesis by (rule load_host_independent [OF exampleFile_fine std_sort_stable])
qed

section \<open>Addresses that wrap around\<close>

text \<open>
  C30: The check of the program header table can be passed with a table that is not in the file: the
  file \<open>wrapFile\<close> has 64 bytes and a table offset of \<open>2 ^ 64 - 56\<close>, its header is accepted, and the
  first read of a segment header is outside of the file. So the other properties need their hypothesis on end addresses.
\<close>

theorem wrapped_table_read:
  "length wrapFile = 64 \<and> unat (programHeaderOffset (headerFields wrapFile)) = 2 ^ 64 - 56 \<and>
   (\<exists>h. ElfHeader_read nl wrapFile = Inr h) \<and>
   fst (loadElf nl hostLimit srt wrapFile e) = Inl (UndefinedBehaviour ''out-of-bounds read'')"
  using loadElf_wrapFile ElfHeader_read_accepts wrapFile_header by simp

text \<open>
  C31: The checks of the data segments can be passed by a segment whose copy leaves guest memory: the
  sixteen bytes at address \<open>2 ^ 64 - 8\<close> of \<open>wrapSegment\<close> seem to end at address eight, eight bytes are
  allocated, and the copy writes outside of the storage.
\<close>

theorem wrapped_segment_write:
  assumes "wf_arena (memory e)" and "8 \<le> freeSpace (memory e)" and "16 \<le> length source"
  shows "validateDataHeaders [wrapSegment] = Inr () \<and> isData wrapSegment \<and>
    unat (sourceEnd wrapSegment) \<le> length source \<and>
    fst (mapDataSegments [wrapSegment] source e) = Inl (UndefinedBehaviour ''out-of-bounds write'')"
  using assms by (rule mapDataSegments_wrapSegment)

lemma wrapped_segment_write_witness:
  "fst (mapDataSegments [wrapSegment] (replicate 16 0) smallEmulator) =
     Inl (UndefinedBehaviour ''out-of-bounds write'')"
proof -
  have "8 \<le> freeSpace (memory smallEmulator)"
    by (simp add: smallEmulator_def Emulator_init_def Arena_init_def)
  then show ?thesis
    using wrapped_segment_write [OF smallEmulator_facts(1), of "replicate 16 0"] by simp
qed

end
