(* ===== verification/Frontend.thy ===== *)
theory Frontend
  imports Prelude
begin

text \<open>
  The parts around the emulator that talk to third-party libraries: the command line,
  \<^verbatim>\<open>src/src/options.cpp\<close>, and the window, \<^verbatim>\<open>src/src/renderer.cpp\<close>.

  argparse is a parameter: the function that gives the program path, the two numbers of the
  framebuffer size and the memory size, or what the parser throws. SDL is seen through the sequence
  of calls that the program makes; whether the three handle-creating calls succeed is a parameter.
\<close>

section \<open>Options\<close>

record Options =
  programPath :: string
  framebufferWidth :: u32
  framebufferHeight :: u32
  memorySize :: u64

type_synonym arguments = "string list"
type_synonym parsed_arguments = "string \<times> i32 list \<times> u64"

text \<open>Indexing a vector out of range is undefined.\<close>

definition elementAt :: "'a list \<Rightarrow> nat \<Rightarrow> 'a result" where
  "elementAt xs i = (if i < length xs then Inr (xs ! i) else Inl (UndefinedBehaviour ''vector index''))"

definition Options_parse :: "(arguments \<Rightarrow> parsed_arguments result) \<Rightarrow> arguments \<Rightarrow> Options result" where
  "Options_parse parse_args args =
     bind_result (parse_args args) (\<lambda>(path, framebufferSize, memorySizeKiB).
     bind_result (throw_if (memorySizeKiB = 0) (RuntimeError ''memory size must be non-zero'')) (\<lambda>_.
     bind_result (elementAt framebufferSize 0) (\<lambda>w.
     bind_result (throw_if (sint w \<le> 0) (RuntimeError ''framebuffer size must be positive'')) (\<lambda>_.
     bind_result (elementAt framebufferSize 1) (\<lambda>h.
     bind_result (throw_if (sint h \<le> 0) (RuntimeError ''framebuffer size must be positive'')) (\<lambda>_.
     Inr \<lparr>programPath = path, framebufferWidth = w, framebufferHeight = h,
       memorySize = memorySizeKiB * 1024\<rparr>))))))"

definition wf_options :: "Options \<Rightarrow> bool" where
  "wf_options opts \<longleftrightarrow> 0 < unat (framebufferWidth opts) \<and> unat (framebufferWidth opts) < 2 ^ 31 \<and>
     0 < unat (framebufferHeight opts) \<and> unat (framebufferHeight opts) < 2 ^ 31"

lemma signed_mod_32:
  fixes u :: int
  assumes "0 \<le> u" and "u < 2 ^ 32"
  shows "(u + 2 ^ 31) mod 2 ^ 32 - 2 ^ 31 = (if u < 2 ^ 31 then u else u - 2 ^ 32)"
proof (cases "u < 2 ^ 31")
  case True
  then have "(u + 2 ^ 31) mod 2 ^ 32 = u + 2 ^ 31" using assms by (intro mod_pos_pos_trivial) simp_all
  then show ?thesis using True by simp
next
  case False
  have "(u + 2 ^ 31) mod 2 ^ 32 = (u - 2 ^ 31 + 2 ^ 32) mod 2 ^ 32" by (simp add: add.commute)
  also have "\<dots> = (u - 2 ^ 31) mod 2 ^ 32" by (rule mod_add_self2)
  also have "\<dots> = u - 2 ^ 31" using False assms by (intro mod_pos_pos_trivial) simp_all
  finally show ?thesis using False by simp
qed

lemma sint_i32:
  "sint w = (if uint w < 2 ^ 31 then uint w else uint w - 2 ^ 32)" for w :: i32
proof -
  have "sint w = (uint w + 2 ^ 31) mod 2 ^ 32 - 2 ^ 31"
    by (simp add: sint_uint signed_take_bit_eq_take_bit_shift take_bit_eq_mod)
  also have "\<dots> = (if uint w < 2 ^ 31 then uint w else uint w - 2 ^ 32)"
    using uint_lt2p [of w] by (intro signed_mod_32) simp_all
  finally show ?thesis .
qed

lemma unat_uint_less: "unat w < n \<longleftrightarrow> uint w < int n" "0 < unat w \<longleftrightarrow> 0 < uint w"
proof -
  have u: "uint w = int (unat w)" by simp
  show "unat w < n \<longleftrightarrow> uint w < int n" "0 < unat w \<longleftrightarrow> 0 < uint w"
    unfolding u by (simp_all only: of_nat_less_iff of_nat_0_less_iff)
qed

lemma positive_i32: "0 < sint w \<longleftrightarrow> 0 < unat w \<and> unat w < 2 ^ 31" for w :: i32
proof -
  have "uint w < 2 ^ 32" using uint_lt2p [of w] by simp
  then show ?thesis unfolding unat_uint_less sint_i32 by auto
qed

section \<open>The renderer\<close>

text \<open>
  The calls of the program into SDL, with the arguments that the program computes. The pixel
  pointer of \<open>UpdateTexture\<close> is the span that the application passes (offset and item count).
\<close>

datatype SdlCall =
    CreateWindow string i32 i32
  | SetWindowMinimumSize i32 i32
  | CreateRenderer
  | SetRenderVSync
  | CreateTexture i32 i32
  | SetTextureScaleMode
  | SetRenderDrawColor u8 u8 u8 u8
  | RenderClear
  | UpdateTexture "nat \<times> nat" i32
  | RenderTexture
  | RenderPresent
  | DestroyTexture
  | DestroyRenderer
  | DestroyWindow

record Renderer =
  rendererWidth :: u32
  rendererHeight :: u32

text \<open>
  The constructor. An exception leaves it before the object exists, so no destructor runs: the calls
  made so far are all there is.
\<close>

definition Renderer_construct ::
    "bool \<Rightarrow> bool \<Rightarrow> bool \<Rightarrow> string \<Rightarrow> u32 \<Rightarrow> u32 \<Rightarrow> Renderer result \<times> SdlCall list" where
  "Renderer_construct windowOk rendererOk textureOk title w h =
     (let calls = [CreateWindow title w h] in
      if \<not> windowOk then (Inl (RuntimeError ''failed to create SDL window''), calls)
      else let calls = calls @ [SetWindowMinimumSize w h, CreateRenderer, SetRenderVSync] in
      if \<not> rendererOk then (Inl (RuntimeError ''failed to create SDL renderer''), calls)
      else let calls = calls @ [CreateTexture w h] in
      if \<not> textureOk then (Inl (RuntimeError ''failed to create SDL texture''), calls)
      else (Inr \<lparr>rendererWidth = w, rendererHeight = h\<rparr>, calls @ [SetTextureScaleMode]))"

definition Renderer_destroy :: "Renderer \<Rightarrow> SdlCall list" where
  "Renderer_destroy r = [DestroyTexture, DestroyRenderer, DestroyWindow]"

definition presentEmptyFrame :: "Renderer \<Rightarrow> SdlCall list" where
  "presentEmptyFrame r = [SetRenderDrawColor 0 0 0 0xff, RenderClear, RenderPresent]"

text \<open>\<^verbatim>\<open>framebufferWidth * sizeof(Pixel)\<close> is a 64-bit product, cut to 32 bits by the cast to \<open>int\<close>.\<close>

definition framebufferPitch :: "Renderer \<Rightarrow> i32" where
  "framebufferPitch r = ucast ((ucast (rendererWidth r) :: u64) * 4)"

definition presentFramebuffer :: "nat \<times> nat \<Rightarrow> Renderer \<Rightarrow> SdlCall list" where
  "presentFramebuffer framebuffer r =
     [UpdateTexture framebuffer (framebufferPitch r),
      SetRenderDrawColor 0 0 0 0xff, RenderClear, RenderTexture, RenderPresent]"

text \<open>How many windows a trace of calls leaves open, given whether the creating calls succeed.\<close>

definition openWindows :: "bool \<Rightarrow> SdlCall list \<Rightarrow> int" where
  "openWindows windowOk calls =
     (if windowOk
      then int (length (filter (\<lambda>c. case c of CreateWindow _ _ _ \<Rightarrow> True | _ \<Rightarrow> False) calls)) else 0)
     - int (length (filter (\<lambda>c. c = DestroyWindow) calls))"

section \<open>Properties of the options and the renderer\<close>

lemma Options_parse_wf:
  "Options_parse parse_args args = Inr opts \<Longrightarrow> wf_options opts"
  by (auto simp: Options_parse_def bind_result_Inr_iff wf_options_def elementAt_def linorder_not_le
      positive_i32 split: if_splits)

text \<open>With the two numbers that \<^verbatim>\<open>nargs(2)\<close> promises, no vector access is out of range.\<close>

lemma Options_parse_pair:
  assumes "parse_args args = Inr (path, [w, h], kib)"
  shows "Options_parse parse_args args =
    (if kib = 0 then Inl (RuntimeError ''memory size must be non-zero'')
     else if sint w \<le> 0 \<or> sint h \<le> 0 then Inl (RuntimeError ''framebuffer size must be positive'')
     else Inr \<lparr>programPath = path, framebufferWidth = w, framebufferHeight = h,
       memorySize = kib * 1024\<rparr>)"
  using assms
  by (cases "sint w \<le> 0"; cases "sint h \<le> 0") (simp_all add: Options_parse_def elementAt_def)

lemma memory_zero_iff: "kib * 1024 = 0 \<longleftrightarrow> 2 ^ 54 dvd unat kib" for kib :: u64
proof -
  have "kib * 1024 = 0 \<longleftrightarrow> unat (kib * 1024) = 0" by (simp add: unat_eq_zero)
  also have "\<dots> \<longleftrightarrow> (2 :: nat) ^ 54 * 1024 dvd unat kib * 1024"
    by (simp add: unat_word_ariths mod_eq_0_iff_dvd)
  also have "\<dots> \<longleftrightarrow> 2 ^ 54 dvd unat kib" by (rule dvd_times_right_cancel_iff) simp
  finally show ?thesis .
qed

lemma pitch_exact:
  assumes "unat (rendererWidth r) < 2 ^ 29"
  shows "unat (framebufferPitch r) = 4 * unat (rendererWidth r)"
    and "sint (framebufferPitch r) = 4 * int (unat (rendererWidth r))"
proof -
  have "unat (rendererWidth r) < 2 ^ 64" using unat_less_exp [of 32 "rendererWidth r"] by simp
  then have w: "unat (ucast (rendererWidth r) :: u64) = unat (rendererWidth r)"
    by (simp add: unsigned_ucast_eq take_bit_nat_eq_self)
  show p: "unat (framebufferPitch r) = 4 * unat (rendererWidth r)"
    using assms by (simp add: framebufferPitch_def unsigned_ucast_eq unat_word_ariths w take_bit_nat_eq_self)
  show "sint (framebufferPitch r) = 4 * int (unat (rendererWidth r))"
  proof -
    have "int (unat (framebufferPitch r)) = int (4 * unat (rendererWidth r))" using p by (rule arg_cong)
    then have "uint (framebufferPitch r) = 4 * uint (rendererWidth r)"
      by (simp only: of_nat_mult of_nat_numeral of_nat_unat)
    moreover have "uint (rendererWidth r) < 2 ^ 29" using assms unfolding unat_uint_less by simp
    ultimately show ?thesis by (simp add: sint_i32 of_nat_unat)
  qed
qed

end
