(* ===== verification/App.thy ===== *)
theory App
  imports ElfLoad Frontend
begin

text \<open>
  The application, \<^verbatim>\<open>src/src/app.cpp\<close>: construction from the command line, one frame (\<open>tick\<close>), and
  the buffer of key events. The record \<open>Host\<close> collects what the outside world decides: the
  argument parser, the file system, the sizes and addresses of host allocations, the clock, the
  success of the SDL calls and the value of SDL's constant for an unknown key.
\<close>

record Host =
  parseArguments :: "arguments \<Rightarrow> parsed_arguments result"
  littleEndian :: bool
  vectorLimit :: nat
  storageAddress :: nat
  sortHeaders :: "SegmentHeader list \<Rightarrow> SegmentHeader list"
  openFile :: "string \<Rightarrow> u8 list option"
  clockNow :: int
  windowOk :: bool
  rendererOk :: bool
  textureOk :: bool
  sdlkUnknown :: u32

text \<open>The system calls that the application declares; the sources register no handler for them yet.\<close>

datatype CustomSyscall = Random | GetFramebuffer | PresentFrame | ReadKey | SpawnThread | JoinThread
  | ExitThread

primrec customNumber :: "CustomSyscall \<Rightarrow> u64" where
  "customNumber Random = builtinNumber MaxBuiltin + 1"
| "customNumber GetFramebuffer = builtinNumber MaxBuiltin + 2"
| "customNumber PresentFrame = builtinNumber MaxBuiltin + 3"
| "customNumber ReadKey = builtinNumber MaxBuiltin + 4"
| "customNumber SpawnThread = builtinNumber MaxBuiltin + 5"
| "customNumber JoinThread = builtinNumber MaxBuiltin + 6"
| "customNumber ExitThread = builtinNumber MaxBuiltin + 7"

definition readProgramFile :: "Host \<Rightarrow> string \<Rightarrow> u8 list result" where
  "readProgramFile host path = (case openFile host path of
     None \<Rightarrow> Inl (RuntimeError ''failed to open program file'') | Some bytes \<Rightarrow> Inr bytes)"

record 'h App =
  options :: Options
  emulator :: "'h Emulator"
  mainThread :: Thread
  renderer :: Renderer
  framebuffer :: "nat \<times> nat"
  keyEvents :: "i32 list"

text \<open>\<^verbatim>\<open>allocate<Renderer::Pixel[]>\<close>: four bytes, aligned to four.\<close>

definition allocatePixels :: "nat \<Rightarrow> Arena \<Rightarrow> (nat \<times> nat) result \<times> nat list \<times> Arena" where
  "allocatePixels n = allocateArray 4 4 (zeroItem 4) n"

definition framebufferItems :: "Options \<Rightarrow> nat" where
  "framebufferItems opts =
     unat ((ucast (framebufferWidth opts) :: u64) * ucast (framebufferHeight opts))"

text \<open>The body of the constructor, after the members are initialised.\<close>

definition App_body :: "Host \<Rightarrow> 'h App \<Rightarrow> 'h App result" where
  "App_body host app =
     bind_result (readProgramFile host (programPath (options app))) (\<lambda>programData.
     case loadElf (littleEndian host) (vectorLimit host) (sortHeaders host) programData (emulator app) of
       (Inl err, _) \<Rightarrow> Inl err
     | (Inr _, loaded) \<Rightarrow>
         (case allocatePixels (framebufferItems (options app)) (memory loaded) of
            (Inl err, _, _) \<Rightarrow>
              Inl (if err = BadAlloc
                   then RuntimeError ''not enough emulator memory to allocate framebuffer'' else err)
          | (Inr span, _, arena) \<Rightarrow>
              Inr (app\<lparr>emulator := loaded\<lparr>memory := arena\<rparr>, framebuffer := span\<rparr>)))"

definition App_construct :: "Host \<Rightarrow> arguments \<Rightarrow> 'h App result \<times> SdlCall list" where
  "App_construct host args =
     (case bind_result (Options_parse (parseArguments host) args) (\<lambda>opts.
           bind_result (newVector (vectorLimit host) (unat (memorySize opts))) (\<lambda>_. Inr opts)) of
        Inl err \<Rightarrow> (Inl err, [])
      | Inr opts \<Rightarrow>
          let emu = Emulator_init (storageAddress host) (unat (memorySize opts)) (clockNow host) in
          (case Renderer_construct (windowOk host) (rendererOk host) (textureOk host)
                  ''RISC-V Emulator'' (framebufferWidth opts) (framebufferHeight opts) of
             (Inl err, calls) \<Rightarrow> (Inl err, calls)
           | (Inr rend, calls) \<Rightarrow>
               (case App_body host \<lparr>options = opts, emulator = emu, mainThread = Thread_init,
                       renderer = rend, framebuffer = (0, 0), keyEvents = []\<rparr> of
                  Inl err \<Rightarrow> (Inl err, calls @ Renderer_destroy rend)
                | Inr app \<Rightarrow> (Inr app, calls @ presentEmptyFrame (renderer app)))))"

text \<open>One frame. \<open>None\<close> is a frame that never ends, because the guest never leaves its code.\<close>

definition tick :: "'h App \<Rightarrow> (unit result \<times> 'h App \<times> SdlCall list) option" where
  "tick app =
     (case run (mainThread app) (emulator app) of
        None \<Rightarrow> None
      | Some (Threw err t) \<Rightarrow> Some (Inl err, app\<lparr>mainThread := t\<rparr>, [])
      | Some (Returned t) \<Rightarrow>
          Some (Inr (), app\<lparr>mainThread := t\<rparr>, presentFramebuffer (framebuffer app) (renderer app)))"

text \<open>
  A key code is unsigned; the negation is in \<open>int32_t\<close>, where the least value has none. Idealisation:
  \<^verbatim>\<open>push_back\<close> always finds memory (its \<^verbatim>\<open>std::bad_alloc\<close>, which no handler would catch here, is not
  modelled).
\<close>

definition handleKey :: "Host \<Rightarrow> u32 \<Rightarrow> bool \<Rightarrow> 'h App \<Rightarrow> 'h App result" where
  "handleKey host keyCode isKeyDown app =
     (if keyCode = sdlkUnknown host then Inr app
      else if isKeyDown then Inr (app\<lparr>keyEvents := keyEvents app @ [keyCode]\<rparr>)
      else if keyCode = 0x80000000 then Inl (UndefinedBehaviour ''negation overflows'')
      else Inr (app\<lparr>keyEvents := keyEvents app @ [- keyCode]\<rparr>))"

section \<open>The invariant of a constructed application\<close>

definition wf_app :: "'h App \<Rightarrow> bool" where
  "wf_app app \<longleftrightarrow> wf_options (options app) \<and> wf_arena (memory (emulator app)) \<and>
     wf_program (instructions (emulator app)) \<and> wf_thread (mainThread app) \<and>
     rendererWidth (renderer app) = framebufferWidth (options app) \<and>
     rendererHeight (renderer app) = framebufferHeight (options app) \<and>
     snd (framebuffer app) = unat (framebufferWidth (options app)) * unat (framebufferHeight (options app)) \<and>
     fst (framebuffer app) + 4 * snd (framebuffer app) \<le> length (raw (memory (emulator app)))"

text \<open>The pixel count is exact, and the byte count of the array fits in 64 bits.\<close>

lemma pixel_bounds:
  fixes w h :: nat
  assumes "w < 2 ^ 31" and "h < 2 ^ 31"
  shows "4 * (w * h) < 2 ^ 64"
proof -
  have "w * h \<le> (2 ^ 31 - 1) * (2 ^ 31 - 1)" using assms by (intro mult_mono) simp_all
  then show ?thesis by (simp add: mult.commute)
qed

lemma framebufferItems_exact:
  assumes "wf_options opts"
  shows "framebufferItems opts = unat (framebufferWidth opts) * unat (framebufferHeight opts)"
    and "4 * framebufferItems opts < 2 ^ 64"
proof -
  have w: "unat (ucast v :: u64) = unat v" for v :: u32
  proof -
    have "unat v < 2 ^ 64" using unat_less_exp [of 32 v] by simp
    then show ?thesis by (simp add: unsigned_ucast_eq take_bit_nat_eq_self)
  qed
  have b: "4 * (unat (framebufferWidth opts) * unat (framebufferHeight opts)) < 2 ^ 64"
    using assms by (intro pixel_bounds) (simp_all add: wf_options_def)
  then show "framebufferItems opts = unat (framebufferWidth opts) * unat (framebufferHeight opts)"
    by (simp add: framebufferItems_def unat_word_ariths w mult.commute)
  then show "4 * framebufferItems opts < 2 ^ 64" using b by simp
qed

section \<open>Construction\<close>

definition safeHost :: "Host \<Rightarrow> bool" where
  "safeHost host \<longleftrightarrow> std_sort (sortHeaders host) \<and>
     (\<forall>path bytes. openFile host path = Some bytes \<longrightarrow> fileNoWrap bytes) \<and>
     (\<forall>args path fb kib. parseArguments host args = Inr (path, fb, kib) \<longrightarrow> length fb = 2) \<and>
     (\<forall>args err. parseArguments host args = Inl err \<longrightarrow> loaderError err)"

text \<open>The parts of a successful construction.\<close>

lemma App_construct_Inr:
  assumes "App_construct host args = (Inr app, calls)"
  obtains opts bytes loaded arena where
    "Options_parse (parseArguments host) args = Inr opts"
    "openFile host (programPath opts) = Some bytes"
    "loadElf (littleEndian host) (vectorLimit host) (sortHeaders host) bytes
       (Emulator_init (storageAddress host) (unat (memorySize opts)) (clockNow host)) = (Inr (), loaded)"
    "allocatePixels (framebufferItems opts) (memory loaded) = (Inr (framebuffer app), [], arena)"
    "app = \<lparr>options = opts, emulator = loaded\<lparr>memory := arena\<rparr>, mainThread = Thread_init,
       renderer = \<lparr>rendererWidth = framebufferWidth opts, rendererHeight = framebufferHeight opts\<rparr>,
       framebuffer = framebuffer app, keyEvents = []\<rparr>"
proof -
  obtain opts where opts: "Options_parse (parseArguments host) args = Inr opts"
    using assms by (cases "Options_parse (parseArguments host) args") (auto simp: App_construct_def)
  let ?emu = "Emulator_init (storageAddress host) (unat (memorySize opts)) (clockNow host) :: 'a Emulator"
  obtain rend cs where rend: "Renderer_construct (windowOk host) (rendererOk host) (textureOk host)
      ''RISC-V Emulator'' (framebufferWidth opts) (framebufferHeight opts) = (Inr rend, cs)"
    and body: "App_body host \<lparr>options = opts, emulator = ?emu, mainThread = Thread_init, renderer = rend,
      framebuffer = (0, 0), keyEvents = []\<rparr> = Inr app"
    using assms
    by (auto simp: App_construct_def opts Let_def newVector_def split: sum.splits prod.splits if_splits)
  have rend': "rend = \<lparr>rendererWidth = framebufferWidth opts, rendererHeight = framebufferHeight opts\<rparr>"
    using rend by (auto simp: Renderer_construct_def Let_def split: if_splits)
  obtain bytes where bytes: "openFile host (programPath opts) = Some bytes"
    using body by (auto simp: App_body_def readProgramFile_def bind_result_Inr_iff split: option.splits)
  obtain u loaded where load: "loadElf (littleEndian host) (vectorLimit host) (sortHeaders host) bytes ?emu
      = (Inr u, loaded)"
    using body by (auto simp: App_body_def readProgramFile_def bytes split: sum.splits prod.splits)
  obtain sp d arena where px: "allocatePixels (framebufferItems opts) (memory loaded) = (Inr sp, d, arena)"
    and app: "app = \<lparr>options = opts, emulator = loaded\<lparr>memory := arena\<rparr>, mainThread = Thread_init,
      renderer = rend, framebuffer = sp, keyEvents = []\<rparr>"
    using body by (auto simp: App_body_def readProgramFile_def bytes load split: sum.splits prod.splits)
  have "d = []" using px by (auto simp: allocatePixels_def allocateArray_def split: sum.splits prod.splits)
  then show thesis using that opts bytes load px app rend' by simp
qed

lemma Emulator_init_wf: "wf_arena (memory (Emulator_init address (unat (n :: u64)) now))"
  using unat_less_exp [of 64 n] by (simp add: Emulator_init_def wf_arena_init)

lemma loadElf_Inl:
  assumes "fileNoWrap source" and "std_sort srt" and "wf_arena (memory e)"
    and "fst (loadElf nl hostLimit srt source e) = Inl err"
  shows "loaderError err"
  using assms(1-3)
  by (cases rule: loadElf_cases [where nl = nl and hostLimit = hostLimit]) (use assms(4) in auto)

lemma loadElf_wf:
  assumes "fileNoWrap source" and "std_sort srt" and wf: "wf_arena (memory e)"
    and load: "loadElf nl hostLimit srt source e = (Inr (), e')"
  shows "wf_arena (memory e') \<and> wf_program (instructions e')"
  using assms(1-3)
proof (cases rule: loadElf_cases [where nl = nl and hostLimit = hostLimit])
  case (loaded a instrs)
  let ?D = "srt (dataSegments source)"
  have eq: "e' = e\<lparr>memory := a, instructions := instrs\<rparr>" using loaded(1) load by simp
  have "wf_arena a"
  proof (cases "?D = []")
    case True
    then have "e\<lparr>memory := a\<rparr> = e" using loaded(5) by (simp add: mapDataSegments_def)
    then have "memory (e\<lparr>memory := a\<rparr>) = memory e" by (rule arg_cong)
    then show ?thesis using wf by simp
  next
    case False
    show ?thesis by (rule mapDataSegments_memory [OF wf loaded(2) False loaded(5)]) simp
  qed
  moreover have "wf_program instrs"
    using decoded_wf_program(1) [OF loaded(6)] length_codeBytes [OF loaded(3)] loaded(7) by simp
  ultimately show ?thesis by (simp add: eq)
qed (use load in simp_all)

lemma App_construct_wf_file:
  assumes srt: "std_sort (sortHeaders host)" and ok: "App_construct host args = (Inr app, calls)"
    and file_fine: "\<And>bytes. openFile host (programPath (options app)) = Some bytes \<Longrightarrow> fileNoWrap bytes"
  shows "wf_app app"
proof -
  from ok obtain opts bytes loaded arena where
    opts: "Options_parse (parseArguments host) args = Inr opts"
    and bytes: "openFile host (programPath opts) = Some bytes"
    and load: "loadElf (littleEndian host) (vectorLimit host) (sortHeaders host) bytes
       (Emulator_init (storageAddress host) (unat (memorySize opts)) (clockNow host)) = (Inr (), loaded)"
    and px: "allocatePixels (framebufferItems opts) (memory loaded) = (Inr (framebuffer app), [], arena)"
    and app: "app = \<lparr>options = opts, emulator = loaded\<lparr>memory := arena\<rparr>, mainThread = Thread_init,
       renderer = \<lparr>rendererWidth = framebufferWidth opts, rendererHeight = framebufferHeight opts\<rparr>,
       framebuffer = framebuffer app, keyEvents = []\<rparr>"
    by (rule App_construct_Inr)
  note wfo = Options_parse_wf [OF opts]
  have "options app = opts" by (subst app) simp
  then have fine: "fileNoWrap bytes" using file_fine bytes by simp
  let ?emu = "Emulator_init (storageAddress host) (unat (memorySize opts)) (clockNow host) :: 'a Emulator"
  note emu = Emulator_init_wf [of "storageAddress host" "memorySize opts" "clockNow host", where 'a = 'a]
  note loaded = loadElf_wf [OF fine srt emu load]
  obtain p n where fb: "framebuffer app = (p, n)" by (cases "framebuffer app")
  note px' = px [unfolded fb allocatePixels_def]
  note range = pixels.alloc_range [OF conjunct1 [OF loaded] framebufferItems_exact(2) [OF wfo] px']
  show ?thesis
    using wfo loaded range framebufferItems_exact(1) [OF wfo] wf_thread_init
    by (subst app) (simp add: wf_app_def fb mult.commute)
qed

lemma App_construct_wf:
  assumes "safeHost host" and "App_construct host args = (Inr app, calls)"
  shows "wf_app app"
  using assms by (intro App_construct_wf_file [of host args app calls]) (auto simp: safeHost_def)

text \<open>
  Where the framebuffer lies: at the first aligned offset behind what was free before the load, that
  is, on top of the data segments, which it clears.
\<close>

lemma framebuffer_overlaps:
  assumes wf: "wf_arena (memory e)" and D: "goodData source D" "D \<noteq> []"
    and map: "mapDataSegments D source e = (Inr (), e')"
    and px: "4 * n < 2 ^ 64" "allocatePixels n (memory e') = (Inr (q, m), d, arena)"
  shows "getFreeOffset (memory e) \<le> q" "q < getFreeOffset (memory e) + 4"
    "q \<le> k \<Longrightarrow> k < q + 4 * n \<Longrightarrow> raw arena ! k = 0"
proof -
  obtain p where p: "p = getFreeOffset (memory e)" "getFreeOffset (memory e') = p" "wf_arena (memory e')"
    by (rule mapDataSegments_memory [OF wf D map])
  note px' = px(2) [unfolded allocatePixels_def]
  show "getFreeOffset (memory e) \<le> q" "q < getFreeOffset (memory e) + 4"
    using zeroing_position(2,3) [OF p(3) _ px(1) px'] p(1,2) by simp_all
  show "q \<le> k \<Longrightarrow> k < q + 4 * n \<Longrightarrow> raw arena ! k = 0"
    using pixels.alloc_zeroed [OF p(3) px(1) px'] by (simp add: mult.commute)
qed

lemma constructed_framebuffer:
  assumes srt: "std_sort (sortHeaders host)" and ok: "App_construct host args = (Inr app, calls)"
    and bytes: "openFile host (programPath (options app)) = Some bytes" and fine: "fileNoWrap bytes"
    and ne: "dataSegments bytes \<noteq> []"
  defines "n \<equiv> unat (framebufferWidth (options app)) * unat (framebufferHeight (options app))"
  shows "fst (framebuffer app) < 4 \<and>
    fst (framebuffer app) + 4 * n \<le> length (raw (memory (emulator app))) \<and>
    (\<forall>k. fst (framebuffer app) \<le> k \<and> k < fst (framebuffer app) + 4 * n \<longrightarrow>
      raw (memory (emulator app)) ! k = 0)"
proof -
  have app_wf: "wf_app app"
    by (rule App_construct_wf_file [OF srt ok]) (use bytes fine in simp)
  from ok obtain opts bytes' loaded arena where
    opts: "Options_parse (parseArguments host) args = Inr opts"
    and bytes': "openFile host (programPath opts) = Some bytes'"
    and load: "loadElf (littleEndian host) (vectorLimit host) (sortHeaders host) bytes'
       (Emulator_init (storageAddress host) (unat (memorySize opts)) (clockNow host)) = (Inr (), loaded)"
    and px: "allocatePixels (framebufferItems opts) (memory loaded) = (Inr (framebuffer app), [], arena)"
    and app: "app = \<lparr>options = opts, emulator = loaded\<lparr>memory := arena\<rparr>, mainThread = Thread_init,
       renderer = \<lparr>rendererWidth = framebufferWidth opts, rendererHeight = framebufferHeight opts\<rparr>,
       framebuffer = framebuffer app, keyEvents = []\<rparr>"
    by (rule App_construct_Inr)
  have o: "options app = opts" and mem: "memory (emulator app) = arena"
    by (subst app, simp)+
  note wfo = Options_parse_wf [OF opts]
  have eq: "bytes' = bytes" using bytes bytes' o by simp
  let ?emu = "Emulator_init (storageAddress host) (unat (memorySize opts)) (clockNow host) :: 'a Emulator"
  let ?D = "sortHeaders host (dataSegments bytes)"
  note emu = Emulator_init_wf [of "storageAddress host" "memorySize opts" "clockNow host", where 'a = 'a]
  have ne': "?D \<noteq> []" using ne sort_set [OF srt, of "dataSegments bytes"] by auto
  obtain a where l: "memory loaded = memory (?emu\<lparr>memory := a\<rparr>)" and D: "goodData bytes ?D"
    and map: "mapDataSegments ?D bytes ?emu = (Inr (), ?emu\<lparr>memory := a\<rparr>)"
    using fine srt emu
    by (cases rule: loadElf_cases [where nl = "littleEndian host" and hostLimit = "vectorLimit host"])
      (use load eq in auto)
  obtain q m where fb: "framebuffer app = (q, m)" by (cases "framebuffer app")
  note over = framebuffer_overlaps [OF emu D ne' map framebufferItems_exact(2) [OF wfo] px [unfolded l fb]]
  have "getFreeOffset (memory ?emu) = 0"
    by (simp add: Emulator_init_def Arena_init_def getFreeOffset_def)
  moreover have "framebufferItems opts = n"
    using framebufferItems_exact(1) [OF wfo] by (simp add: n_def o)
  moreover have "q + 4 * n \<le> length (raw (memory (emulator app)))"
    using app_wf by (simp add: wf_app_def fb n_def)
  ultimately show ?thesis using over by (simp add: fb mem)
qed

text \<open>The code paths of the constructor that leave a window open.\<close>

lemma App_construct_windows:
  assumes "App_construct host args = (Inl err, calls)"
  shows "openWindows (windowOk host) calls =
    (if calls \<noteq> [] \<and> windowOk host \<and> \<not> (rendererOk host \<and> textureOk host) then 1 else 0)"
  using assms
  by (auto simp: App_construct_def Renderer_construct_def Renderer_destroy_def openWindows_def Let_def
      split: sum.splits if_splits)

section \<open>Errors of the construction\<close>

lemma Options_parse_Inl:
  assumes "\<And>path fb kib. parse_args args = Inr (path, fb, kib) \<Longrightarrow> length fb = 2"
    and "\<And>err. parse_args args = Inl err \<Longrightarrow> loaderError err"
    and "Options_parse parse_args args = Inl err"
  shows "loaderError err"
proof (cases "parse_args args")
  case (Inl e)
  then show ?thesis using assms(2,3) by (simp add: Options_parse_def)
next
  case (Inr p)
  obtain path fb kib where p: "p = (path, fb, kib)" by (cases p)
  then have "length fb = 2" using assms(1) Inr by blast
  then obtain w h where "fb = [w, h]" unfolding length_2_conv by blast
  then have "parse_args args = Inr (path, [w, h], kib)" using Inr p by simp
  from Options_parse_pair [of parse_args args, OF this] assms(3) show ?thesis by (auto split: if_splits)
qed

lemma App_body_Inl:
  assumes host: "safeHost host" and wfo: "wf_options (options app)"
    and wf: "wf_arena (memory (emulator app))" and err: "App_body host app = Inl err"
  shows "loaderError err"
proof (cases "openFile host (programPath (options app))")
  case None
  then show ?thesis using err by (auto simp: App_body_def readProgramFile_def)
next
  case (Some bytes)
  have fine: "fileNoWrap bytes" and srt: "std_sort (sortHeaders host)"
    using host Some by (auto simp: safeHost_def)
  obtain r loaded where load: "loadElf (littleEndian host) (vectorLimit host) (sortHeaders host) bytes
      (emulator app) = (r, loaded)" by fastforce
  show ?thesis
  proof (cases r)
    case (Inl e)
    then have "loaderError e" using loadElf_Inl [OF fine srt wf] load by (metis fst_conv)
    then show ?thesis using err Some load Inl by (simp add: App_body_def readProgramFile_def)
  next
    case (Inr u)
    then have l: "wf_arena (memory loaded)" using loadElf_wf [OF fine srt wf] load by simp
    obtain s d arena where px: "allocatePixels (framebufferItems (options app)) (memory loaded) = (s, d, arena)"
      by (cases "allocatePixels (framebufferItems (options app)) (memory loaded)")
    show ?thesis
    proof (cases s)
      case (Inl e)
      then have "e = BadAlloc"
        using pixels.alloc_Inl [OF l framebufferItems_exact(2) [OF wfo]] px by (simp add: allocatePixels_def)
      then show ?thesis
        using err Some load Inr px Inl by (auto simp: App_body_def readProgramFile_def)
    next
      case fb: (Inr sp)
      then show ?thesis using err Some load Inr px by (simp add: App_body_def readProgramFile_def)
    qed
  qed
qed

lemma App_construct_Inl:
  assumes host: "safeHost host" and err: "fst (App_construct host args :: 'h App result \<times> SdlCall list) = Inl err"
  shows "loaderError err"
proof (cases "Options_parse (parseArguments host) args")
  case (Inl e)
  then have "loaderError e" using Options_parse_Inl [of "parseArguments host" args e] host
    unfolding safeHost_def by blast
  then show ?thesis using err Inl by (simp add: App_construct_def)
next
  case (Inr opts)
  note wfo = Options_parse_wf [OF Inr]
  let ?emu = "Emulator_init (storageAddress host) (unat (memorySize opts)) (clockNow host) :: 'h Emulator"
  have wf: "wf_arena (memory ?emu)" by (rule Emulator_init_wf)
  show ?thesis
  proof (cases rule: newVector_cases [of "vectorLimit host" "unat (memorySize opts)"])
    case 1
    obtain r calls where rend: "Renderer_construct (windowOk host) (rendererOk host) (textureOk host)
        ''RISC-V Emulator'' (framebufferWidth opts) (framebufferHeight opts) = (r, calls)"
      by (cases "Renderer_construct (windowOk host) (rendererOk host) (textureOk host)
        ''RISC-V Emulator'' (framebufferWidth opts) (framebufferHeight opts)")
    show ?thesis
    proof (cases r)
      case (Inl e)
      then have "loaderError e" using rend by (auto simp: Renderer_construct_def Let_def split: if_splits)
      then show ?thesis using err Inr 1(1) rend Inl by (simp add: App_construct_def Let_def)
    next
      case r: (Inr rr)
      let ?app = "\<lparr>options = opts, emulator = ?emu, mainThread = Thread_init, renderer = rr,
        framebuffer = (0, 0), keyEvents = []\<rparr> :: 'h App"
      have "App_body host ?app = Inl err"
        using err Inr 1(1) rend r by (auto simp: App_construct_def Let_def split: sum.splits)
      then show ?thesis using App_body_Inl [OF host, of ?app err] wfo wf by simp
    qed
  qed (use err Inr in \<open>simp_all add: App_construct_def\<close>)
qed

section \<open>Frames and key events\<close>

lemma tick_wf:
  assumes wf: "wf_app app" and t: "tick app = Some (r, app', calls)"
  shows "wf_app app' \<and> (r = Inr () \<or> r = Inl (RuntimeError ''Unsupported instruction''))"
proof -
  obtain out where out: "run (mainThread app) (emulator app) = Some out"
    using t by (auto simp: tick_def split: option.splits)
  have "wf_program (instructions (emulator app))" "wf_thread (mainThread app)"
    using wf by (simp_all add: wf_app_def)
  then show ?thesis
    using out
  proof (rule run_outcome)
    fix u assume "wf_thread u" "out = Returned u"
    then show ?thesis using t out wf by (auto simp: tick_def wf_app_def)
  next
    fix u assume "wf_thread u"
      "out = Threw (RuntimeError ''Unsupported instruction'') (u\<lparr>cycleCounter := cycleCounter u + 1\<rparr>)"
    then show ?thesis using t out wf by (auto simp: tick_def wf_app_def)
  qed
qed

lemma handleKey_wf: "wf_app app \<Longrightarrow> handleKey host k b app = Inr app' \<Longrightarrow> wf_app app'"
  by (auto simp: handleKey_def wf_app_def split: if_splits)

lemma sint_small: "unat k < 2 ^ 31 \<Longrightarrow> sint k = int (unat k)" for k :: i32
  unfolding unat_uint_less by (simp add: sint_i32)

lemma sint_neg_small:
  fixes k :: i32
  assumes "0 < unat k" and "unat k < 2 ^ 31"
  shows "sint (- k) = - int (unat k)"
proof -
  have k: "0 < uint k" "uint k < 2 ^ 31" using assms unfolding unat_uint_less by simp_all
  then have "(- uint k) mod 2 ^ 32 = 2 ^ 32 - uint k"
    by (simp add: zmod_zminus1_eq_if)
  then have "uint (- k) = 2 ^ 32 - uint k" by (simp add: uint_word_ariths)
  with k show ?thesis by (simp add: sint_i32)
qed

end
