(* ===== verification/Lifecycle.thy ===== *)
theory Lifecycle
  imports App
begin

text \<open>
  The program as SDL runs it, \<^verbatim>\<open>src/src/main.cpp\<close>: the four callbacks over the global pointer \<open>app\<close>,
  and the order in which SDL calls them as a step relation on the phases of a process.

  A callback returns to SDL, or an exception escapes from it (the process is terminated), or its
  behaviour is undefined. \<open>catchStd\<close> is the handler \<^verbatim>\<open>catch (std::exception const&)\<close>: it does not
  match a thrown pointer.
\<close>

section \<open>Callbacks\<close>

datatype AppResult = SDL_APP_CONTINUE | SDL_APP_SUCCESS | SDL_APP_FAILURE

datatype SdlEvent = QuitEvent | KeyDownEvent u32 | KeyUpEvent u32 | OtherEvent

datatype crash = UncaughtException error | UndefinedAt string

datatype 'h callback = Result AppResult "'h App option" | Crash crash

fun isStdException :: "error \<Rightarrow> bool" where
  "isStdException (UnknownInstructionPointer c e) = False"
| "isStdException (UndefinedBehaviour s) = False"
| "isStdException _ = True"

fun escape :: "error \<Rightarrow> crash" where
  "escape (UndefinedBehaviour s) = UndefinedAt s"
| "escape err = UncaughtException err"

definition catchStd :: "error \<Rightarrow> 'h App option \<Rightarrow> 'h callback" where
  "catchStd err app = (if isStdException err then Result SDL_APP_FAILURE app else Crash (escape err))"

definition SDL_AppInit :: "Host \<Rightarrow> bool \<Rightarrow> arguments \<Rightarrow> 'h callback" where
  "SDL_AppInit host videoOk args =
     (if \<not> videoOk then Result SDL_APP_FAILURE None
      else case fst (App_construct host args) of
        Inl err \<Rightarrow> catchStd err None
      | Inr app \<Rightarrow> Result SDL_APP_CONTINUE (Some app))"

text \<open>\<open>None\<close>: the frame never ends.\<close>

definition SDL_AppIterate :: "'h App option \<Rightarrow> 'h callback option" where
  "SDL_AppIterate app = (case app of
     None \<Rightarrow> Some (Crash (UndefinedAt ''null pointer''))
   | Some a \<Rightarrow> (case tick a of
       None \<Rightarrow> None
     | Some (Inl err, a, _) \<Rightarrow> Some (catchStd err (Some a))
     | Some (Inr _, a, _) \<Rightarrow> Some (Result SDL_APP_CONTINUE (Some a))))"

definition forwardKey :: "Host \<Rightarrow> u32 \<Rightarrow> bool \<Rightarrow> 'h App option \<Rightarrow> 'h callback" where
  "forwardKey host key isDown app = (case app of
     None \<Rightarrow> Crash (UndefinedAt ''null pointer'')
   | Some a \<Rightarrow> (case handleKey host key isDown a of
       Inl err \<Rightarrow> Crash (escape err)
     | Inr a \<Rightarrow> Result SDL_APP_CONTINUE (Some a)))"

fun SDL_AppEvent :: "Host \<Rightarrow> SdlEvent \<Rightarrow> 'h App option \<Rightarrow> 'h callback" where
  "SDL_AppEvent host QuitEvent app = Result SDL_APP_SUCCESS app"
| "SDL_AppEvent host (KeyDownEvent key) app = forwardKey host key True app"
| "SDL_AppEvent host (KeyUpEvent key) app = forwardKey host key False app"
| "SDL_AppEvent host OtherEvent app = Result SDL_APP_CONTINUE app"

definition SDL_AppQuit :: "'h App option \<Rightarrow> 'h App option" where
  "SDL_AppQuit app = None"

section \<open>The order of the callbacks\<close>

text \<open>
  SDL calls \<open>SDL_AppInit\<close> once; while the callbacks return \<open>SDL_APP_CONTINUE\<close> it calls
  \<open>SDL_AppIterate\<close> and \<open>SDL_AppEvent\<close> in any order; after any other result it calls \<open>SDL_AppQuit\<close>.
\<close>

datatype 'h phase =
    Starting
  | Running "'h App option"
  | Quitting AppResult "'h App option"
  | Finished AppResult "'h App option"
  | Crashed crash

fun after :: "'h callback \<Rightarrow> 'h phase" where
  "after (Result SDL_APP_CONTINUE app) = Running app"
| "after (Result r app) = Quitting r app"
| "after (Crash c) = Crashed c"

inductive sdl_step :: "Host \<Rightarrow> 'h phase \<Rightarrow> 'h phase \<Rightarrow> bool" for host where
  init: "sdl_step host Starting (after (SDL_AppInit host videoOk args))"
| iterate: "SDL_AppIterate app = Some c \<Longrightarrow> sdl_step host (Running app) (after c)"
| event: "sdl_step host (Running app) (after (SDL_AppEvent host ev app))"
| quit: "sdl_step host (Quitting r app) (Finished r (SDL_AppQuit app))"

inductive_cases startingE: "sdl_step host Starting q"
inductive_cases runningE: "sdl_step host (Running app) q"
inductive_cases quittingE: "sdl_step host (Quitting r app) q"
inductive_simps finished_step: "sdl_step host (Finished r app) q"
inductive_simps crashed_step: "sdl_step host (Crashed c) q"

inductive sdl_reachable :: "Host \<Rightarrow> 'h phase \<Rightarrow> bool" for host where
  start: "sdl_reachable host Starting"
| step: "sdl_reachable host p \<Longrightarrow> sdl_step host p q \<Longrightarrow> sdl_reachable host q"

section \<open>The invariant of the process\<close>

text \<open>
  Between callbacks the pointer is set and the application is well-formed. A crash is one of two:
  the exception pointer of the decoder during startup, or the negation of the least key code.
\<close>

fun phase_ok :: "'h phase \<Rightarrow> bool" where
  "phase_ok Starting = True"
| "phase_ok (Running app) = (\<exists>a. app = Some a \<and> wf_app a)"
| "phase_ok (Quitting r app) = (r \<noteq> SDL_APP_CONTINUE \<and> (\<forall>a. app = Some a \<longrightarrow> wf_app a))"
| "phase_ok (Finished r app) = (r \<noteq> SDL_APP_CONTINUE \<and> app = None)"
| "phase_ok (Crashed c) =
     ((\<exists>k e. c = UncaughtException (UnknownInstructionPointer k e)) \<or> c = UndefinedAt ''negation overflows'')"

lemma after_Result:
  "phase_ok (after (Result r app)) \<longleftrightarrow>
    (if r = SDL_APP_CONTINUE then \<exists>a. app = Some a \<and> wf_app a else \<forall>a. app = Some a \<longrightarrow> wf_app a)"
  by (cases r) simp_all

lemma catchStd_ok:
  assumes "loaderError err" and "\<forall>a. app = Some a \<longrightarrow> wf_app a"
  shows "phase_ok (after (catchStd err app))"
  using assms by (cases err) (simp_all add: catchStd_def after_Result)

lemma init_ok:
  assumes "safeHost host"
  shows "phase_ok (after (SDL_AppInit host videoOk args :: 'h callback))"
proof (cases videoOk)
  case True
  obtain r calls where con: "(App_construct host args :: 'h App result \<times> SdlCall list) = (r, calls)"
    by fastforce
  show ?thesis
  proof (cases r)
    case (Inl err)
    then have "loaderError err" using App_construct_Inl [OF assms] con by (metis fst_conv)
    then show ?thesis using True con Inl by (simp add: SDL_AppInit_def catchStd_ok)
  next
    case (Inr app)
    then have "wf_app app" using App_construct_wf [OF assms] con by blast
    then show ?thesis using True con Inr by (simp add: SDL_AppInit_def after_Result)
  qed
qed (simp add: SDL_AppInit_def after_Result)

lemma iterate_ok:
  assumes "wf_app a" and "SDL_AppIterate (Some a) = Some c"
  shows "phase_ok (after c)"
proof -
  obtain r a' calls where t: "tick a = Some (r, a', calls)"
    using assms(2) by (auto simp: SDL_AppIterate_def split: option.splits)
  with tick_wf [OF assms(1)] have "wf_app a'"
    "r = Inr () \<or> r = Inl (RuntimeError ''Unsupported instruction'')" by blast+
  then show ?thesis
    using assms(2) t by (auto simp: SDL_AppIterate_def after_Result intro!: catchStd_ok)
qed

lemma handleKey_Inl: "handleKey host k b a = Inl err \<Longrightarrow> err = UndefinedBehaviour ''negation overflows''"
  by (auto simp: handleKey_def split: if_splits)

lemma forwardKey_ok:
  assumes "wf_app a"
  shows "phase_ok (after (forwardKey host k b (Some a)))"
proof (cases "handleKey host k b a")
  case (Inl err)
  with handleKey_Inl show ?thesis by (fastforce simp: forwardKey_def)
next
  case (Inr a')
  with handleKey_wf [OF assms] show ?thesis by (simp add: forwardKey_def)
qed

lemma event_ok: "wf_app a \<Longrightarrow> phase_ok (after (SDL_AppEvent host ev (Some a)))"
  by (cases ev) (simp_all add: forwardKey_ok)

lemma step_ok:
  assumes host: "safeHost host" and "sdl_step host p q" and "phase_ok p"
  shows "phase_ok q"
  using assms(2,3)
proof cases
  case (init videoOk args)
  then show ?thesis using init_ok [OF host] by simp
next
  case (iterate app c)
  then obtain a where "app = Some a" "wf_app a" using assms(3) by auto
  then show ?thesis using iterate iterate_ok by blast
next
  case (event app ev)
  then obtain a where "app = Some a" "wf_app a" using assms(3) by auto
  then show ?thesis using event event_ok by blast
next
  case (quit r app)
  then show ?thesis using assms(3) by (simp add: SDL_AppQuit_def)
qed

lemma reachable_ok:
  assumes "safeHost host" and "sdl_reachable host p"
  shows "phase_ok p"
  using assms(2)
  by induction (auto intro: step_ok [OF assms(1)])

end
