(* ===== verification/AppExample.thy ===== *)
theory AppExample
  imports LoaderProperties Lifecycle
begin

text \<open>
  A host for the application: one program file, a framebuffer of two by two pixels and one KiB of
  guest memory. The properties of the application are applied to it.
\<close>

definition exampleHost :: "u8 list \<Rightarrow> Host" where
  "exampleHost bytes = \<lparr>parseArguments = (\<lambda>args. Inr (''prog'', [2, 2], 1)), littleEndian = True,
     vectorLimit = 100000, storageAddress = 0, sortHeaders = stableSort,
     openFile = (\<lambda>path. Some bytes), clockNow = 0, windowOk = True, rendererOk = True,
     textureOk = True, sdlkUnknown = 0\<rparr>"

definition exampleOptions :: Options where
  "exampleOptions = \<lparr>programPath = ''prog'', framebufferWidth = 2, framebufferHeight = 2,
     memorySize = 1024\<rparr>"

lemma exampleHost_safe: "safeHost (exampleHost (exampleFile a b c d))"
  by (simp add: safeHost_def exampleHost_def std_sort_stable exampleFile_fine)

lemma exampleHost_options:
  "Options_parse (parseArguments (exampleHost bytes)) args = Inr exampleOptions"
  by (simp add: Options_parse_def exampleHost_def elementAt_def exampleOptions_def sint_i32)

text \<open>Opening the window always succeeds, so that the rest of the constructor decides.\<close>

definition exampleBody :: "u8 list \<Rightarrow> nat App result" where
  "exampleBody bytes = App_body (exampleHost bytes) \<lparr>options = exampleOptions,
     emulator = Emulator_init 0 1024 0, mainThread = Thread_init,
     renderer = \<lparr>rendererWidth = 2, rendererHeight = 2\<rparr>, framebuffer = (0, 0), keyEvents = []\<rparr>"

lemma exampleHost_construct:
  "fst (App_construct (exampleHost bytes) args) = exampleBody bytes"
proof -
  have vec: "newVector (vectorLimit (exampleHost bytes)) (unat (memorySize exampleOptions)) =
      Inr (replicate 1024 0)"
    by (simp add: newVector_def exampleHost_def exampleOptions_def)
  have host: "storageAddress (exampleHost bytes) = 0" "clockNow (exampleHost bytes) = 0"
    "windowOk (exampleHost bytes)" "rendererOk (exampleHost bytes)" "textureOk (exampleHost bytes)"
    by (simp_all add: exampleHost_def)
  have opts: "framebufferWidth exampleOptions = 2" "framebufferHeight exampleOptions = 2"
    "unat (memorySize exampleOptions) = 1024"
    by (simp_all add: exampleOptions_def)
  show ?thesis
    by (cases "exampleBody bytes")
      (simp_all add: App_construct_def exampleHost_options vec [unfolded opts] host opts
        Renderer_construct_def Let_def exampleBody_def)
qed

abbreviation exampleEmulator :: "nat Emulator" where
  "exampleEmulator \<equiv> Emulator_init 0 1024 0"

lemma exampleEmulator_facts:
  "wf_arena (memory exampleEmulator)" "getFreeOffset (memory exampleEmulator) = 0"
  "length (raw (memory exampleEmulator)) = 1024"
  by (simp_all add: Emulator_init_def wf_arena_init) (simp_all add: Arena_init_def getFreeOffset_def raw_def)

lemma exampleHost_load:
  "loadElf (littleEndian (exampleHost bytes)) (vectorLimit (exampleHost bytes))
     (sortHeaders (exampleHost bytes)) = loadElf True 100000 stableSort"
  by (simp add: exampleHost_def)

lemma exampleHost_framebuffer:
  assumes wf: "wf_arena a" and "getFreeOffset a = 0" and "length (raw a) = 1024"
  obtains p arena where "allocatePixels 4 a = (Inr (p, 4), [], arena)" "p < 4"
proof -
  have small: "(4 :: nat) * 4 < 2 ^ 64" by simp
  define q where "q = 3 * dataAddress a mod 4"
  have "(dataAddress a + q) mod 4 = 4 * dataAddress a mod 4"
    unfolding q_def mod_add_right_eq by simp
  then have "q < 4" "4 dvd dataAddress a + q" by (simp_all add: q_def mod_eq_0_iff_dvd)
  then have "\<exists>p a'. allocateRaw (4 * 4) 4 a = (Inr p, a') \<and> p \<le> q"
    using assms by (intro arena.alloc_fits) simp_all
  then obtain p a' where p: "allocateRaw (4 * 4) 4 a = (Inr p, a')" "p < 4"
    using \<open>q < 4\<close> by auto
  from that allocateArray_zero [OF wf _ small p(1)] p(2) show thesis
    by (simp add: allocatePixels_def)
qed

lemma goodFile_loaded:
  obtains e where "loadElf True 100000 stableSort goodFile exampleEmulator = (Inr (), e)"
    "wf_arena (memory e)" "getFreeOffset (memory e) = 0" "length (raw (memory e)) = 1024"
    "instructions e = [Instruction_init\<lparr>operand := Immediate 4096, destinationRegister := 1\<rparr>]"
proof -
  note emu = exampleEmulator_facts
  have "fst (loadElf True 100000 stableSort goodFile exampleEmulator) = Inr ()"
    using loads_iff [OF exampleFile_fine std_sort_stable emu(1), of True 100000]
      goodFile_loads [OF std_sort_stable, of exampleEmulator 100000 True] emu by simp
  then obtain e where load: "loadElf True 100000 stableSort goodFile exampleEmulator = (Inr (), e)"
    by (metis prod.collapse)
  note wf = loadElf_wf [OF exampleFile_fine std_sort_stable emu(1) load]
  obtain arena instrs where e: "e = exampleEmulator\<lparr>memory := arena, instructions := instrs\<rparr>"
    and D: "goodData goodFile (stableSort (dataSegments goodFile))"
    and map: "mapDataSegments (stableSort (dataSegments goodFile)) goodFile exampleEmulator =
      (Inr (), exampleEmulator\<lparr>memory := arena\<rparr>)"
    and code: "decodeInstructions True
      (concat (map (segmentBytes goodFile) (stableSort (codeSegments goodFile)))) = Inr instrs"
    using exampleFile_fine [of "0xb7" "0x10" 0 0] std_sort_stable emu(1)
    by (cases rule: loadElf_cases [where nl = True and hostLimit = 100000]) (use load in auto)
  note sorted = std_sort_single [OF std_sort_stable] exampleFile_parts
  have ne: "stableSort (dataSegments goodFile) \<noteq> []" by (simp add: sorted)
  have mem: "getFreeOffset (memory e) = 0 \<and> length (raw (memory e)) = 1024"
    by (rule mapDataSegments_memory [OF emu(1) D ne map]) (use emu in \<open>simp add: e\<close>)
  have bytes: "segmentBytes goodFile codeSegment = [0xb7, 0x10, 0, 0]"
    by (simp add: segmentBytes_def) (simp add: codeSegment_def exampleFile_segments)
  have "instrs = [Instruction_init\<lparr>operand := Immediate 4096, destinationRegister := 1\<rparr>]"
    using code goodFile_decode [of True] by (simp add: sorted bytes)
  then show thesis using that [OF load] wf mem by (simp add: e)
qed

lemma goodFile_app:
  obtains app where "exampleBody goodFile = Inr app" "framebuffer app = (fst (framebuffer app), 4)"
    "fst (framebuffer app) < 4" "options app = exampleOptions"
    "instructions (emulator app) = [Instruction_init\<lparr>operand := Immediate 4096, destinationRegister := 1\<rparr>]"
    "mainThread app = Thread_init" "renderer app = \<lparr>rendererWidth = 2, rendererHeight = 2\<rparr>"
    "wf_app app"
proof -
  obtain e where load: "loadElf True 100000 stableSort goodFile exampleEmulator = (Inr (), e)"
    and mem: "wf_arena (memory e)" "getFreeOffset (memory e) = 0" "length (raw (memory e)) = 1024"
    and instrs: "instructions e = [Instruction_init\<lparr>operand := Immediate 4096, destinationRegister := 1\<rparr>]"
    by (rule goodFile_loaded)
  obtain p arena' where px: "allocatePixels 4 (memory e) = (Inr (p, 4), [], arena')" "p < 4"
    by (rule exampleHost_framebuffer [OF mem])
  have items: "framebufferItems exampleOptions = 4"
    by (simp add: framebufferItems_def exampleOptions_def)
  have read: "openFile (exampleHost goodFile) (programPath exampleOptions) = Some goodFile"
    by (simp add: exampleHost_def)
  define app :: "nat App" where "app = \<lparr>options = exampleOptions, emulator = e\<lparr>memory := arena'\<rparr>,
    mainThread = Thread_init, renderer = \<lparr>rendererWidth = 2, rendererHeight = 2\<rparr>,
    framebuffer = (p, 4), keyEvents = []\<rparr>"
  have body: "exampleBody goodFile = Inr app"
    by (simp add: exampleBody_def App_body_def readProgramFile_def read exampleHost_load load items px
        app_def)
  have "wf_app app"
  proof -
    obtain calls where "App_construct (exampleHost goodFile) [] = (Inr app, calls)"
      using exampleHost_construct [of goodFile "[]"] body by (metis prod.collapse)
    then show ?thesis by (rule App_construct_wf [OF exampleHost_safe])
  qed
  with that [OF body] show thesis using px(2) instrs by (simp add: app_def)
qed

lemma goodFile_construct:
  obtains app calls where "App_construct (exampleHost goodFile) args = (Inr app, calls)"
    "exampleBody goodFile = Inr app"
proof -
  obtain app where app: "exampleBody goodFile = Inr app" by (rule goodFile_app)
  with exampleHost_construct [of goodFile args] that show thesis by (metis prod.collapse)
qed

end
