(* ===== verification/AppProperties.thy ===== *)
theory AppProperties
  imports AppExample
begin

text \<open>
  The properties of the application around the emulator: the life of the process, the framebuffer,
  the window, the keys and the command line.
\<close>

section \<open>The process\<close>

text \<open>
  C32: In every state that the process reaches under SDL's callbacks, the global pointer is set and the
  application is well-formed whenever SDL can call a frame or an event; the application is gone when
  the process has ended; and the only ways to crash are the exception pointer of the decoder and the
  release of the key with the least code. (For program files whose end addresses do not wrap around.)
\<close>

theorem process_safe:
  assumes "safeHost host" and "sdl_reachable host p"
  shows "(\<forall>app. p = Running app \<longrightarrow> (\<exists>a. app = Some a \<and> wf_app a)) \<and>
    (\<forall>r app. p = Finished r app \<longrightarrow> app = None \<and> r \<noteq> SDL_APP_CONTINUE) \<and>
    (\<forall>c. p = Crashed c \<longrightarrow> (\<exists>k e. c = UncaughtException (UnknownInstructionPointer k e)) \<or>
       c = UndefinedAt ''negation overflows'')"
  using reachable_ok [OF assms] by auto

lemma goodFile_running:
  obtains app where "sdl_reachable (exampleHost goodFile) (Running (Some app))"
    "exampleBody goodFile = Inr app"
proof -
  obtain app where app: "exampleBody goodFile = Inr app" by (rule goodFile_app)
  have "SDL_AppInit (exampleHost goodFile) True args = Result SDL_APP_CONTINUE (Some app)" for args
    by (simp add: SDL_AppInit_def exampleHost_construct app)
  then have "sdl_step (exampleHost goodFile) Starting (Running (Some app))"
    using sdl_step.init [of "exampleHost goodFile" True "[]"] by (metis after.simps(1))
  then show thesis using that app sdl_reachable.start sdl_reachable.step by blast
qed

lemma process_safe_witness:
  "\<exists>app. sdl_reachable (exampleHost goodFile) (Running (Some app :: nat App option)) \<and> wf_app app"
proof -
  obtain app where run: "sdl_reachable (exampleHost goodFile) (Running (Some app :: nat App option))"
    by (rule goodFile_running)
  then show ?thesis using process_safe [OF exampleHost_safe run] by blast
qed

text \<open>A file whose code does not decode is rejected with the error of the decoder.\<close>

lemma example_rejected:
  assumes "decodeInstructions True [a, b, c, d] = Inl err" and "err \<noteq> BadAlloc"
  shows "exampleBody (exampleFile a b c d) = Inl err"
proof -
  let ?file = "exampleFile a b c d"
  note emu = exampleEmulator_facts
  have bytes: "segmentBytes ?file codeSegment = [a, b, c, d]"
    by (simp add: segmentBytes_def) (simp add: codeSegment_def exampleFile_segments)
  have seg: "elfSegments True stableSort ?file = Inr ([dataSegment], [codeSegment])"
    using elfSegments_Inr_iff [OF exampleFile_fine [of a b c d] std_sort_stable,
        of True "[dataSegment]" "[codeSegment]"]
      std_sort_single [OF std_sort_stable] exampleFile_parts exampleFile_checked exampleFile_header(3)
    by simp
  have stop: "segmentStop dataSegment = 12" and size: "totalSize [codeSegment] = 4"
    by (simp_all add: segmentStop_def totalSize_def dataSegment_def codeSegment_def)
  obtain r e where map: "mapDataSegments [dataSegment] ?file exampleEmulator = (r, e)"
    by fastforce
  have "r = Inr ()"
    using mapDataSegments_iff [OF emu(1) exampleFile_checked(1) [of a b c d]] emu stop map by simp
  moreover have "fst (mapCodeSegments True 100000 [codeSegment] ?file e) = Inl err"
    unfolding mapCodeSegments_good [OF exampleFile_checked(2)]
    using assms(1) by (simp add: bytes size newVector_def)
  ultimately have "fst (loadElf True 100000 stableSort ?file exampleEmulator) = Inl err"
    by (simp add: loadElf_def seg map)
  moreover have "openFile (exampleHost ?file) (programPath exampleOptions) = Some ?file"
    by (simp add: exampleHost_def)
  ultimately show ?thesis
    by (cases "loadElf True 100000 stableSort ?file exampleEmulator")
      (simp add: exampleBody_def App_body_def readProgramFile_def exampleHost_load)
qed

text \<open>What the start makes of the error of the decoder, for a file with one word of code.\<close>

lemma example_start:
  assumes "decodeWord (programWord [a, b, c, d] 0) = Inl err"
  shows "(SDL_AppInit (exampleHost (exampleFile a b c d)) True args :: nat callback) = catchStd err None"
proof -
  have dec: "decodeInstructions True [a, b, c, d] = Inl err"
    using decodeInstructions_words [of "[a, b, c, d]" 1 True] assms by simp
  have "err \<noteq> BadAlloc" using decodeWord_Inl [OF assms] by auto
  from example_rejected [OF dec this] show ?thesis
    by (simp add: SDL_AppInit_def exampleHost_construct)
qed

lemma decodeWord_pointer_iff:
  "decodeWord w = Inl (UnknownInstructionPointer k v) \<longleftrightarrow>
    k = ''OP-FP'' \<and> v = w \<and> getOpcode w = 0b1010011 \<and> clearBit (getFunct7 w) 0 = 0b1110000 \<and>
    getFunct3 w \<noteq> 0 \<and> getFunct3 w \<noteq> 1"
proof -
  have "bitand w 0b11 = 0b11" if "getOpcode w = 0b1010011"
  proof -
    have b: "bit (getOpcode w) n = bit (0b1010011 :: u8) n" for n using that by simp
    have "bit w 0" "bit w 1"
      using b [of 0] b [of 1] by (simp_all add: getOpcode_def bit_ucast_iff bit_bitsAt_iff bit_numeral_rec)
    then have "bit w n" if "n < 2" for n using that by (cases n) (simp_all add: less_2_cases_iff)
    moreover have "bit (0b11 :: u32) n \<longleftrightarrow> n < 2" for n
      using bit_mask_iff [of 2 n, where 'a = "u32"] by (auto simp: mask_eq_exp_minus_1)
    ultimately show ?thesis
      by (intro word_eq_bitsI) (auto simp: bit_and_iff simp del: bit_numeral_word_iff)
  qed
  then show ?thesis
    by (auto simp: decodeWord_def decodeInstruction_pointer_iff [OF fresh_init])
qed

text \<open>
  C33: A program file can end the process with an uncaught exception. Take the
  executables that are valid up to their one word of code (\<open>exampleFile\<close>), a host on which everything
  else succeeds (\<open>exampleHost\<close>), and any word that does not decode. If it is an OP-FP word with
  \<open>funct7\<close> 1110000 or 1110001 and \<open>funct3\<close> other than 0 and 1, the decoder throws a pointer, which
  passes the handler of \<^verbatim>\<open>SDL_AppInit\<close>, and the process is terminated; every other word that does not
  decode is reported to SDL as a failure. Both happen: \<open>0xE0002053\<close> terminates the process and
  \<open>0x0000007f\<close> is reported.
\<close>

theorem startup_pointer:
  assumes "programWord [a, b, c, d] 0 = w" and "\<nexists>i. decodeWord w = Inr i"
  shows "(SDL_AppInit (exampleHost (exampleFile a b c d)) True args :: nat callback) =
    (if getOpcode w = 0b1010011 \<and> clearBit (getFunct7 w) 0 = 0b1110000 \<and> getFunct3 w \<notin> {0, 1}
     then Crash (UncaughtException (UnknownInstructionPointer ''OP-FP'' w))
     else Result SDL_APP_FAILURE None)"
proof -
  obtain err where err: "decodeWord w = Inl err" using assms(2) by (cases "decodeWord w") auto
  have start: "(SDL_AppInit (exampleHost (exampleFile a b c d)) True args :: nat callback) = catchStd err None"
    using err assms(1) by (intro example_start) simp
  show ?thesis
  proof (cases "\<exists>k v. err = UnknownInstructionPointer k v")
    case True
    then obtain k v where ptr: "err = UnknownInstructionPointer k v" by blast
    with err have "k = ''OP-FP'' \<and> v = w \<and> getOpcode w = 0b1010011 \<and>
        clearBit (getFunct7 w) 0 = 0b1110000 \<and> getFunct3 w \<noteq> 0 \<and> getFunct3 w \<noteq> 1"
      using decodeWord_pointer_iff by blast
    moreover have "(SDL_AppInit (exampleHost (exampleFile a b c d)) True args :: nat callback) =
        Crash (UncaughtException (UnknownInstructionPointer k v))"
      unfolding start ptr by (simp add: catchStd_def)
    ultimately show ?thesis by simp
  next
    case False
    then have "isStdException err" using decodeWord_Inl [OF err] by auto
    moreover have "\<not> (getOpcode w = 0b1010011 \<and> clearBit (getFunct7 w) 0 = 0b1110000 \<and> getFunct3 w \<notin> {0, 1})"
    proof
      assume "getOpcode w = 0b1010011 \<and> clearBit (getFunct7 w) 0 = 0b1110000 \<and> getFunct3 w \<notin> {0, 1}"
      then have "decodeWord w = Inl (UnknownInstructionPointer ''OP-FP'' w)"
        unfolding decodeWord_pointer_iff by simp
      with err False show False by (metis sum.inject(1))
    qed
    ultimately show ?thesis unfolding start catchStd_def by presburger
  qed
qed

lemma startup_pointer_witness:
  "(SDL_AppInit (exampleHost (exampleFile 0x53 0x20 0 0xE0)) True [] :: nat callback) =
     Crash (UncaughtException (UnknownInstructionPointer ''OP-FP'' 0xE0002053)) \<and>
   (SDL_AppInit (exampleHost (exampleFile 0x7f 0 0 0)) True [] :: nat callback) =
     Result SDL_APP_FAILURE None"
proof -
  have words: "programWord [0x53, 0x20, 0, 0xE0] 0 = 0xE0002053" "programWord [0x7f, 0, 0, 0] 0 = 0x7f"
    by (simp_all add: programWord_def slice_of_def)
  note fields = getOpcode_def getFunct3_def getFunct7_def bitsAt_eq clearBit_def take_bit_eq_mod drop_bit_eq_div
  have "decodeWord 0xE0002053 = Inl (UnknownInstructionPointer ''OP-FP'' 0xE0002053)"
    unfolding decodeWord_pointer_iff by (simp add: fields)
  moreover have "decodeWord 0x7f = Inl (UnknownInstructionException ''unknown'' 0x7f)"
    by (simp add: decodeWord_def decodeInstruction_def unknown_def fields)
  ultimately have bad: "\<nexists>i. decodeWord 0xE0002053 = Inr i" "\<nexists>i. decodeWord 0x7f = Inr i" by simp_all
  show ?thesis
    using startup_pointer [OF words(1) bad(1), of "[]"] startup_pointer [OF words(2) bad(2), of "[]"]
    by (simp add: fields)
qed

section \<open>The framebuffer\<close>

text \<open>
  C34: The framebuffer erases the program's data. The arena has not reserved the data segments, so that
  the framebuffer of an application freshly constructed from a program file with data segments, whose
  end addresses do not wrap around (\<open>fileNoWrap\<close>), begins within the first four bytes of guest
  memory, on top of them; all its bytes are zero, and with them every data segment that it covers.
\<close>

theorem framebuffer_clears_data:
  assumes "std_sort (sortHeaders host)" and "App_construct host args = (Inr app, calls)"
    and "openFile host (programPath (options app)) = Some bytes" and "fileNoWrap bytes"
    and "dataSegments bytes \<noteq> []"
    and "start = fst (framebuffer app)"
    and "stop = start + 4 * (unat (framebufferWidth (options app)) * unat (framebufferHeight (options app)))"
  shows "start < 4 \<and> stop \<le> length (raw (memory (emulator app))) \<and>
    (\<forall>k. start \<le> k \<and> k < stop \<longrightarrow> raw (memory (emulator app)) ! k = 0) \<and>
    (\<forall>h \<in> set (dataSegments bytes). start \<le> segmentStart h \<and> segmentStart h + unat (sourceSize h) \<le> stop \<longrightarrow>
      slice_of (segmentStart h) (unat (sourceSize h)) (raw (memory (emulator app))) =
      replicate (unat (sourceSize h)) 0)"
proof -
  note parts = constructed_framebuffer [OF assms(1-5)]
  have start: "start < 4" and room: "stop \<le> length (raw (memory (emulator app)))"
    and zero: "\<forall>k. start \<le> k \<and> k < stop \<longrightarrow> raw (memory (emulator app)) ! k = 0"
    using parts by (simp_all add: assms(6,7))
  have "slice_of (segmentStart h) (unat (sourceSize h)) (raw (memory (emulator app))) =
      replicate (unat (sourceSize h)) 0"
    if "start \<le> segmentStart h" "segmentStart h + unat (sourceSize h) \<le> stop" for h
    using that zero room by (intro nth_equalityI) (simp_all add: nth_slice_of)
  then show ?thesis using start room zero by blast
qed

lemma framebuffer_clears_data_witness:
  "\<exists>app calls. App_construct (exampleHost goodFile) [] = (Inr app :: nat App result, calls) \<and>
     segmentBytes goodFile dataSegment = [0xAA, 0xBB] \<and> slice_of 8 2 (raw (memory (emulator app))) = [0, 0]"
proof -
  obtain app where app: "exampleBody goodFile = Inr app" "fst (framebuffer app) < 4"
    "options app = exampleOptions"
    by (rule goodFile_app)
  obtain calls where con: "App_construct (exampleHost goodFile) [] = (Inr app, calls)"
    using exampleHost_construct [of goodFile "[]"] app(1) by (metis prod.collapse)
  have prog: "openFile (exampleHost goodFile) (programPath (options app)) = Some goodFile"
    by (simp add: exampleHost_def)
  have sorted: "std_sort (sortHeaders (exampleHost goodFile))"
    by (simp add: exampleHost_def std_sort_stable)
  have ne: "dataSegments goodFile \<noteq> []" by (simp add: exampleFile_parts)
  have seg: "segmentStart dataSegment = 8" "unat (sourceSize dataSegment) = 2"
    by (simp_all add: segmentStart_def dataSegment_def)
  have bytes: "segmentBytes goodFile dataSegment = [0xAA, 0xBB]"
    by (simp add: segmentBytes_def) (simp add: dataSegment_def exampleFile_segments)
  have px: "unat (framebufferWidth (options app)) * unat (framebufferHeight (options app)) = 4"
    by (simp add: app(3) exampleOptions_def)
  show ?thesis
    using framebuffer_clears_data [OF sorted con prog exampleFile_fine ne refl refl] app(2) con bytes
    by (auto simp: exampleFile_parts seg px numeral_2_eq_2)
qed

text \<open>
  C35: A frame whose run returns gives SDL exactly the pixels of the framebuffer, when the width is
  below \<open>2 ^ 29\<close>: the calls are the update of the texture from the span of the framebuffer, the
  clearing of the window to black, the drawing of the texture and its presentation, in this order; the
  pitch is four times the width, the rows times the pitch are the bytes of the span, and the span is
  inside guest memory. At the width \<open>2 ^ 29\<close>, which the command line accepts, the pitch that is
  computed is negative.
\<close>

theorem texture_update_exact:
  assumes "wf_app app" and "tick app = Some (Inr (), app', calls)"
    and "unat (framebufferWidth (options app)) < 2 ^ 29"
  shows "(\<exists>pitch. calls = [UpdateTexture (framebuffer app) pitch, SetRenderDrawColor 0 0 0 0xff,
        RenderClear, RenderTexture, RenderPresent] \<and>
      sint pitch = 4 * int (unat (framebufferWidth (options app))) \<and>
      sint pitch * int (unat (framebufferHeight (options app))) = int (4 * snd (framebuffer app)) \<and>
      fst (framebuffer app) + 4 * snd (framebuffer app) \<le> length (raw (memory (emulator app')))) \<and>
    sint (framebufferPitch \<lparr>rendererWidth = 2 ^ 29, rendererHeight = 1\<rparr>) = - (2 ^ 31)"
proof (intro conjI)
  obtain t where "calls = presentFramebuffer (framebuffer app) (renderer app)" "app' = app\<lparr>mainThread := t\<rparr>"
    using assms(2) by (auto simp: tick_def split: option.splits outcome.splits)
  moreover obtain p n where fb: "framebuffer app = (p, n)" by (cases "framebuffer app")
  moreover have "rendererWidth (renderer app) = framebufferWidth (options app)"
    "n = unat (framebufferWidth (options app)) * unat (framebufferHeight (options app))"
    "p + 4 * n \<le> length (raw (memory (emulator app)))"
    using assms(1) by (simp_all add: wf_app_def fb)
  ultimately show "\<exists>pitch. calls = [UpdateTexture (framebuffer app) pitch, SetRenderDrawColor 0 0 0 0xff,
        RenderClear, RenderTexture, RenderPresent] \<and>
      sint pitch = 4 * int (unat (framebufferWidth (options app))) \<and>
      sint pitch * int (unat (framebufferHeight (options app))) = int (4 * snd (framebuffer app)) \<and>
      fst (framebuffer app) + 4 * snd (framebuffer app) \<le> length (raw (memory (emulator app')))"
    using pitch_exact(2) [of "renderer app"] assms(3) by (auto simp: presentFramebuffer_def)
  show "sint (framebufferPitch \<lparr>rendererWidth = 2 ^ 29, rendererHeight = 1\<rparr>) = - (2 ^ 31)"
    by (simp add: framebufferPitch_def sint_i32)
qed

lemma texture_update_exact_witness:
  "\<exists>app app' pitch. (exampleBody goodFile = Inr app) \<and>
     tick app = Some (Inr (), app', [UpdateTexture (framebuffer app) pitch, SetRenderDrawColor 0 0 0 0xff,
       RenderClear, RenderTexture, RenderPresent]) \<and> sint pitch = 8 \<and> snd (framebuffer app) = 4"
proof -
  obtain app where app: "exampleBody goodFile = Inr app" "options app = exampleOptions" "wf_app app"
    "instructions (emulator app) = [Instruction_init\<lparr>operand := Immediate 4096, destinationRegister := 1\<rparr>]"
    "mainThread app = Thread_init"
    by (rule goodFile_app)
  have "\<forall>i \<in> set (instructions (emulator app)). straight i"
    by (simp add: app(4) straight_def Instruction_init_def)
  then obtain u where "run Thread_init (emulator app) = Some (Returned u)"
    using straight_returns [of "emulator app"] app(3) by (auto simp: wf_app_def)
  then have "tick app = Some (Inr (), app\<lparr>mainThread := u\<rparr>, presentFramebuffer (framebuffer app) (renderer app))"
    by (simp add: tick_def app(5))
  moreover note texture_update_exact [OF app(3) this]
  moreover have "unat (framebufferWidth (options app)) = 2" "unat (framebufferHeight (options app)) = 2"
    by (simp_all add: app(2) exampleOptions_def)
  ultimately show ?thesis using app(1) by fastforce
qed

section \<open>Keys\<close>

text \<open>
  C36: The key buffer. A press of a key with a code below \<open>2 ^ 31\<close> appends the code, a release appends
  its negation, an unknown key is ignored, nothing else of the application changes; and the release
  of the key with code \<open>2 ^ 31\<close> has undefined behaviour.
\<close>

theorem key_events:
  assumes "keyCode \<noteq> sdlkUnknown host" and "unat keyCode < 2 ^ 31"
  shows "(\<exists>ev. handleKey host keyCode isKeyDown app = Inr (app\<lparr>keyEvents := keyEvents app @ [ev]\<rparr>) \<and>
      sint ev = (if isKeyDown then int (unat keyCode) else - int (unat keyCode))) \<and>
    handleKey host (sdlkUnknown host) isKeyDown app = Inr app \<and>
    (sdlkUnknown host \<noteq> 0x80000000 \<longrightarrow>
      handleKey host 0x80000000 False app = Inl (UndefinedBehaviour ''negation overflows''))"
proof -
  have "keyCode \<noteq> 0x80000000" using assms(2) by auto
  moreover have "sint (- keyCode) = - int (unat keyCode)"
    using assms(2) by (cases "keyCode = 0") (simp_all add: sint_neg_small unat_gt_0)
  ultimately show ?thesis
    using assms sint_small [OF assms(2)] by (auto simp: handleKey_def)
qed

lemma key_events_witness:
  "\<exists>app app'. exampleBody goodFile = Inr app \<and>
     handleKey (exampleHost goodFile) 97 False app = Inr app' \<and> map sint (keyEvents app') = map sint (keyEvents app) @ [- 97]"
proof -
  obtain app where app: "exampleBody goodFile = Inr app" by (rule goodFile_app)
  have key: "(97 :: u32) \<noteq> sdlkUnknown (exampleHost goodFile)" by (simp add: exampleHost_def)
  obtain ev where "handleKey (exampleHost goodFile) 97 False app = Inr (app\<lparr>keyEvents := keyEvents app @ [ev]\<rparr>)"
    "sint ev = - 97"
    using key_events [OF key, of False app] by auto
  then show ?thesis using app by auto
qed

section \<open>Command line and window\<close>

text \<open>
  C37: What the options are for the arguments that the parser delivers: the memory size must not be
  zero and both sides of the framebuffer must be positive, otherwise the error names the first of
  these that fails; an accepted size in KiB is multiplied by 1024 modulo \<open>2 ^ 64\<close>, so that a non-zero
  size becomes an empty memory exactly when it is a multiple of \<open>2 ^ 54\<close>.
\<close>

theorem options_exact:
  assumes "parse_args args = Inr (path, [w, h], kib)"
  shows "(Options_parse parse_args args = Inr opts \<longleftrightarrow> kib \<noteq> 0 \<and> 0 < sint w \<and> 0 < sint h \<and>
      opts = \<lparr>programPath = path, framebufferWidth = w, framebufferHeight = h, memorySize = kib * 1024\<rparr>) \<and>
    (kib = 0 \<longrightarrow> Options_parse parse_args args = Inl (RuntimeError ''memory size must be non-zero'')) \<and>
    (kib \<noteq> 0 \<and> (sint w \<le> 0 \<or> sint h \<le> 0) \<longrightarrow>
      Options_parse parse_args args = Inl (RuntimeError ''framebuffer size must be positive'')) \<and>
    (kib * 1024 = 0 \<longleftrightarrow> 2 ^ 54 dvd unat kib)"
  using memory_zero_iff [of kib] Options_parse_pair [of parse_args args path w h kib, OF assms]
  by auto

lemma options_exact_witness:
  "Options_parse (\<lambda>args. Inr (''prog'', [2, - 1], 1)) [] =
     Inl (RuntimeError ''framebuffer size must be positive'')"
proof -
  have "sint (- 1 :: i32) \<le> 0" by simp
  then show ?thesis
    using options_exact [of "\<lambda>args. Inr (''prog'', [2, - 1], 1)" "[]" "''prog''" 2 "- 1" 1] by simp
qed

text \<open>
  C38: A failed start leaves a window open exactly when the window had been created and the renderer or
  the texture could not be: the constructor of \<^verbatim>\<open>Renderer\<close> throws without destroying what it made. After
  every other failure (of the options, of the guest memory, of the creation of the window, and of
  everything behind the construction of the renderer) no window is open.
\<close>

theorem construct_leaks:
  assumes "App_construct host args = (Inl err, calls)"
  shows "openWindows (windowOk host) calls =
    (if calls \<noteq> [] \<and> windowOk host \<and> \<not> (rendererOk host \<and> textureOk host) then 1 else 0)"
  using assms by (rule App_construct_windows)

lemma construct_leaks_witness:
  "\<exists>err calls. App_construct ((exampleHost goodFile)\<lparr>rendererOk := False\<rparr>) [] =
       (Inl err :: nat App result, calls) \<and> openWindows True calls = 1"
proof -
  let ?host = "(exampleHost goodFile)\<lparr>rendererOk := False\<rparr>"
  have host: "newVector (vectorLimit (exampleHost goodFile)) 1024 = Inr (replicate 1024 0)"
    "windowOk (exampleHost goodFile)"
    by (simp_all add: newVector_def exampleHost_def)
  then have ok: "windowOk ?host" by simp
  have opts: "framebufferWidth exampleOptions = 2" "framebufferHeight exampleOptions = 2"
    "unat (memorySize exampleOptions) = 1024"
    by (simp_all add: exampleOptions_def)
  have con: "App_construct ?host [] =
      (Inl (RuntimeError ''failed to create SDL renderer'') :: nat App result,
       [CreateWindow ''RISC-V Emulator'' 2 2, SetWindowMinimumSize 2 2, CreateRenderer, SetRenderVSync])"
    by (simp add: App_construct_def exampleHost_options host opts Renderer_construct_def Let_def)
  show ?thesis using con construct_leaks [OF con] by (auto simp: ok exampleHost_def)
qed

end
