(* ===== verification/Assembly.thy ===== *)
theory Assembly
  imports DecoderCorrect DecoderProgram
begin

text \<open>
  Assembled programs: the bytes of a list of instructions in the encoding of the instruction set
  manual, and what \<^verbatim>\<open>decodeInstructions\<close> makes of them.
\<close>

definition assembleProgram :: "Instruction list \<Rightarrow> u8 list" where
  "assembleProgram is = concat (map (\<lambda>i. bytesOfObject 4 (encode i)) is)"

lemma assembleProgram_Cons [simp]:
  "assembleProgram [] = []"
  "assembleProgram (i # is) = bytesOfObject 4 (encode i) @ assembleProgram is"
  by (simp_all add: assembleProgram_def)

lemma length_assembleProgram [simp]: "length (assembleProgram is) = 4 * length is"
  by (induction "is") simp_all

lemma programWord_assembled:
  assumes "k < length is"
  shows "programWord (assembleProgram is) k = encode (is ! k)"
proof -
  have "slice_of (4 * k) 4 (assembleProgram is) = bytesOfObject 4 (encode (is ! k))"
    using assms
  proof (induction "is" arbitrary: k)
    case (Cons i "is")
    then show ?case by (cases k) (simp_all add: slice_of_def)
  qed simp
  then show ?thesis
    by (simp only: programWord_def objectOfBytes_bytesOfObject) (simp add: take_bit_word_eq_self)
qed

text \<open>
  Every opcode of the decoder has its two lowest bits set: no word that decodes is taken for the
  beginning of a compressed instruction.
\<close>

lemma opcode_low_bits: "bitand (opcodeValue op) 3 = 3"
  by (cases op) simp_all

lemma decodeInstruction_opcode:
  assumes "decodeInstruction i e = Inr j"
  shows "getOpcode e \<in> range opcodeValue"
proof (rule ccontr)
  assume "getOpcode e \<notin> range opcodeValue"
  then have "getOpcode e \<noteq> opcodeValue op" for op by auto
  then show False
    using assms unfolding decodeInstruction_def Let_def
    by (simp only: switch.simps if_False unknown_def sum.distinct)
qed

lemma low_bits_of_opcode:
  assumes "bitand (getOpcode e) 3 = 3"
  shows "bitand e 3 = 3"
proof -
  have k8: "bit (3 :: u8) n \<longleftrightarrow> n < 2" and k32: "bit (3 :: u32) n \<longleftrightarrow> n < 2" for n
    using bit_mask_iff [of 2 n, where 'a = "u8"] bit_mask_iff [of 2 n, where 'a = "u32"]
    by (auto simp: mask_eq_exp_minus_1)
  have "bit e n" if "n < 2" for n
  proof -
    have "bit (bitand (getOpcode e) 3) n" using that unfolding assms k8 .
    then show ?thesis using that by (simp add: bit_and_iff field_bits)
  qed
  then show ?thesis
    by (auto simp: bit_eq_iff bit_and_iff k32 simp del: bit_numeral_word_iff)
qed

lemma decoded_not_compressed:
  assumes "decodeInstruction Instruction_init e = Inr i"
  shows "decodeWord e = Inr i"
proof -
  obtain op where "getOpcode e = opcodeValue op" using decodeInstruction_opcode [OF assms] by blast
  then have "bitand e 3 = 3" using opcode_low_bits low_bits_of_opcode by simp
  then show ?thesis using assms by (simp add: decodeWord_def)
qed

lemma decode_assembled:
  assumes "\<forall>i \<in> set is. encodable i \<and> \<not> diverges i"
  shows "decodeInstructions nl (assembleProgram is) = Inr is"
proof -
  have "decodeWord (programWord (assembleProgram is) k) = Inr (is ! k)" if "k < length is" for k
    using assms that roundtrip_iff [of "is ! k"]
    by (simp add: programWord_assembled decoded_not_compressed)
  then show ?thesis
    by (subst decodeInstructions_Inr_iff [of _ "length is"]) simp_all
qed

end
