(* ===== verification/Spec2Isabelle.thy ===== *)
theory Spec2Isabelle
  imports DecoderProperties MachineProperties LoaderProperties AppProperties Assembly
begin

text \<open>
  A model of the RISC-V emulator under \<^verbatim>\<open>src/src\<close> and the theorems that say what it does.

  The program loads an ELF executable for 64-bit RISC-V, decodes its code segments into a vector of
  instructions, places its data segments into an arena of guest memory, and runs the instructions
  once per frame of an SDL window that shows a framebuffer in guest memory.

  \<^bold>\<open>The model.\<close> One theory for every part of the program, in the order in which the parts build on each
  other; names are those of the sources.

  \<^item> \<open>Prelude\<close>: the machine integers as words, the errors and results of the program, the C++ \<^verbatim>\<open>switch\<close>,
    and lemmas on lists and words that the other theories share.
  \<^item> \<open>Bits\<close> (\<^verbatim>\<open>riscv/utils/bits.hpp\<close>): the six bit-field templates, polymorphic in the word type. The
    locale \<open>bit_flags\<close> is the contract that the floating-point flags need of them.
  \<^item> \<open>Memory\<close> (\<^verbatim>\<open>riscv/utils/memory.hpp\<close>): the six unaligned accesses, both the branch for little-endian
    hosts and the one for the others. Memory is a byte list, a pointer an offset. The locale \<open>byte_codec\<close>
    states the round trip and the frame of a width and is interpreted for all three.
  \<^item> \<open>Base\<close> (\<^verbatim>\<open>riscv/base.hpp\<close>, \<^verbatim>\<open>base.cpp\<close>): registers, hart state and floating-point status; the locale
    \<open>register_bank\<close>.
  \<^item> \<open>Instruction\<close> (\<^verbatim>\<open>riscv/instruction.hpp\<close>): the instruction struct with its union and its types.
  \<^item> \<open>Decoder\<close> (\<^verbatim>\<open>riscv/instruction.cpp\<close>): all extractors, the fourteen decoders of instruction classes, the
    dispatch and the loop over a program. The exception class is an error value with its two arguments.
  \<^item> \<open>Arena\<close> (\<^verbatim>\<open>riscv/utils/arena.hpp\<close>): the allocator. The locales \<open>bump_allocator\<close> and
    \<open>zeroing_allocator\<close> are what its clients use, the second interpreted for bytes and for pixels.
  \<^item> \<open>LoopRules\<close>: loops as step functions that end or go on, with the locale \<open>program_loop\<close> that relates
    a \<open>partial_function\<close> to iteration with fuel. \<open>None\<close> means that the loop never ends.
  \<^item> \<open>Emulator\<close> (\<^verbatim>\<open>riscv/emulator.hpp\<close>, \<^verbatim>\<open>emulator.cpp\<close>): the emulator object, the execution loop, the
    registry of system call handlers; and \<open>isa_step\<close>, what the instruction set manual says of the
    instructions that the loop supports, with \<open>isa_outcome\<close>, which adds the exception for misaligned
    targets.
  \<^item> \<open>Elf\<close> (\<^verbatim>\<open>riscv/elf.cpp\<close>): the loader, every check and every copy in source order.
  \<^item> \<open>Frontend\<close> (\<^verbatim>\<open>options.cpp\<close>, \<^verbatim>\<open>renderer.cpp\<close>), \<open>App\<close> (\<^verbatim>\<open>app.cpp\<close>) and \<open>Lifecycle\<close> (\<^verbatim>\<open>main.cpp\<close>): the command
    line, the calls into SDL, the application object, and the four callbacks with the order in which
    SDL calls them as a step relation.

  \<^bold>\<open>State and effects.\<close> An operation that changes an object takes and returns the record of its class.
  An exception is an \<open>Inl\<close> of the error that is thrown. Undefined behaviour is the error
  \<open>UndefinedBehaviour\<close>: accesses outside of an array, reads of the inactive member of the union, signed
  overflow, shifts by the width or more. Integers have the width of the sources; sums of file addresses wrap around as they do there.

  \<^bold>\<open>The proofs.\<close>

  \<^item> \<open>DecodeFields\<close>, \<open>Encoding\<close>, \<open>DecoderCorrect\<close>, \<open>DecoderReencode\<close>, \<open>DecoderProgram\<close>, \<open>Assembly\<close>: the
    encoding tables of the manual as an independent function \<open>encode\<close>, and both round trips with the
    decoder. The locale \<open>class_decoder\<close> is the contract of the fourteen class decoders. Where the two
    differ is described exactly by \<open>diverges\<close> and \<open>lossy\<close>. \<open>DecoderProperties\<close> has the results.
  \<^item> \<open>MachineProperties\<close>: each iteration of the execution loop against \<open>isa_outcome\<close>, safety, invariants,
    termination and errors of runs; the allocator; memory accesses; bit fields.
  \<^item> \<open>ElfHeaders\<close>, \<open>ElfLoad\<close>, \<open>LoaderExample\<close>, \<open>LoaderProperties\<close>: which files are loaded, what is in memory
    afterwards, and what happens when file addresses wrap around.
  \<^item> \<open>AppExample\<close>, \<open>AppProperties\<close>: the process as a whole.
  \<^item> This theory: properties that span the assembler tables, the decoder, the loader and the machine.

  \<^bold>\<open>Where the program departs from its intent\<close> the theorems state what it does: taken jumps land four
  bytes behind their target and are not checked for alignment (\<open>iteration_refines_isa\<close>, \<open>idle_loops\<close>),
  instructions that are decoded and not executed (\<open>unsupported_stops\<close>), a \<open>JALR\<close> onto its own source
  (\<open>jalr_own_source\<close>), the registration of system calls (\<open>custom_syscalls_dead\<close>), square roots, divisions,
  control registers and fences (\<open>decode_divergent\<close>), the thrown pointer (\<open>startup_pointer\<close>), memory that is
  handed out twice (\<open>allocations_alias\<close>, \<open>framebuffer_clears_data\<close>), the clean-up of arrays
  (\<open>array_cleanup_range\<close>), addresses that wrap around (\<open>wrapped_table_read\<close>, \<open>wrapped_segment_write\<close>), and
  a window that stays open (\<open>construct_leaks\<close>).

  \<^bold>\<open>Bounds.\<close> No fuel is chosen anywhere in the model: the decoding and loading loops are total functions,
  and the execution loop is a \<open>partial_function\<close>, with termination proved for forward programs. A
  program is well-formed (\<open>wf_program\<close>) when its byte size is below \<open>2 ^ 63\<close>, which every vector
  satisfies. \<open>fileNoWrap\<close> excludes files with addresses whose sums leave 64 bits; every property that
  needs it says so.

  \<^bold>\<open>Parameters.\<close> The endianness of the host, the address of the guest memory, the largest vector of the
  host, the permutation of \<^verbatim>\<open>std::sort\<close> (with \<open>std_sort\<close> as its specification), the argument parser, the
  file system, the clock and the success of SDL's creating calls.

  \<^bold>\<open>Idealised.\<close> The growth of vectors by \<^verbatim>\<open>push_back\<close> (in \<open>decodeLoop\<close>, \<open>readSegmentLoop\<close> and \<open>handleKey\<close>)
  always finds memory. The allocations whose size the user or the file chooses, the guest memory and
  the code image, can fail in the model as they can in the program (\<open>newVector\<close>).

  \<^bold>\<open>Not modelled.\<close> The texts that are written to standard error; the destructor of the emulator, which is
  empty; the guest library under \<^verbatim>\<open>src/lib\<close> and the tests, which are not part of the program; the inside
  of SDL, argparse and the standard library. The sources decode floating-point, atomic and system
  instructions but do not execute them, and they declare system calls without handlers; so does the
  model.
\<close>

section \<open>From assembled code to execution\<close>

text \<open>
  C39: Assembling and decoding a program is the identity: the bytes of any list of encodable
  instructions decode to exactly that list, in order, on a host of either endianness, unless one of
  the instructions is among the exceptions of \<open>diverges\<close>.
\<close>

theorem assembled_program_decodes:
  assumes "\<forall>i \<in> set is. encodable i \<and> \<not> diverges i"
  shows "decodeInstructions nl (assembleProgram is) = Inr is"
  using assms by (rule decode_assembled)

definition exampleProgram :: "Instruction list" where
  "exampleProgram = [lui 1 4096]"

lemma exampleProgram_fine:
  "\<forall>i \<in> set exampleProgram. encodable i \<and> \<not> diverges i" "\<forall>i \<in> set exampleProgram. straight i"
  by (simp_all add: exampleProgram_def lui_def encodable_def diverges_def straight_def
      Instruction_init_def take_bit_eq_mod)

lemma assembled_program_decodes_witness:
  "decodeInstructions True (assembleProgram exampleProgram) = Inr exampleProgram"
  by (rule assembled_program_decodes [OF exampleProgram_fine(1)])




end
